theory Spec2Isabelle
  imports Main "HOL-Library.Word"
begin

unbundle bit_operations_syntax

section \<open>Machine types and results\<close>

text \<open>
  The embedding follows \<^verbatim>\<open>src/libANGLE/renderer/vulkan/vk_helpers.cpp\<close>.
  \<^verbatim>\<open>size_t\<close>, \<^verbatim>\<open>VkDeviceSize\<close> and \<^verbatim>\<open>uint64_t\<close> are 64-bit words,
  \<^verbatim>\<open>uint32_t\<close> and the Vulkan flag types are 32-bit words; arithmetic on them wraps.
  A \<^verbatim>\<open>Serial\<close> is a natural number, ordered as the serials are.
  A fallible function returns \<open>Inl Stop\<close> where the source returns
  \<^verbatim>\<open>angle::Result::Stop\<close> (through \<^verbatim>\<open>ANGLE_TRY\<close>), and
  \<open>Inl AssertionFailure\<close> where an \<^verbatim>\<open>ASSERT\<close> of the source does not hold.
\<close>

type_synonym size_t = "64 word"
type_synonym uint32_t = "32 word"
type_synonym uint64_t = "64 word"
type_synonym VkDeviceSize = "64 word"
type_synonym VkFlags = "32 word"
type_synonym Serial = nat

datatype Error = Stop | AssertionFailure

section \<open>Image layouts and the barrier table\<close>

datatype ImageLayout =
    Undefined
  | ExternalPreInitialized
  | TransferSrc
  | TransferDst
  | ComputeShaderReadOnly
  | ComputeShaderWrite
  | AllGraphicsShadersReadOnly
  | AllGraphicsShadersWrite
  | ColorAttachment
  | DepthStencilAttachment
  | Present

datatype VkImageLayout =
    VK_IMAGE_LAYOUT_UNDEFINED
  | VK_IMAGE_LAYOUT_GENERAL
  | VK_IMAGE_LAYOUT_COLOR_ATTACHMENT_OPTIMAL
  | VK_IMAGE_LAYOUT_DEPTH_STENCIL_ATTACHMENT_OPTIMAL
  | VK_IMAGE_LAYOUT_SHADER_READ_ONLY_OPTIMAL
  | VK_IMAGE_LAYOUT_TRANSFER_SRC_OPTIMAL
  | VK_IMAGE_LAYOUT_TRANSFER_DST_OPTIMAL
  | VK_IMAGE_LAYOUT_PREINITIALIZED
  | VK_IMAGE_LAYOUT_PRESENT_SRC_KHR

text \<open>The pipeline stage and access bits, with the values of the Vulkan headers.\<close>

definition VK_PIPELINE_STAGE_TOP_OF_PIPE_BIT :: VkFlags where
  "VK_PIPELINE_STAGE_TOP_OF_PIPE_BIT = 0x1"
definition VK_PIPELINE_STAGE_EARLY_FRAGMENT_TESTS_BIT :: VkFlags where
  "VK_PIPELINE_STAGE_EARLY_FRAGMENT_TESTS_BIT = 0x100"
definition VK_PIPELINE_STAGE_LATE_FRAGMENT_TESTS_BIT :: VkFlags where
  "VK_PIPELINE_STAGE_LATE_FRAGMENT_TESTS_BIT = 0x200"
definition VK_PIPELINE_STAGE_COLOR_ATTACHMENT_OUTPUT_BIT :: VkFlags where
  "VK_PIPELINE_STAGE_COLOR_ATTACHMENT_OUTPUT_BIT = 0x400"
definition VK_PIPELINE_STAGE_COMPUTE_SHADER_BIT :: VkFlags where
  "VK_PIPELINE_STAGE_COMPUTE_SHADER_BIT = 0x800"
definition VK_PIPELINE_STAGE_TRANSFER_BIT :: VkFlags where
  "VK_PIPELINE_STAGE_TRANSFER_BIT = 0x1000"
definition VK_PIPELINE_STAGE_BOTTOM_OF_PIPE_BIT :: VkFlags where
  "VK_PIPELINE_STAGE_BOTTOM_OF_PIPE_BIT = 0x2000"
definition VK_PIPELINE_STAGE_HOST_BIT :: VkFlags where
  "VK_PIPELINE_STAGE_HOST_BIT = 0x4000"
definition VK_PIPELINE_STAGE_ALL_GRAPHICS_BIT :: VkFlags where
  "VK_PIPELINE_STAGE_ALL_GRAPHICS_BIT = 0x8000"
definition VK_PIPELINE_STAGE_ALL_COMMANDS_BIT :: VkFlags where
  "VK_PIPELINE_STAGE_ALL_COMMANDS_BIT = 0x10000"

definition VK_ACCESS_SHADER_READ_BIT :: VkFlags where
  "VK_ACCESS_SHADER_READ_BIT = 0x20"
definition VK_ACCESS_SHADER_WRITE_BIT :: VkFlags where
  "VK_ACCESS_SHADER_WRITE_BIT = 0x40"
definition VK_ACCESS_COLOR_ATTACHMENT_READ_BIT :: VkFlags where
  "VK_ACCESS_COLOR_ATTACHMENT_READ_BIT = 0x80"
definition VK_ACCESS_COLOR_ATTACHMENT_WRITE_BIT :: VkFlags where
  "VK_ACCESS_COLOR_ATTACHMENT_WRITE_BIT = 0x100"
definition VK_ACCESS_DEPTH_STENCIL_ATTACHMENT_READ_BIT :: VkFlags where
  "VK_ACCESS_DEPTH_STENCIL_ATTACHMENT_READ_BIT = 0x200"
definition VK_ACCESS_DEPTH_STENCIL_ATTACHMENT_WRITE_BIT :: VkFlags where
  "VK_ACCESS_DEPTH_STENCIL_ATTACHMENT_WRITE_BIT = 0x400"
definition VK_ACCESS_TRANSFER_READ_BIT :: VkFlags where
  "VK_ACCESS_TRANSFER_READ_BIT = 0x800"
definition VK_ACCESS_TRANSFER_WRITE_BIT :: VkFlags where
  "VK_ACCESS_TRANSFER_WRITE_BIT = 0x1000"
definition VK_ACCESS_MEMORY_WRITE_BIT :: VkFlags where
  "VK_ACCESS_MEMORY_WRITE_BIT = 0x10000"

lemmas vk_bits =
  VK_PIPELINE_STAGE_TOP_OF_PIPE_BIT_def VK_PIPELINE_STAGE_EARLY_FRAGMENT_TESTS_BIT_def
  VK_PIPELINE_STAGE_LATE_FRAGMENT_TESTS_BIT_def VK_PIPELINE_STAGE_COLOR_ATTACHMENT_OUTPUT_BIT_def
  VK_PIPELINE_STAGE_COMPUTE_SHADER_BIT_def VK_PIPELINE_STAGE_TRANSFER_BIT_def
  VK_PIPELINE_STAGE_BOTTOM_OF_PIPE_BIT_def VK_PIPELINE_STAGE_HOST_BIT_def
  VK_PIPELINE_STAGE_ALL_GRAPHICS_BIT_def VK_PIPELINE_STAGE_ALL_COMMANDS_BIT_def
  VK_ACCESS_SHADER_READ_BIT_def VK_ACCESS_SHADER_WRITE_BIT_def
  VK_ACCESS_COLOR_ATTACHMENT_READ_BIT_def VK_ACCESS_COLOR_ATTACHMENT_WRITE_BIT_def
  VK_ACCESS_DEPTH_STENCIL_ATTACHMENT_READ_BIT_def VK_ACCESS_DEPTH_STENCIL_ATTACHMENT_WRITE_BIT_def
  VK_ACCESS_TRANSFER_READ_BIT_def VK_ACCESS_TRANSFER_WRITE_BIT_def VK_ACCESS_MEMORY_WRITE_BIT_def

record ImageMemoryBarrierData =
  layout :: VkImageLayout
  dstStageMask :: VkFlags
  srcStageMask :: VkFlags
  dstAccessMask :: VkFlags
  srcAccessMask :: VkFlags
  sameLayoutTransitionRequiresBarrier :: bool

fun kImageMemoryBarrierData :: "ImageLayout \<Rightarrow> ImageMemoryBarrierData" where
  "kImageMemoryBarrierData Undefined =
     \<lparr>layout = VK_IMAGE_LAYOUT_UNDEFINED,
      dstStageMask = VK_PIPELINE_STAGE_BOTTOM_OF_PIPE_BIT,
      srcStageMask = VK_PIPELINE_STAGE_TOP_OF_PIPE_BIT,
      dstAccessMask = 0, srcAccessMask = 0,
      sameLayoutTransitionRequiresBarrier = False\<rparr>"
| "kImageMemoryBarrierData ExternalPreInitialized =
     \<lparr>layout = VK_IMAGE_LAYOUT_PREINITIALIZED,
      dstStageMask = VK_PIPELINE_STAGE_BOTTOM_OF_PIPE_BIT,
      srcStageMask = VK_PIPELINE_STAGE_HOST_BIT OR VK_PIPELINE_STAGE_ALL_COMMANDS_BIT,
      dstAccessMask = 0, srcAccessMask = VK_ACCESS_MEMORY_WRITE_BIT,
      sameLayoutTransitionRequiresBarrier = False\<rparr>"
| "kImageMemoryBarrierData TransferSrc =
     \<lparr>layout = VK_IMAGE_LAYOUT_TRANSFER_SRC_OPTIMAL,
      dstStageMask = VK_PIPELINE_STAGE_TRANSFER_BIT,
      srcStageMask = VK_PIPELINE_STAGE_TRANSFER_BIT,
      dstAccessMask = VK_ACCESS_TRANSFER_READ_BIT, srcAccessMask = 0,
      sameLayoutTransitionRequiresBarrier = False\<rparr>"
| "kImageMemoryBarrierData TransferDst =
     \<lparr>layout = VK_IMAGE_LAYOUT_TRANSFER_DST_OPTIMAL,
      dstStageMask = VK_PIPELINE_STAGE_TRANSFER_BIT,
      srcStageMask = VK_PIPELINE_STAGE_TRANSFER_BIT,
      dstAccessMask = VK_ACCESS_TRANSFER_WRITE_BIT,
      srcAccessMask = VK_ACCESS_TRANSFER_WRITE_BIT,
      sameLayoutTransitionRequiresBarrier = True\<rparr>"
| "kImageMemoryBarrierData ComputeShaderReadOnly =
     \<lparr>layout = VK_IMAGE_LAYOUT_SHADER_READ_ONLY_OPTIMAL,
      dstStageMask = VK_PIPELINE_STAGE_COMPUTE_SHADER_BIT,
      srcStageMask = VK_PIPELINE_STAGE_COMPUTE_SHADER_BIT,
      dstAccessMask = VK_ACCESS_SHADER_READ_BIT, srcAccessMask = 0,
      sameLayoutTransitionRequiresBarrier = False\<rparr>"
| "kImageMemoryBarrierData ComputeShaderWrite =
     \<lparr>layout = VK_IMAGE_LAYOUT_GENERAL,
      dstStageMask = VK_PIPELINE_STAGE_COMPUTE_SHADER_BIT,
      srcStageMask = VK_PIPELINE_STAGE_COMPUTE_SHADER_BIT,
      dstAccessMask = VK_ACCESS_SHADER_READ_BIT OR VK_ACCESS_SHADER_WRITE_BIT,
      srcAccessMask = VK_ACCESS_SHADER_WRITE_BIT,
      sameLayoutTransitionRequiresBarrier = True\<rparr>"
| "kImageMemoryBarrierData AllGraphicsShadersReadOnly =
     \<lparr>layout = VK_IMAGE_LAYOUT_SHADER_READ_ONLY_OPTIMAL,
      dstStageMask = VK_PIPELINE_STAGE_ALL_GRAPHICS_BIT,
      srcStageMask = VK_PIPELINE_STAGE_ALL_GRAPHICS_BIT,
      dstAccessMask = VK_ACCESS_SHADER_READ_BIT, srcAccessMask = 0,
      sameLayoutTransitionRequiresBarrier = False\<rparr>"
| "kImageMemoryBarrierData AllGraphicsShadersWrite =
     \<lparr>layout = VK_IMAGE_LAYOUT_GENERAL,
      dstStageMask = VK_PIPELINE_STAGE_ALL_GRAPHICS_BIT,
      srcStageMask = VK_PIPELINE_STAGE_ALL_GRAPHICS_BIT,
      dstAccessMask = VK_ACCESS_SHADER_READ_BIT OR VK_ACCESS_SHADER_WRITE_BIT,
      srcAccessMask = VK_ACCESS_SHADER_WRITE_BIT,
      sameLayoutTransitionRequiresBarrier = True\<rparr>"
| "kImageMemoryBarrierData ColorAttachment =
     \<lparr>layout = VK_IMAGE_LAYOUT_COLOR_ATTACHMENT_OPTIMAL,
      dstStageMask = VK_PIPELINE_STAGE_COLOR_ATTACHMENT_OUTPUT_BIT,
      srcStageMask = VK_PIPELINE_STAGE_COLOR_ATTACHMENT_OUTPUT_BIT,
      dstAccessMask =
        VK_ACCESS_COLOR_ATTACHMENT_READ_BIT OR VK_ACCESS_COLOR_ATTACHMENT_WRITE_BIT,
      srcAccessMask = VK_ACCESS_COLOR_ATTACHMENT_WRITE_BIT,
      sameLayoutTransitionRequiresBarrier = True\<rparr>"
| "kImageMemoryBarrierData DepthStencilAttachment =
     \<lparr>layout = VK_IMAGE_LAYOUT_DEPTH_STENCIL_ATTACHMENT_OPTIMAL,
      dstStageMask =
        VK_PIPELINE_STAGE_EARLY_FRAGMENT_TESTS_BIT OR VK_PIPELINE_STAGE_LATE_FRAGMENT_TESTS_BIT,
      srcStageMask =
        VK_PIPELINE_STAGE_EARLY_FRAGMENT_TESTS_BIT OR VK_PIPELINE_STAGE_LATE_FRAGMENT_TESTS_BIT,
      dstAccessMask =
        VK_ACCESS_DEPTH_STENCIL_ATTACHMENT_READ_BIT
          OR VK_ACCESS_DEPTH_STENCIL_ATTACHMENT_WRITE_BIT,
      srcAccessMask = VK_ACCESS_DEPTH_STENCIL_ATTACHMENT_WRITE_BIT,
      sameLayoutTransitionRequiresBarrier = True\<rparr>"
| "kImageMemoryBarrierData Present =
     \<lparr>layout = VK_IMAGE_LAYOUT_PRESENT_SRC_KHR,
      dstStageMask = VK_PIPELINE_STAGE_BOTTOM_OF_PIPE_BIT,
      srcStageMask = VK_PIPELINE_STAGE_TOP_OF_PIPE_BIT,
      dstAccessMask = 0, srcAccessMask = 0,
      sameLayoutTransitionRequiresBarrier = False\<rparr>"

section \<open>The command record\<close>

text \<open>
  The command buffer is the list of the calls recorded on it, oldest first. The structures
  of the Vulkan headers keep the fields this code fills in; a clear value and the payload
  of a copy region are opaque tokens, since nothing here computes with them.
\<close>

record VkImageSubresourceRange =
  aspectMask :: VkFlags
  baseMipLevel :: uint32_t
  levelCount :: uint32_t
  baseArrayLayer :: uint32_t
  layerCount :: uint32_t

record VkImageMemoryBarrier =
  imb_srcAccessMask :: VkFlags
  imb_dstAccessMask :: VkFlags
  imb_oldLayout :: VkImageLayout
  imb_newLayout :: VkImageLayout
  imb_srcQueueFamilyIndex :: uint32_t
  imb_dstQueueFamilyIndex :: uint32_t
  imb_image :: nat
  imb_subresourceRange :: VkImageSubresourceRange

record VkImageSubresourceLayers =
  sl_mipLevel :: uint32_t
  sl_baseArrayLayer :: uint32_t
  sl_layerCount :: uint32_t

record VkBufferImageCopy =
  bic_region :: nat
  imageSubresource :: VkImageSubresourceLayers

record VkImageCopy =
  ic_region :: nat
  dstSubresource :: VkImageSubresourceLayers

datatype Command =
    ExecutionBarrier VkFlags
  | ImageBarrier VkFlags VkFlags VkImageMemoryBarrier
  | ClearColorImage nat VkImageLayout nat VkImageSubresourceRange
  | ClearDepthStencilImage nat VkImageLayout nat VkImageSubresourceRange
  | CopyBufferToImage nat nat VkImageLayout VkBufferImageCopy
  | CopyImage nat VkImageLayout nat VkImageLayout VkImageCopy

section \<open>The image state machine\<close>

text \<open>
  The members of \<^verbatim>\<open>ImageHelper\<close> that the layout functions read and write: the image
  handle (0 is the null handle), the current layout and queue family, and the layer and
  level counts; and the queue serial stored in the resource. The functions are stated for
  every extension of this record, so that they apply to the whole \<^verbatim>\<open>ImageHelper\<close>
  below as well.
\<close>

record ImageState =
  mImage :: nat
  mStoredQueueSerial :: Serial
  mCurrentLayout :: ImageLayout
  mCurrentQueueFamilyIndex :: uint32_t
  mLayerCount :: uint32_t
  mLevelCount :: uint32_t

definition isLayoutChangeNecessary :: "'a ImageState_scheme \<Rightarrow> ImageLayout \<Rightarrow> bool" where
  "isLayoutChangeNecessary img newLayout =
     (let layoutData = kImageMemoryBarrierData (mCurrentLayout img);
          sameLayoutAndNoNeedForBarrier =
            (mCurrentLayout img = newLayout
              \<and> \<not> sameLayoutTransitionRequiresBarrier layoutData)
      in \<not> sameLayoutAndNoNeedForBarrier)"

definition forceChangeLayoutAndQueue ::
  "VkFlags \<Rightarrow> ImageLayout \<Rightarrow> uint32_t \<Rightarrow> 'a ImageState_scheme \<Rightarrow> Command list
     \<Rightarrow> Error + ('a ImageState_scheme \<times> Command list)" where
  "forceChangeLayoutAndQueue aspect newLayout newQueueFamilyIndex img commandBuffer =
     (if mCurrentLayout img = newLayout
          \<and> mCurrentQueueFamilyIndex img = newQueueFamilyIndex
          \<and> mCurrentLayout img \<noteq> TransferDst
      then
        (let transition = kImageMemoryBarrierData (mCurrentLayout img)
         in if srcStageMask transition = dstStageMask transition
            then Inr (img, commandBuffer @ [ExecutionBarrier (dstStageMask transition)])
            else Inl AssertionFailure)
      else
        (let transitionFrom = kImageMemoryBarrierData (mCurrentLayout img);
             transitionTo = kImageMemoryBarrierData newLayout;
             imageMemoryBarrier =
               \<lparr>imb_srcAccessMask = srcAccessMask transitionFrom,
                imb_dstAccessMask = dstAccessMask transitionTo,
                imb_oldLayout = layout transitionFrom,
                imb_newLayout = layout transitionTo,
                imb_srcQueueFamilyIndex = mCurrentQueueFamilyIndex img,
                imb_dstQueueFamilyIndex = newQueueFamilyIndex,
                imb_image = mImage img,
                imb_subresourceRange =
                  \<lparr>aspectMask = aspect, baseMipLevel = 0, levelCount = mLevelCount img,
                   baseArrayLayer = 0, layerCount = mLayerCount img\<rparr>\<rparr>
         in Inr (img\<lparr>mCurrentLayout := newLayout,
                       mCurrentQueueFamilyIndex := newQueueFamilyIndex\<rparr>,
                 commandBuffer
                   @ [ImageBarrier (srcStageMask transitionFrom) (dstStageMask transitionTo)
                        imageMemoryBarrier])))"

definition changeLayout ::
  "VkFlags \<Rightarrow> ImageLayout \<Rightarrow> 'a ImageState_scheme \<Rightarrow> Command list
     \<Rightarrow> Error + ('a ImageState_scheme \<times> Command list)" where
  "changeLayout aspect newLayout img commandBuffer =
     (if \<not> isLayoutChangeNecessary img newLayout then Inr (img, commandBuffer)
      else forceChangeLayoutAndQueue aspect newLayout (mCurrentQueueFamilyIndex img)
             img commandBuffer)"

section \<open>The device collaborator and the serial oracle\<close>

text \<open>
  Modelled from the spec: \<^verbatim>\<open>ContextVk\<close>, the device/queue collaborator, whose class is
  not part of these sources. It answers \<^verbatim>\<open>getCurrentQueueSerial()\<close> and
  \<^verbatim>\<open>getLastCompletedQueueSerial()\<close>; a serial is retired iff it is at most the last
  completed one, so \<^verbatim>\<open>isSerialInUse\<close> holds of the serials above it. Whether a device
  call succeeds is the collaborator's answer (the \<open>...Ok\<close> fields). It hands out object
  identities (\<open>nextHandle\<close>, never reused), counts the native pool objects it created and
  destroyed, and keeps the objects passed to \<^verbatim>\<open>releaseObject\<close> with their serial.
\<close>

record ContextVk =
  currentQueueSerial :: Serial
  lastCompletedQueueSerial :: Serial
  createBufferOk :: bool
  flushMemoryOk :: bool
  mapMemoryOk :: bool
  createQueryPoolOk :: bool
  createDescriptorPoolOk :: bool
  allocateDescriptorSetsOk :: bool
  hostCoherentMemory :: bool
  nextHandle :: nat
  nativePoolsCreated :: nat
  nativePoolsDestroyed :: nat
  garbage :: "(Serial \<times> nat) list"

definition isSerialInUse :: "ContextVk \<Rightarrow> Serial \<Rightarrow> bool" where
  "isSerialInUse ctx serial = (lastCompletedQueueSerial ctx < serial)"

definition releaseObject :: "ContextVk \<Rightarrow> Serial \<Rightarrow> nat \<Rightarrow> ContextVk" where
  "releaseObject ctx serial object = ctx\<lparr>garbage := garbage ctx @ [(serial, object)]\<rparr>"

section \<open>BufferHelper\<close>

text \<open>
  A \<^verbatim>\<open>BufferHelper\<close> object: its identity, the size it was created with, the queue
  serial stored in it, whether its memory is mapped, and the two memory property bits
  \<^verbatim>\<open>BufferHelper::flush\<close> reads. The buffer, its view and its memory are released
  together and stand as one object in the garbage list.
\<close>

record BufferHelper =
  bh_handle :: nat
  bh_mSize :: VkDeviceSize
  bh_mStoredQueueSerial :: Serial
  bh_mapped :: bool
  bh_hostVisible :: bool
  bh_hostCoherent :: bool

definition BufferHelper_init ::
  "ContextVk \<Rightarrow> VkDeviceSize \<Rightarrow> bool \<Rightarrow> (Error + BufferHelper) \<times> ContextVk" where
  "BufferHelper_init ctx createInfo_size hostVisible =
     (if createBufferOk ctx
      then (Inr \<lparr>bh_handle = nextHandle ctx, bh_mSize = createInfo_size,
                  bh_mStoredQueueSerial = 0, bh_mapped = False,
                  bh_hostVisible = hostVisible,
                  bh_hostCoherent = hostCoherentMemory ctx\<rparr>,
            ctx\<lparr>nextHandle := Suc (nextHandle ctx)\<rparr>)
      else (Inl Stop, ctx))"

definition BufferHelper_unmap :: "BufferHelper \<Rightarrow> BufferHelper" where
  "BufferHelper_unmap b = (if bh_mapped b then b\<lparr>bh_mapped := False\<rparr> else b)"

definition BufferHelper_release :: "ContextVk \<Rightarrow> BufferHelper \<Rightarrow> ContextVk" where
  "BufferHelper_release ctx b = releaseObject ctx (bh_mStoredQueueSerial b) (bh_handle b)"

definition BufferHelper_flush :: "ContextVk \<Rightarrow> BufferHelper \<Rightarrow> Error + unit" where
  "BufferHelper_flush ctx b =
     (if bh_hostVisible b \<and> \<not> bh_hostCoherent b
      then (if flushMemoryOk ctx then Inr () else Inl Stop)
      else Inr ())"

text \<open>
  Modelled from the spec: \<^verbatim>\<open>BufferHelper::map\<close>, \<^verbatim>\<open>updateQueueSerial\<close> and
  \<^verbatim>\<open>isResourceInUse\<close> are declared in headers that are not part of these sources.
  Mapping maps the memory once (\<^verbatim>\<open>mapImpl\<close>, fallible) and then returns the mapping;
  tagging stores the given serial; a resource is in use iff its stored serial is.
\<close>

definition BufferHelper_map ::
  "ContextVk \<Rightarrow> BufferHelper \<Rightarrow> (Error + unit) \<times> BufferHelper" where
  "BufferHelper_map ctx b =
     (if bh_mapped b then (Inr (), b)
      else if mapMemoryOk ctx then (Inr (), b\<lparr>bh_mapped := True\<rparr>)
      else (Inl Stop, b))"

definition updateQueueSerial :: "Serial \<Rightarrow> BufferHelper \<Rightarrow> BufferHelper" where
  "updateQueueSerial serial b = b\<lparr>bh_mStoredQueueSerial := serial\<rparr>"

definition isResourceInUse :: "ContextVk \<Rightarrow> BufferHelper \<Rightarrow> bool" where
  "isResourceInUse ctx b = isSerialInUse ctx (bh_mStoredQueueSerial b)"

section \<open>DynamicBuffer\<close>

text \<open>
  Modelled from the spec: \<^verbatim>\<open>roundUp\<close> of \<^verbatim>\<open>common/mathutil.h\<close> (the header is not
  part of these sources) rounds a size up to the alignment, in the unsigned arithmetic of
  its type: \<^verbatim>\<open>temp = value + alignment - 1; return temp - temp % alignment\<close>.
\<close>

definition roundUp :: "'a::len word \<Rightarrow> 'a word \<Rightarrow> 'a word" where
  "roundUp val alignment = (let temp = val + alignment - 1 in temp - temp mod alignment)"

text \<open>
  The members of \<^verbatim>\<open>DynamicBuffer\<close>. The two offsets are \<^verbatim>\<open>uint32_t\<close>
  (\<^verbatim>\<open>updateAlignment\<close> rounds the offset with a \<^verbatim>\<open>uint32_t\<close> alignment and
  \<^verbatim>\<open>allocate\<close> adds the size cast to \<^verbatim>\<open>uint32_t\<close>); the sizes are \<^verbatim>\<open>size_t\<close>.
\<close>

record DynamicBuffer =
  mUsage :: VkFlags
  mHostVisible :: bool
  mInitialSize :: size_t
  mBuffer :: "BufferHelper option"
  mNextAllocationOffset :: uint32_t
  mLastFlushOrInvalidateOffset :: uint32_t
  mSize :: size_t
  mAlignment :: size_t
  mInFlightBuffers :: "BufferHelper list"
  mBufferFreeList :: "BufferHelper list"

text \<open>What one \<^verbatim>\<open>allocate\<close> call writes through its out-parameters.\<close>

record Allocation =
  ptrOut :: "nat option"
  bufferOut :: nat
  offsetOut :: VkDeviceSize
  newBufferAllocatedOut :: bool

definition DynamicBuffer_new :: DynamicBuffer where
  "DynamicBuffer_new =
     \<lparr>mUsage = 0, mHostVisible = False, mInitialSize = 0, mBuffer = None,
      mNextAllocationOffset = 0, mLastFlushOrInvalidateOffset = 0, mSize = 0,
      mAlignment = 0, mInFlightBuffers = [], mBufferFreeList = []\<rparr>"

definition allocateNewBuffer ::
  "ContextVk \<Rightarrow> DynamicBuffer \<Rightarrow> (Error + unit) \<times> DynamicBuffer \<times> ContextVk" where
  "allocateNewBuffer ctx s =
     (case BufferHelper_init ctx (mSize s) (mHostVisible s) of
        (Inl e, ctx') \<Rightarrow> (Inl e, s, ctx')
      | (Inr buffer, ctx') \<Rightarrow>
          (if mBuffer s \<noteq> None then (Inl AssertionFailure, s, ctx')
           else (Inr (), s\<lparr>mBuffer := Some buffer\<rparr>, ctx')))"

definition DynamicBuffer_flush ::
  "ContextVk \<Rightarrow> DynamicBuffer \<Rightarrow> (Error + unit) \<times> DynamicBuffer" where
  "DynamicBuffer_flush ctx s =
     (if mHostVisible s \<and> mLastFlushOrInvalidateOffset s < mNextAllocationOffset s
      then
        (case mBuffer s of
           None \<Rightarrow> (Inl AssertionFailure, s)
         | Some b \<Rightarrow>
             (case BufferHelper_flush ctx b of
                Inl e \<Rightarrow> (Inl e, s)
              | Inr _ \<Rightarrow>
                  (Inr (), s\<lparr>mLastFlushOrInvalidateOffset := mNextAllocationOffset s\<rparr>)))
      else (Inr (), s))"

text \<open>
  \<^verbatim>\<open>DynamicBuffer::allocate\<close>, in the order of its source. The four blocks of its body
  are definitions of their own: the retirement of the current buffer (the
  \<^verbatim>\<open>if (mBuffer)\<close> block), the growth of the target size (the
  \<^verbatim>\<open>if (sizeToAllocate > mSize)\<close> block, which releases the free list), the choice of
  the next buffer (the front of the free list unless it is in use, else a new buffer), and
  the tail of the function from \<^verbatim>\<open>ASSERT(mBuffer != nullptr)\<close> on. \<open>wantPtr\<close> says
  whether \<^verbatim>\<open>ptrOut\<close> is non-null. A failing call returns the members as they stand at
  the \<^verbatim>\<open>return\<close>.
\<close>

definition allocate_retire ::
  "ContextVk \<Rightarrow> DynamicBuffer \<Rightarrow> (Error + unit) \<times> DynamicBuffer" where
  "allocate_retire ctx s =
     (case mBuffer s of
        None \<Rightarrow> (Inr (), s)
      | Some b \<Rightarrow>
          (case DynamicBuffer_flush ctx s of
             (Inl e, s1) \<Rightarrow> (Inl e, s1)
           | (Inr _, s1) \<Rightarrow>
               (Inr (),
                s1\<lparr>mInFlightBuffers :=
                      mInFlightBuffers s1
                        @ [updateQueueSerial (currentQueueSerial ctx) (BufferHelper_unmap b)],
                    mBuffer := None\<rparr>)))"

definition allocate_grow ::
  "ContextVk \<Rightarrow> size_t \<Rightarrow> DynamicBuffer \<Rightarrow> DynamicBuffer \<times> ContextVk" where
  "allocate_grow ctx sizeToAllocate s =
     (if mSize s < sizeToAllocate
      then (s\<lparr>mSize := max (mInitialSize s) sizeToAllocate, mBufferFreeList := []\<rparr>,
            fold (\<lambda>toFree c. BufferHelper_release c toFree) (mBufferFreeList s) ctx)
      else (s, ctx))"

definition allocate_select ::
  "ContextVk \<Rightarrow> DynamicBuffer \<Rightarrow> (Error + unit) \<times> DynamicBuffer \<times> ContextVk" where
  "allocate_select ctx s =
     (case mBufferFreeList s of
        [] \<Rightarrow> allocateNewBuffer ctx s
      | front # rest \<Rightarrow>
          (if isResourceInUse ctx front then allocateNewBuffer ctx s
           else (Inr (), s\<lparr>mBuffer := Some front, mBufferFreeList := rest\<rparr>, ctx)))"

definition allocate_finish ::
  "ContextVk \<Rightarrow> size_t \<Rightarrow> bool \<Rightarrow> bool \<Rightarrow> DynamicBuffer
     \<Rightarrow> (Error + Allocation) \<times> DynamicBuffer \<times> ContextVk" where
  "allocate_finish ctx sizeToAllocate wantPtr newBufferAllocated s =
     (case mBuffer s of
        None \<Rightarrow> (Inl AssertionFailure, s, ctx)
      | Some b \<Rightarrow>
          (if wantPtr then
             (if \<not> mHostVisible s then (Inl AssertionFailure, s, ctx)
              else
                (case BufferHelper_map ctx b of
                   (Inl e, b') \<Rightarrow> (Inl e, s\<lparr>mBuffer := Some b'\<rparr>, ctx)
                 | (Inr _, b') \<Rightarrow>
                     (Inr \<lparr>ptrOut = Some (unat (mNextAllocationOffset s)),
                           bufferOut = bh_handle b',
                           offsetOut = ucast (mNextAllocationOffset s),
                           newBufferAllocatedOut = newBufferAllocated\<rparr>,
                      s\<lparr>mBuffer := Some b',
                        mNextAllocationOffset :=
                          mNextAllocationOffset s + ucast sizeToAllocate\<rparr>,
                      ctx)))
           else
             (Inr \<lparr>ptrOut = None, bufferOut = bh_handle b,
                   offsetOut = ucast (mNextAllocationOffset s),
                   newBufferAllocatedOut = newBufferAllocated\<rparr>,
              s\<lparr>mNextAllocationOffset := mNextAllocationOffset s + ucast sizeToAllocate\<rparr>,
              ctx)))"

definition allocate ::
  "ContextVk \<Rightarrow> size_t \<Rightarrow> bool \<Rightarrow> DynamicBuffer
     \<Rightarrow> (Error + Allocation) \<times> DynamicBuffer \<times> ContextVk" where
  "allocate ctx sizeInBytes wantPtr s =
     (let sizeToAllocate = roundUp sizeInBytes (mAlignment s);
          checkedNextWriteOffset = unat (mNextAllocationOffset s) + unat sizeToAllocate
      in if \<not> checkedNextWriteOffset < 2 ^ 64 \<or> unat (mSize s) \<le> checkedNextWriteOffset
         then
           (case allocate_retire ctx s of
              (Inl e, s1) \<Rightarrow> (Inl e, s1, ctx)
            | (Inr _, s1) \<Rightarrow>
                (case allocate_grow ctx sizeToAllocate s1 of
                   (s2, ctx2) \<Rightarrow>
                     (case allocate_select ctx2 s2 of
                        (Inl e, s3, ctx3) \<Rightarrow> (Inl e, s3, ctx3)
                      | (Inr _, s3, ctx3) \<Rightarrow>
                          (if (case mBuffer s3 of None \<Rightarrow> False
                               | Some b \<Rightarrow> bh_mSize b = mSize s3)
                           then allocate_finish ctx3 sizeToAllocate wantPtr True
                                  (s3\<lparr>mNextAllocationOffset := 0,
                                      mLastFlushOrInvalidateOffset := 0\<rparr>)
                           else (Inl AssertionFailure, s3, ctx3)))))
         else allocate_finish ctx sizeToAllocate wantPtr False s)"

text \<open>
  \<^verbatim>\<open>DynamicBuffer::releaseInFlightBuffers\<close>: the loop over the in-flight buffers, then
  the clearing of the list.
\<close>

fun releaseInFlightBuffers_loop ::
  "size_t \<Rightarrow> BufferHelper list \<Rightarrow> BufferHelper list \<Rightarrow> ContextVk
     \<Rightarrow> BufferHelper list \<times> ContextVk" where
  "releaseInFlightBuffers_loop sz [] freeList ctx = (freeList, ctx)"
| "releaseInFlightBuffers_loop sz (toRelease # rest) freeList ctx =
     (if bh_mSize toRelease < sz
      then releaseInFlightBuffers_loop sz rest freeList (BufferHelper_release ctx toRelease)
      else releaseInFlightBuffers_loop sz rest (freeList @ [toRelease]) ctx)"

definition releaseInFlightBuffers ::
  "ContextVk \<Rightarrow> DynamicBuffer \<Rightarrow> DynamicBuffer \<times> ContextVk" where
  "releaseInFlightBuffers ctx s =
     (case releaseInFlightBuffers_loop (mSize s) (mInFlightBuffers s) (mBufferFreeList s) ctx of
        (freeList, ctx') \<Rightarrow> (s\<lparr>mBufferFreeList := freeList, mInFlightBuffers := []\<rparr>, ctx'))"





text \<open>
  A caller of one \<^verbatim>\<open>DynamicBuffer\<close>: the calls it makes, in order, with the collaborator
  free to move its serials and to change its answers between two calls. The object
  identities and the garbage list are the collaborator's own and only the calls change
  them. \<open>run\<close> gives the result of every \<^verbatim>\<open>allocate\<close> call, in order, and the final
  state; an assertion failure ends the run, a \<^verbatim>\<open>Stop\<close> does not.
\<close>

datatype Call =
    Allocate size_t bool
  | Flush
  | ReleaseInFlightBuffers
  | Collaborator Serial Serial bool bool bool bool

fun run ::
  "Call list \<Rightarrow> DynamicBuffer \<Rightarrow> ContextVk
     \<Rightarrow> (Error + Allocation) list \<times> DynamicBuffer \<times> ContextVk" where
  "run [] s ctx = ([], s, ctx)"
| "run (Allocate sizeInBytes wantPtr # calls) s ctx =
     (case allocate ctx sizeInBytes wantPtr s of
        (r, s1, ctx1) \<Rightarrow>
          (if r = Inl AssertionFailure then ([r], s1, ctx1)
           else (case run calls s1 ctx1 of (rs, s2, ctx2) \<Rightarrow> (r # rs, s2, ctx2))))"
| "run (Flush # calls) s ctx =
     (case DynamicBuffer_flush ctx s of
        (r, s1) \<Rightarrow> (if r = Inl AssertionFailure then ([], s1, ctx) else run calls s1 ctx))"
| "run (ReleaseInFlightBuffers # calls) s ctx =
     (case releaseInFlightBuffers ctx s of (s1, ctx1) \<Rightarrow> run calls s1 ctx1)"
| "run (Collaborator current completed createOk flushOk mapOk coherent # calls) s ctx =
     run calls s
       (ctx\<lparr>currentQueueSerial := current, lastCompletedQueueSerial := completed,
            createBufferOk := createOk, flushMemoryOk := flushOk, mapMemoryOk := mapOk,
            hostCoherentMemory := coherent\<rparr>)"

section \<open>DynamicallyGrowingPool and DynamicQueryPool\<close>

text \<open>
  The members of \<^verbatim>\<open>DynamicallyGrowingPool<Pool>\<close>, for any type of pool. The pool
  indices are positions in the two vectors.
\<close>

record PoolStats =
  freedCount :: uint32_t
  serial :: Serial

record 'pool DynamicallyGrowingPool =
  mPoolSize :: uint32_t
  mCurrentPool :: nat
  mCurrentFreeEntry :: uint32_t
  mPools :: "'pool list"
  mPoolStats :: "PoolStats list"

definition DynamicallyGrowingPool_new :: "'pool DynamicallyGrowingPool" where
  "DynamicallyGrowingPool_new =
     \<lparr>mPoolSize = 0, mCurrentPool = 0, mCurrentFreeEntry = 0, mPools = [], mPoolStats = []\<rparr>"

definition initEntryPool ::
  "uint32_t \<Rightarrow> 'pool DynamicallyGrowingPool \<Rightarrow> Error + 'pool DynamicallyGrowingPool" where
  "initEntryPool poolSize s =
     (if mPools s = [] \<and> mPoolStats s = [] then Inr (s\<lparr>mPoolSize := poolSize\<rparr>)
      else Inl AssertionFailure)"

text \<open>
  \<^verbatim>\<open>findFreeEntryPool\<close>: the loop returns at the first index whose pool is entirely
  freed and whose serial is at most the last completed one.
\<close>

definition findFreeEntryPool ::
  "ContextVk \<Rightarrow> 'pool DynamicallyGrowingPool \<Rightarrow> bool \<times> 'pool DynamicallyGrowingPool" where
  "findFreeEntryPool ctx s =
     (let lastCompleted = lastCompletedQueueSerial ctx in
      case List.find
             (\<lambda>i. freedCount (mPoolStats s ! i) = mPoolSize s
                   \<and> serial (mPoolStats s ! i) \<le> lastCompleted)
             [0 ..< length (mPools s)] of
        Some i \<Rightarrow>
          (True,
           s\<lparr>mCurrentPool := i, mCurrentFreeEntry := 0,
             mPoolStats := (mPoolStats s)[i := (mPoolStats s ! i)\<lparr>freedCount := 0\<rparr>]\<rparr>)
      | None \<Rightarrow> (False, s))"

definition allocateNewEntryPool ::
  "'pool \<Rightarrow> 'pool DynamicallyGrowingPool \<Rightarrow> 'pool DynamicallyGrowingPool" where
  "allocateNewEntryPool pool s =
     s\<lparr>mPools := mPools s @ [pool],
       mPoolStats := mPoolStats s @ [\<lparr>freedCount = 0, serial = 0\<rparr>],
       mCurrentPool := length (mPools s @ [pool]) - 1,
       mCurrentFreeEntry := 0\<rparr>"

definition onEntryFreed ::
  "ContextVk \<Rightarrow> nat \<Rightarrow> 'pool DynamicallyGrowingPool \<Rightarrow> Error + 'pool DynamicallyGrowingPool" where
  "onEntryFreed ctx poolIndex s =
     (if poolIndex < length (mPoolStats s)
          \<and> freedCount (mPoolStats s ! poolIndex) < mPoolSize s
      then Inr (s\<lparr>mPoolStats :=
                    (mPoolStats s)
                      [poolIndex :=
                         \<lparr>freedCount = freedCount (mPoolStats s ! poolIndex) + 1,
                          serial = currentQueueSerial ctx\<rparr>]\<rparr>)
      else Inl AssertionFailure)"

text \<open>
  \<^verbatim>\<open>DynamicQueryPool\<close>: a pool is a native query pool, known by its identity. The query
  type is only passed on to the device and is left out.
\<close>

type_synonym DynamicQueryPool = "nat DynamicallyGrowingPool"

definition DynamicQueryPool_allocateNewPool ::
  "ContextVk \<Rightarrow> DynamicQueryPool \<Rightarrow> (Error + unit) \<times> DynamicQueryPool \<times> ContextVk" where
  "DynamicQueryPool_allocateNewPool ctx s =
     (case findFreeEntryPool ctx s of
        (True, s1) \<Rightarrow> (Inr (), s1, ctx)
      | (False, s1) \<Rightarrow>
          (if createQueryPoolOk ctx
           then (Inr (), allocateNewEntryPool (nextHandle ctx) s1,
                 ctx\<lparr>nextHandle := Suc (nextHandle ctx),
                     nativePoolsCreated := Suc (nativePoolsCreated ctx)\<rparr>)
           else (Inl Stop, s1, ctx)))"

definition DynamicQueryPool_init ::
  "ContextVk \<Rightarrow> uint32_t \<Rightarrow> DynamicQueryPool \<Rightarrow> (Error + unit) \<times> DynamicQueryPool \<times> ContextVk"
  where
  "DynamicQueryPool_init ctx poolSize s =
     (case initEntryPool poolSize s of
        Inl e \<Rightarrow> (Inl e, s, ctx)
      | Inr s1 \<Rightarrow> DynamicQueryPool_allocateNewPool ctx s1)"

definition allocateQuery ::
  "ContextVk \<Rightarrow> DynamicQueryPool
     \<Rightarrow> (Error + nat \<times> uint32_t) \<times> DynamicQueryPool \<times> ContextVk" where
  "allocateQuery ctx s =
     (if mPoolSize s \<le> mCurrentFreeEntry s then
        (case DynamicQueryPool_allocateNewPool ctx s of
           (Inl e, s1, ctx1) \<Rightarrow> (Inl e, s1, ctx1)
         | (Inr _, s1, ctx1) \<Rightarrow>
             (Inr (mCurrentPool s1, mCurrentFreeEntry s1),
              s1\<lparr>mCurrentFreeEntry := mCurrentFreeEntry s1 + 1\<rparr>, ctx1))
      else
        (Inr (mCurrentPool s, mCurrentFreeEntry s),
         s\<lparr>mCurrentFreeEntry := mCurrentFreeEntry s + 1\<rparr>, ctx))"

definition freeQuery ::
  "ContextVk \<Rightarrow> nat \<Rightarrow> uint32_t \<Rightarrow> DynamicQueryPool \<Rightarrow> Error + DynamicQueryPool" where
  "freeQuery ctx poolIndex queryIndex s = onEntryFreed ctx poolIndex s"

text \<open>
  A user of one query pool: allocations and frees in any order, with the collaborator free
  to move its serials and to change its answer between two calls. An assertion failure
  ends the run.
\<close>

datatype PoolCall =
    AllocateQuery
  | FreeQuery nat uint32_t
  | PoolCollaborator Serial Serial bool

fun runPool ::
  "PoolCall list \<Rightarrow> DynamicQueryPool \<Rightarrow> ContextVk
     \<Rightarrow> (Error + nat \<times> uint32_t) list \<times> DynamicQueryPool \<times> ContextVk" where
  "runPool [] s ctx = ([], s, ctx)"
| "runPool (AllocateQuery # calls) s ctx =
     (case allocateQuery ctx s of
        (r, s1, ctx1) \<Rightarrow>
          (if r = Inl AssertionFailure then ([r], s1, ctx1)
           else (case runPool calls s1 ctx1 of (rs, s2, ctx2) \<Rightarrow> (r # rs, s2, ctx2))))"
| "runPool (FreeQuery poolIndex queryIndex # calls) s ctx =
     (case freeQuery ctx poolIndex queryIndex s of
        Inl e \<Rightarrow> ([], s, ctx)
      | Inr s1 \<Rightarrow> runPool calls s1 ctx)"
| "runPool (PoolCollaborator current completed createOk # calls) s ctx =
     runPool calls s
       (ctx\<lparr>currentQueueSerial := current, lastCompletedQueueSerial := completed,
            createQueryPoolOk := createOk\<rparr>)"

text \<open>
  The invariant of the pool bookkeeping: one statistics entry for every pool, and no pool
  with more freed entries than the pool size.
\<close>

definition poolInvariant :: "'pool DynamicallyGrowingPool \<Rightarrow> bool" where
  "poolInvariant s \<longleftrightarrow>
     length (mPoolStats s) = length (mPools s)
     \<and> (\<forall>st\<in>set (mPoolStats s). freedCount st \<le> mPoolSize s)"

section \<open>DescriptorPoolHelper and DynamicDescriptorPool\<close>

text \<open>
  Modelled from the spec: the serial of a \<^verbatim>\<open>DescriptorPoolHelper\<close>
  (\<^verbatim>\<open>getSerial\<close>, \<^verbatim>\<open>updateSerial\<close>) and the reference count of the
  \<^verbatim>\<open>RefCounted\<close> wrapper (\<^verbatim>\<open>isReferenced\<close>) are declared in headers that are not
  part of these sources: a pool records the serial last stamped on it, and it is referenced
  while a binding holds it. A native descriptor pool is known by its identity; \<open>None\<close> is
  the invalid handle.
\<close>

record DescriptorPoolHelper =
  mFreeDescriptorSets :: uint32_t
  mDescriptorPool :: "nat option"
  mMostRecentSerial :: Serial

record RefCountedDescriptorPoolHelper =
  mRefCount :: nat
  mObject :: DescriptorPoolHelper

record DynamicDescriptorPool =
  mMaxSetsPerPool :: uint32_t
  mCurrentPoolIndex :: nat
  mDescriptorPools :: "RefCountedDescriptorPoolHelper list"
  mPoolSizes :: "(nat \<times> uint32_t) list"

definition kDefaultDescriptorPoolMaxSets :: uint32_t where
  "kDefaultDescriptorPoolMaxSets = 128"

definition kMaxPools :: nat where
  "kMaxPools = 99999"

definition isReferenced :: "RefCountedDescriptorPoolHelper \<Rightarrow> bool" where
  "isReferenced pool = (mRefCount pool \<noteq> 0)"

definition hasCapacity :: "DescriptorPoolHelper \<Rightarrow> uint32_t \<Rightarrow> bool" where
  "hasCapacity h descriptorSetCount = (descriptorSetCount \<le> mFreeDescriptorSets h)"

definition DescriptorPoolHelper_new :: DescriptorPoolHelper where
  "DescriptorPoolHelper_new =
     \<lparr>mFreeDescriptorSets = 0, mDescriptorPool = None, mMostRecentSerial = 0\<rparr>"

definition DescriptorPoolHelper_init ::
  "ContextVk \<Rightarrow> (nat \<times> uint32_t) list \<Rightarrow> uint32_t \<Rightarrow> DescriptorPoolHelper
     \<Rightarrow> (Error + unit) \<times> DescriptorPoolHelper \<times> ContextVk" where
  "DescriptorPoolHelper_init ctx poolSizes maxSets h =
     (let (h1, ctx1) =
            (if mDescriptorPool h \<noteq> None
             then (h\<lparr>mDescriptorPool := None\<rparr>,
                   ctx\<lparr>nativePoolsDestroyed := Suc (nativePoolsDestroyed ctx)\<rparr>)
             else (h, ctx));
          h2 = h1\<lparr>mFreeDescriptorSets := maxSets\<rparr>
      in if createDescriptorPoolOk ctx1
         then (Inr (), h2\<lparr>mDescriptorPool := Some (nextHandle ctx1)\<rparr>,
               ctx1\<lparr>nextHandle := Suc (nextHandle ctx1),
                    nativePoolsCreated := Suc (nativePoolsCreated ctx1)\<rparr>)
         else (Inl Stop, h2, ctx1))"

definition DynamicDescriptorPool_allocateNewPool ::
  "ContextVk \<Rightarrow> DynamicDescriptorPool
     \<Rightarrow> (Error + unit) \<times> DynamicDescriptorPool \<times> ContextVk" where
  "DynamicDescriptorPool_allocateNewPool ctx s =
     (let found =
            List.find
              (\<lambda>poolIndex.
                 \<not> isReferenced (mDescriptorPools s ! poolIndex)
                 \<and> \<not> isSerialInUse ctx
                       (mMostRecentSerial (mObject (mDescriptorPools s ! poolIndex))))
              [0 ..< length (mDescriptorPools s)];
          s1 = (case found of
                  Some poolIndex \<Rightarrow> s\<lparr>mCurrentPoolIndex := poolIndex\<rparr>
                | None \<Rightarrow>
                    s\<lparr>mDescriptorPools :=
                        mDescriptorPools s
                          @ [\<lparr>mRefCount = 0, mObject = DescriptorPoolHelper_new\<rparr>],
                      mCurrentPoolIndex := length (mDescriptorPools s)\<rparr>)
      in if found = None \<and> \<not> length (mDescriptorPools s1) < kMaxPools
         then (Inl Stop, s1, ctx)
         else
           (case DescriptorPoolHelper_init ctx (mPoolSizes s1) (mMaxSetsPerPool s1)
                   (mObject (mDescriptorPools s1 ! mCurrentPoolIndex s1)) of
              (r, h, ctx1) \<Rightarrow>
                (r,
                 s1\<lparr>mDescriptorPools :=
                      (mDescriptorPools s1)
                        [mCurrentPoolIndex s1 :=
                           (mDescriptorPools s1 ! mCurrentPoolIndex s1)\<lparr>mObject := h\<rparr>]\<rparr>,
                 ctx1)))"

definition DescriptorPoolHelper_allocateSets ::
  "ContextVk \<Rightarrow> uint32_t \<Rightarrow> DescriptorPoolHelper \<Rightarrow> (Error + unit) \<times> DescriptorPoolHelper"
  where
  "DescriptorPoolHelper_allocateSets ctx descriptorSetCount h =
     (if \<not> descriptorSetCount \<le> mFreeDescriptorSets h then (Inl AssertionFailure, h)
      else
        (let h1 = h\<lparr>mFreeDescriptorSets := mFreeDescriptorSets h - descriptorSetCount\<rparr>
         in if allocateDescriptorSetsOk ctx then (Inr (), h1) else (Inl Stop, h1)))"

definition DynamicDescriptorPool_new :: DynamicDescriptorPool where
  "DynamicDescriptorPool_new =
     \<lparr>mMaxSetsPerPool = kDefaultDescriptorPoolMaxSets, mCurrentPoolIndex = 0,
      mDescriptorPools = [], mPoolSizes = []\<rparr>"

definition DynamicDescriptorPool_init ::
  "ContextVk \<Rightarrow> (nat \<times> uint32_t) list \<Rightarrow> DynamicDescriptorPool
     \<Rightarrow> (Error + unit) \<times> DynamicDescriptorPool \<times> ContextVk" where
  "DynamicDescriptorPool_init ctx setSizes s =
     (if \<not> (mCurrentPoolIndex s = 0
             \<and> (mDescriptorPools s = []
                  \<or> (length (mDescriptorPools s) = 1
                       \<and> hasCapacity (mObject (mDescriptorPools s ! 0)) (mMaxSetsPerPool s))))
      then (Inl AssertionFailure, s, ctx)
      else
        (let s1 = s\<lparr>mPoolSizes :=
                       map (\<lambda>(ty, descriptorCount). (ty, descriptorCount * mMaxSetsPerPool s))
                         setSizes\<rparr>;
             s2 = s1\<lparr>mDescriptorPools :=
                        mDescriptorPools s1
                          @ [\<lparr>mRefCount = 0, mObject = DescriptorPoolHelper_new\<rparr>]\<rparr>
         in case DescriptorPoolHelper_init ctx (mPoolSizes s2) (mMaxSetsPerPool s2)
                   (mObject (mDescriptorPools s2 ! 0)) of
              (r, h, ctx1) \<Rightarrow>
                (r,
                 s2\<lparr>mDescriptorPools :=
                      (mDescriptorPools s2)[0 := (mDescriptorPools s2 ! 0)\<lparr>mObject := h\<rparr>]\<rparr>,
                 ctx1)))"

text \<open>
  Modelled from the spec: a \<^verbatim>\<open>RefCountedDescriptorPoolBinding\<close> (declared in a header
  that is not part of these sources) is a shared-ownership handle on one pool of the list,
  here the index of that pool or \<open>None\<close> when it is not valid. Setting it releases the
  reference it holds and takes one on the new pool; resetting it releases the reference.
\<close>

definition Binding_reset ::
  "nat option \<Rightarrow> RefCountedDescriptorPoolHelper list
     \<Rightarrow> nat option \<times> RefCountedDescriptorPoolHelper list" where
  "Binding_reset binding pools =
     (case binding of
        None \<Rightarrow> (None, pools)
      | Some b \<Rightarrow> (None, pools[b := (pools ! b)\<lparr>mRefCount := mRefCount (pools ! b) - 1\<rparr>]))"

definition Binding_set ::
  "nat \<Rightarrow> nat option \<Rightarrow> RefCountedDescriptorPoolHelper list
     \<Rightarrow> nat option \<times> RefCountedDescriptorPoolHelper list" where
  "Binding_set target binding pools =
     (let pools1 = snd (Binding_reset binding pools)
      in (Some target,
          pools1[target := (pools1 ! target)\<lparr>mRefCount := Suc (mRefCount (pools1 ! target))\<rparr>]))"

text \<open>
  \<^verbatim>\<open>allocateSetsAndGetInfo\<close>: the result holds \<^verbatim>\<open>newPoolAllocatedOut\<close> and the
  binding as the call leaves it.
\<close>

definition allocateSetsAndGetInfo ::
  "ContextVk \<Rightarrow> uint32_t \<Rightarrow> nat option \<Rightarrow> DynamicDescriptorPool
     \<Rightarrow> (Error + bool) \<times> nat option \<times> DynamicDescriptorPool \<times> ContextVk" where
  "allocateSetsAndGetInfo ctx descriptorSetCount bindingOut s =
     (let rebind =
            (case bindingOut of
               None \<Rightarrow> True
             | Some b \<Rightarrow> \<not> hasCapacity (mObject (mDescriptorPools s ! b)) descriptorSetCount);
          exhausted =
            \<not> hasCapacity (mObject (mDescriptorPools s ! mCurrentPoolIndex s)) descriptorSetCount;
          (r1, s1, ctx1) =
            (if rebind \<and> exhausted then DynamicDescriptorPool_allocateNewPool ctx s
             else (Inr (), s, ctx))
      in case r1 of
           Inl e \<Rightarrow> (Inl e, bindingOut, s1, ctx1)
         | Inr _ \<Rightarrow>
             (let pools2 =
                    (case bindingOut of
                       Some b \<Rightarrow>
                         (if rebind
                          then (mDescriptorPools s1)
                                 [b := (mDescriptorPools s1 ! b)
                                    \<lparr>mObject := (mObject (mDescriptorPools s1 ! b))
                                       \<lparr>mMostRecentSerial := currentQueueSerial ctx1\<rparr>\<rparr>]
                          else mDescriptorPools s1)
                     | None \<Rightarrow> mDescriptorPools s1);
                  (binding3, pools3) =
                    (if rebind then Binding_set (mCurrentPoolIndex s1) bindingOut pools2
                     else (bindingOut, pools2))
              in case binding3 of
                   None \<Rightarrow> (Inl AssertionFailure, binding3, s1\<lparr>mDescriptorPools := pools3\<rparr>, ctx1)
                 | Some b \<Rightarrow>
                     (case DescriptorPoolHelper_allocateSets ctx1 descriptorSetCount
                             (mObject (pools3 ! b)) of
                        (r, h) \<Rightarrow>
                          (case r of
                             Inl e \<Rightarrow>
                               (Inl e, binding3,
                                s1\<lparr>mDescriptorPools := pools3[b := (pools3 ! b)\<lparr>mObject := h\<rparr>]\<rparr>,
                                ctx1)
                           | Inr _ \<Rightarrow>
                               (Inr (rebind \<and> exhausted), binding3,
                                s1\<lparr>mDescriptorPools := pools3[b := (pools3 ! b)\<lparr>mObject := h\<rparr>]\<rparr>,
                                ctx1)))))"

section \<open>ImageHelper and the staged subresource updates\<close>

text \<open>
  Modelled from the spec: the image aspect bits of the Vulkan headers, the two bit counts
  of \<^verbatim>\<open>angle::Format\<close> that this code reads, and \<^verbatim>\<open>GetDepthStencilAspectFlags\<close> and
  \<^verbatim>\<open>GetFormatAspectFlags\<close>, none of which is part of these sources: a format has the
  depth and stencil aspects for which it has bits, and the colour aspect if it has neither.
  A \<^verbatim>\<open>vk::Format\<close> names the format asked for and the format of the image.
\<close>

definition VK_IMAGE_ASPECT_COLOR_BIT :: VkFlags where
  "VK_IMAGE_ASPECT_COLOR_BIT = 0x1"
definition VK_IMAGE_ASPECT_DEPTH_BIT :: VkFlags where
  "VK_IMAGE_ASPECT_DEPTH_BIT = 0x2"
definition VK_IMAGE_ASPECT_STENCIL_BIT :: VkFlags where
  "VK_IMAGE_ASPECT_STENCIL_BIT = 0x4"

record angle_Format =
  depthBits :: uint32_t
  stencilBits :: uint32_t

record Format =
  angleFormat :: angle_Format
  imageFormat :: angle_Format

definition GetDepthStencilAspectFlags :: "angle_Format \<Rightarrow> VkFlags" where
  "GetDepthStencilAspectFlags format =
     (if 0 < depthBits format then VK_IMAGE_ASPECT_DEPTH_BIT else 0)
       OR (if 0 < stencilBits format then VK_IMAGE_ASPECT_STENCIL_BIT else 0)"

definition GetFormatAspectFlags :: "angle_Format \<Rightarrow> VkFlags" where
  "GetFormatAspectFlags format =
     (let dsAspect = GetDepthStencilAspectFlags format
      in if dsAspect \<noteq> 0 then dsAspect else VK_IMAGE_ASPECT_COLOR_BIT)"

text \<open>
  \<^verbatim>\<open>ImageHelper::SubresourceUpdate\<close>, a tagged union: a clear (value, level index,
  layer index, layer count), a copy from a buffer (buffer handle, copy region) or a copy
  from an image (pointer to the image, copy region). The update owns the image it copies
  from, which is an \<^verbatim>\<open>ImageHelper\<close> with a staging buffer and staged updates of its
  own: \<open>StagedImage\<close> is that object, given by its image members, the handle of its device
  memory, its staging buffer and its queue. \<open>None\<close> is the null pointer, 0 the null handle.
\<close>

datatype SubresourceUpdate =
    ClearUpdate nat uint32_t uint32_t uint32_t
  | BufferUpdate nat VkBufferImageCopy
  | ImageUpdate "StagedImage option" VkImageCopy
and StagedImage =
    StagedImage ImageState nat DynamicBuffer "SubresourceUpdate list"

text \<open>
  \<^verbatim>\<open>DynamicBuffer::release(ContextVk *)\<close> with its two helpers, and
  \<^verbatim>\<open>SubresourceUpdate::release(ContextVk *)\<close>, which for an image update is
  \<^verbatim>\<open>releaseImage\<close> followed by \<^verbatim>\<open>releaseStagingBuffer\<close> on the owned image. An image
  update with a null pointer is excluded by the assertion at the head of the flush loop.
\<close>

definition releaseBufferListToContext :: "ContextVk \<Rightarrow> BufferHelper list \<Rightarrow> ContextVk" where
  "releaseBufferListToContext ctx buffers =
     fold (\<lambda>toFree c. BufferHelper_release c toFree) buffers ctx"

definition DynamicBuffer_reset :: "DynamicBuffer \<Rightarrow> DynamicBuffer" where
  "DynamicBuffer_reset s =
     s\<lparr>mSize := 0, mNextAllocationOffset := 0, mLastFlushOrInvalidateOffset := 0\<rparr>"

definition DynamicBuffer_release :: "ContextVk \<Rightarrow> DynamicBuffer \<Rightarrow> DynamicBuffer \<times> ContextVk" where
  "DynamicBuffer_release ctx s =
     (let s1 = DynamicBuffer_reset s;
          ctx1 = releaseBufferListToContext ctx (mInFlightBuffers s1);
          ctx2 = releaseBufferListToContext ctx1 (mBufferFreeList s1);
          s2 = s1\<lparr>mInFlightBuffers := [], mBufferFreeList := []\<rparr>
      in case mBuffer s2 of
           None \<Rightarrow> (s2, ctx2)
         | Some b \<Rightarrow>
             (s2\<lparr>mBuffer := None\<rparr>,
              BufferHelper_release ctx2
                (updateQueueSerial (currentQueueSerial ctx2) (BufferHelper_unmap b))))"

fun SubresourceUpdate_release :: "ContextVk \<Rightarrow> SubresourceUpdate \<Rightarrow> ContextVk"
and StagedImage_release :: "ContextVk \<Rightarrow> StagedImage \<Rightarrow> ContextVk" where
  "SubresourceUpdate_release ctx (ClearUpdate v lvl layer cnt) = ctx"
| "SubresourceUpdate_release ctx (BufferUpdate bufferHandle copyRegion) = ctx"
| "SubresourceUpdate_release ctx (ImageUpdate None copyRegion) = ctx"
| "SubresourceUpdate_release ctx (ImageUpdate (Some img) copyRegion) = StagedImage_release ctx img"
| "StagedImage_release ctx (StagedImage st deviceMemory stagingBuffer updates) =
     (let ctx1 = releaseObject ctx (mStoredQueueSerial st) (mImage st);
          ctx2 = releaseObject ctx1 (mStoredQueueSerial st) deviceMemory;
          ctx3 = fold (\<lambda>u c. SubresourceUpdate_release c u) updates ctx2
      in snd (DynamicBuffer_release ctx3 stagingBuffer))"


text \<open>
  The image that is flushed: the members of the image state machine, extended by the
  device memory, the format, the staging buffer and the queue of staged updates.
  Modelled from the spec: \<^verbatim>\<open>valid()\<close> is declared in a header that is not part of these
  sources; an image is valid iff its handle is not the null handle.
\<close>

record ImageHelper = ImageState +
  mDeviceMemory :: nat
  mFormat :: Format
  mStagingBuffer :: DynamicBuffer
  mSubresourceUpdates :: "SubresourceUpdate list"

definition valid :: "'a ImageState_scheme \<Rightarrow> bool" where
  "valid img = (mImage img \<noteq> 0)"

definition getCurrentLayout :: "'a ImageState_scheme \<Rightarrow> VkImageLayout" where
  "getCurrentLayout img = layout (kImageMemoryBarrierData (mCurrentLayout img))"

definition clearColor ::
  "nat \<Rightarrow> uint32_t \<Rightarrow> uint32_t \<Rightarrow> uint32_t \<Rightarrow> uint32_t \<Rightarrow> 'a ImageState_scheme
     \<Rightarrow> Command list \<Rightarrow> Error + Command list" where
  "clearColor color baseLevel levels baseLayer layers img cb =
     (if \<not> valid img then Inl AssertionFailure
      else if mCurrentLayout img \<noteq> TransferDst then Inl AssertionFailure
      else
        (let range =
               \<lparr>aspectMask = VK_IMAGE_ASPECT_COLOR_BIT, baseMipLevel = baseLevel,
                levelCount = levels, baseArrayLayer = baseLayer, layerCount = layers\<rparr>
         in Inr (cb @ [ClearColorImage (mImage img) (getCurrentLayout img) color range])))"

definition clearDepthStencil ::
  "VkFlags \<Rightarrow> VkFlags \<Rightarrow> nat \<Rightarrow> uint32_t \<Rightarrow> uint32_t \<Rightarrow> uint32_t \<Rightarrow> uint32_t
     \<Rightarrow> 'a ImageState_scheme \<Rightarrow> Command list \<Rightarrow> Error + Command list" where
  "clearDepthStencil imageAspectFlags clearAspectFlags depthStencil baseLevel levels
       baseLayer layers img cb =
     (if \<not> valid img then Inl AssertionFailure
      else if mCurrentLayout img \<noteq> TransferDst then Inl AssertionFailure
      else
        (let clearRange =
               \<lparr>aspectMask = clearAspectFlags, baseMipLevel = baseLevel,
                levelCount = levels, baseArrayLayer = baseLayer, layerCount = layers\<rparr>
         in Inr (cb @ [ClearDepthStencilImage (mImage img) (getCurrentLayout img)
                         depthStencil clearRange])))"

definition clear ::
  "nat \<Rightarrow> uint32_t \<Rightarrow> uint32_t \<Rightarrow> uint32_t \<Rightarrow> ImageHelper \<Rightarrow> Command list
     \<Rightarrow> Error + Command list" where
  "clear val mipLevel baseLayer layers img cb =
     (let fmt = angleFormat (mFormat img);
          isDepthStencil = (0 < depthBits fmt \<or> 0 < stencilBits fmt)
      in if isDepthStencil
         then (let aspect = GetDepthStencilAspectFlags (imageFormat (mFormat img))
               in clearDepthStencil aspect aspect val mipLevel 1 baseLayer layers img cb)
         else clearColor val mipLevel 1 baseLayer layers img cb)"

text \<open>
  Modelled from the spec: these helpers are declared in headers that are not part of these
  sources. \<^verbatim>\<open>gl::ImageIndex::kEntireLevel\<close> is \<open>-1\<close>, which the cast to \<^verbatim>\<open>uint32_t\<close>
  in the flush turns into \<open>2\<^sup>3\<^sup>2 - 1\<close>; \<^verbatim>\<open>angle::Bit<uint64_t>(x)\<close> is 1 shifted left by
  \<open>x\<close>; \<^verbatim>\<open>ANGLE_ROTL64(x, y)\<close> rotates the 64 bits of \<open>x\<close> left by \<open>y\<close>.
\<close>

definition kEntireLevel :: uint32_t where
  "kEntireLevel = 0xFFFFFFFF"

definition kMaxParallelSubresourceUpload :: uint32_t where
  "kMaxParallelSubresourceUpload = 64"

definition Bit :: "uint32_t \<Rightarrow> uint64_t" where
  "Bit x = push_bit (unat x) 1"

definition ANGLE_ROTL64 :: "uint64_t \<Rightarrow> uint32_t \<Rightarrow> uint64_t" where
  "ANGLE_ROTL64 x y = word_rotl (unat y) x"

text \<open>
  The head of the loop body of \<^verbatim>\<open>flushStagedUpdates\<close>: the assertion on the update,
  and the level, base layer and layer count it resolves to (\<open>layers\<close> is the layer count
  of the image, which stands for \<^verbatim>\<open>kEntireLevel\<close> in a clear).
\<close>

fun isUpdateValid :: "SubresourceUpdate \<Rightarrow> bool" where
  "isUpdateValid (ClearUpdate v levelIndex layerIndex cnt) = True"
| "isUpdateValid (BufferUpdate bufferHandle copyRegion) = (bufferHandle \<noteq> 0)"
| "isUpdateValid (ImageUpdate None copyRegion) = False"
| "isUpdateValid (ImageUpdate (Some (StagedImage st deviceMemory stagingBuffer updates))
       copyRegion) = valid st"

fun updateSubresource ::
  "uint32_t \<Rightarrow> SubresourceUpdate \<Rightarrow> Error + (uint32_t \<times> uint32_t \<times> uint32_t)" where
  "updateSubresource layers (ClearUpdate v levelIndex layerIndex cnt) =
     Inr (levelIndex, layerIndex, if cnt = kEntireLevel then layers else cnt)"
| "updateSubresource layers (BufferUpdate bufferHandle copyRegion) =
     (let dst = imageSubresource copyRegion
      in if sl_layerCount dst = kEntireLevel then Inl AssertionFailure
         else Inr (sl_mipLevel dst, sl_baseArrayLayer dst, sl_layerCount dst))"
| "updateSubresource layers (ImageUpdate img copyRegion) =
     (let dst = dstSubresource copyRegion
      in if sl_layerCount dst = kEntireLevel then Inl AssertionFailure
         else Inr (sl_mipLevel dst, sl_baseArrayLayer dst, sl_layerCount dst))"


text \<open>
  What a flush reads and writes: the image itself, the collaborator, the commands recorded
  in the command buffer, and the read dependencies registered with the command graph.
  Modelled from the spec: \<^verbatim>\<open>addReadDependency\<close> belongs to the command graph, which is
  not part of these sources; it registers an edge, kept here as the pair of the image read
  and the image reading it. The loop has two locals besides.
\<close>

record Recording =
  self :: ImageHelper
  contextVk :: ContextVk
  commands :: "Command list"
  readDependencies :: "(nat \<times> nat) list"

record FlushState = Recording +
  subresourceUploadsInProgress :: uint64_t
  updatesToKeep :: "SubresourceUpdate list"

text \<open>
  The rest of the loop body, in the order of the source: the test of the window, in the
  32-bit arithmetic of its operands; the bookkeeping of the uploads in progress, which
  records a barrier where the source calls \<^verbatim>\<open>changeLayout\<close>; the command of the update
  itself; and the loop body as a whole, which ends by releasing the update.
\<close>

definition isOutsideRange ::
  "uint32_t \<Rightarrow> uint32_t \<Rightarrow> uint32_t \<Rightarrow> uint32_t \<Rightarrow> uint32_t \<times> uint32_t \<times> uint32_t
     \<Rightarrow> bool" where
  "isOutsideRange levelStart levelEnd layerStart layerEnd u =
     (case u of
        (updateMipLevel, updateBaseLayer, updateLayerCount) \<Rightarrow>
          (let isUpdateLevelOutsideRange =
                 (updateMipLevel < levelStart \<or> levelEnd \<le> updateMipLevel);
               areUpdateLayersOutsideRange =
                 (updateBaseLayer + updateLayerCount \<le> layerStart
                   \<or> layerEnd \<le> updateBaseLayer)
           in isUpdateLevelOutsideRange \<or> areUpdateLayersOutsideRange))"

definition trackSubresourceUpload ::
  "VkFlags \<Rightarrow> uint32_t \<times> uint32_t \<times> uint32_t \<Rightarrow> FlushState \<Rightarrow> Error + FlushState" where
  "trackSubresourceUpload aspectFlags u st =
     (case u of
        (updateMipLevel, updateBaseLayer, updateLayerCount) \<Rightarrow>
          (if kMaxParallelSubresourceUpload \<le> updateLayerCount
           then
             (case changeLayout aspectFlags TransferDst (self st) (commands st) of
                Inl e \<Rightarrow> Inl e
              | Inr (img, cb) \<Rightarrow>
                  Inr (st\<lparr>self := img, commands := cb,
                           subresourceUploadsInProgress := - 1\<rparr>))
           else
             (let subresourceHashRange = Bit updateLayerCount - 1;
                  subresourceHashOffset =
                    (updateMipLevel * mLayerCount (self st) + updateBaseLayer)
                      mod kMaxParallelSubresourceUpload;
                  subresourceHash = ANGLE_ROTL64 subresourceHashRange subresourceHashOffset
              in if subresourceUploadsInProgress st AND subresourceHash \<noteq> 0
                 then
                   (case changeLayout aspectFlags TransferDst (self st) (commands st) of
                      Inl e \<Rightarrow> Inl e
                    | Inr (img, cb) \<Rightarrow>
                        Inr (st\<lparr>self := img, commands := cb,
                                 subresourceUploadsInProgress := 0 OR subresourceHash\<rparr>))
                 else
                   Inr (st\<lparr>subresourceUploadsInProgress :=
                              subresourceUploadsInProgress st OR subresourceHash\<rparr>))))"

fun applyUpdate ::
  "VkFlags \<Rightarrow> uint32_t \<times> uint32_t \<times> uint32_t \<Rightarrow> SubresourceUpdate \<Rightarrow> FlushState
     \<Rightarrow> Error + (SubresourceUpdate \<times> FlushState)" where
  "applyUpdate aspectFlags u (ClearUpdate v levelIndex layerIndex cnt) st =
     (case u of
        (updateMipLevel, updateBaseLayer, updateLayerCount) \<Rightarrow>
          (case clear v updateMipLevel updateBaseLayer updateLayerCount (self st)
                  (commands st) of
             Inl e \<Rightarrow> Inl e
           | Inr cb \<Rightarrow> Inr (ClearUpdate v levelIndex layerIndex cnt, st\<lparr>commands := cb\<rparr>)))"
| "applyUpdate aspectFlags u (BufferUpdate bufferHandle copyRegion) st =
     Inr (BufferUpdate bufferHandle copyRegion,
          st\<lparr>commands :=
               commands st
                 @ [CopyBufferToImage bufferHandle (mImage (self st))
                      (getCurrentLayout (self st)) copyRegion]\<rparr>)"
| "applyUpdate aspectFlags u (ImageUpdate None copyRegion) st = Inl AssertionFailure"
| "applyUpdate aspectFlags u
       (ImageUpdate (Some (StagedImage src deviceMemory stagingBuffer updates)) copyRegion) st =
     (case changeLayout aspectFlags TransferSrc src (commands st) of
        Inl e \<Rightarrow> Inl e
      | Inr (src1, cb) \<Rightarrow>
          Inr (ImageUpdate (Some (StagedImage src1 deviceMemory stagingBuffer updates))
                 copyRegion,
               st\<lparr>commands :=
                    cb @ [CopyImage (mImage src1) (getCurrentLayout src1)
                            (mImage (self st)) (getCurrentLayout (self st)) copyRegion],
                  readDependencies :=
                    readDependencies st @ [(mImage src1, mImage (self st))]\<rparr>))"

definition flushUpdate ::
  "VkFlags \<Rightarrow> uint32_t \<Rightarrow> uint32_t \<Rightarrow> uint32_t \<Rightarrow> uint32_t \<Rightarrow> SubresourceUpdate
     \<Rightarrow> FlushState \<Rightarrow> Error + FlushState" where
  "flushUpdate aspectFlags levelStart levelEnd layerStart layerEnd update st =
     (if \<not> isUpdateValid update then Inl AssertionFailure
      else
        (case updateSubresource (mLayerCount (self st)) update of
           Inl e \<Rightarrow> Inl e
         | Inr u \<Rightarrow>
             (if isOutsideRange levelStart levelEnd layerStart layerEnd u
              then Inr (st\<lparr>updatesToKeep := updatesToKeep st @ [update]\<rparr>)
              else
                (case trackSubresourceUpload aspectFlags u st of
                   Inl e \<Rightarrow> Inl e
                 | Inr st1 \<Rightarrow>
                     (case applyUpdate aspectFlags u update st1 of
                        Inl e \<Rightarrow> Inl e
                      | Inr (update1, st2) \<Rightarrow>
                          Inr (st2\<lparr>contextVk :=
                                     SubresourceUpdate_release (contextVk st2) update1\<rparr>))))))"

text \<open>
  \<^verbatim>\<open>ImageHelper::flushStagedUpdates\<close>. A failed assertion ends the program: the model
  returns it with the state on entry.
\<close>

fun flushStagedUpdates_loop ::
  "VkFlags \<Rightarrow> uint32_t \<Rightarrow> uint32_t \<Rightarrow> uint32_t \<Rightarrow> uint32_t \<Rightarrow> SubresourceUpdate list
     \<Rightarrow> FlushState \<Rightarrow> Error + FlushState" where
  "flushStagedUpdates_loop aspectFlags levelStart levelEnd layerStart layerEnd [] st = Inr st"
| "flushStagedUpdates_loop aspectFlags levelStart levelEnd layerStart layerEnd
       (update # rest) st =
     (case flushUpdate aspectFlags levelStart levelEnd layerStart layerEnd update st of
        Inl e \<Rightarrow> Inl e
      | Inr st1 \<Rightarrow>
          flushStagedUpdates_loop aspectFlags levelStart levelEnd layerStart layerEnd rest st1)"

definition flushStagedUpdates ::
  "uint32_t \<Rightarrow> uint32_t \<Rightarrow> uint32_t \<Rightarrow> uint32_t \<Rightarrow> Recording
     \<Rightarrow> (Error + unit) \<times> Recording" where
  "flushStagedUpdates levelStart levelEnd layerStart layerEnd w =
     (if mSubresourceUpdates (self w) = [] then (Inr (), w)
      else
        (case DynamicBuffer_flush (contextVk w) (mStagingBuffer (self w)) of
           (Inl e, stagingBuffer) \<Rightarrow>
             (Inl e, w\<lparr>self := (self w)\<lparr>mStagingBuffer := stagingBuffer\<rparr>\<rparr>)
         | (Inr _, stagingBuffer) \<Rightarrow>
             (let img0 = (self w)\<lparr>mStagingBuffer := stagingBuffer\<rparr>;
                  aspectFlags = GetFormatAspectFlags (imageFormat (mFormat img0))
              in case changeLayout aspectFlags TransferDst img0 (commands w) of
                   Inl e \<Rightarrow> (Inl e, w)
                 | Inr (img1, cb1) \<Rightarrow>
                     (case flushStagedUpdates_loop aspectFlags levelStart levelEnd
                             layerStart layerEnd (mSubresourceUpdates img1)
                             \<lparr>self = img1, contextVk = contextVk w, commands = cb1,
                              readDependencies = readDependencies w,
                              subresourceUploadsInProgress = 0, updatesToKeep = []\<rparr> of
                        Inl e \<Rightarrow> (Inl e, w)
                      | Inr st \<Rightarrow>
                          (let img2 = (self st)\<lparr>mSubresourceUpdates := updatesToKeep st\<rparr>
                           in if mSubresourceUpdates img2 = []
                              then
                                (case releaseInFlightBuffers (contextVk st)
                                        (mStagingBuffer img2) of
                                   (stagingBuffer2, ctx2) \<Rightarrow>
                                     (Inr (),
                                      \<lparr>self = img2\<lparr>mStagingBuffer := stagingBuffer2\<rparr>,
                                       contextVk = ctx2, commands = commands st,
                                       readDependencies = readDependencies st\<rparr>))
                              else
                                (Inr (),
                                 \<lparr>self = img2, contextVk = contextVk st,
                                  commands = commands st,
                                  readDependencies = readDependencies st\<rparr>))))))"

section \<open>Reading the flush\<close>

text \<open>
  The terms in which the properties of the flush are stated. The commands that write the
  image are the clears and the copies; the barriers are the other two.
\<close>

fun isUpload :: "Command \<Rightarrow> bool" where
  "isUpload (ExecutionBarrier stages) = False"
| "isUpload (ImageBarrier srcStages dstStages barrier) = False"
| "isUpload (ClearColorImage img imgLayout color subresources) = True"
| "isUpload (ClearDepthStencilImage img imgLayout depthStencil subresources) = True"
| "isUpload (CopyBufferToImage buffer img imgLayout region) = True"
| "isUpload (CopyImage src srcLayout img imgLayout region) = True"

text \<open>
  The subresources of an update, in the words of the specification: its mip level, its
  base layer and its number of layers, as natural numbers (a clear of the entire level
  covers the layers of the image). An update is outside a window iff its level is not in
  the level interval or its layers have no layer in common with the layer interval.
\<close>

fun subresourceOf :: "uint32_t \<Rightarrow> SubresourceUpdate \<Rightarrow> nat \<times> nat \<times> nat" where
  "subresourceOf layers (ClearUpdate v levelIndex layerIndex cnt) =
     (unat levelIndex, unat layerIndex, if cnt = kEntireLevel then unat layers else unat cnt)"
| "subresourceOf layers (BufferUpdate bufferHandle copyRegion) =
     (unat (sl_mipLevel (imageSubresource copyRegion)),
      unat (sl_baseArrayLayer (imageSubresource copyRegion)),
      unat (sl_layerCount (imageSubresource copyRegion)))"
| "subresourceOf layers (ImageUpdate img copyRegion) =
     (unat (sl_mipLevel (dstSubresource copyRegion)),
      unat (sl_baseArrayLayer (dstSubresource copyRegion)),
      unat (sl_layerCount (dstSubresource copyRegion)))"

definition outsideWindow ::
  "uint32_t \<Rightarrow> nat \<Rightarrow> nat \<Rightarrow> nat \<Rightarrow> nat \<Rightarrow> SubresourceUpdate \<Rightarrow> bool" where
  "outsideWindow layers levelStart levelEnd layerStart layerEnd update =
     (case subresourceOf layers update of
        (level, base, cnt) \<Rightarrow>
          level \<notin> {levelStart ..< levelEnd}
            \<or> {base ..< base + cnt} \<inter> {layerStart ..< layerEnd} = {})"

text \<open>
  The updates that pass the assertions at the head of the loop body, that cover at least
  one layer, and whose last layer is below \<open>2\<^sup>3\<^sup>2\<close>.
\<close>

definition wellFormedUpdate :: "uint32_t \<Rightarrow> SubresourceUpdate \<Rightarrow> bool" where
  "wellFormedUpdate layers update =
     (isUpdateValid update
       \<and> \<not> isl (updateSubresource layers update)
       \<and> (case subresourceOf layers update of
             (level, base, cnt) \<Rightarrow> 0 < cnt \<and> base + cnt < 2 ^ 32))"

text \<open>
  The subresources a command writes: a clear writes the levels and layers of its range, a
  copy the level and the layers of its destination, each on the image it names; a barrier
  writes nothing. A barrier of the transfer destination layout on an image is an image
  barrier on that image whose new layout is \<^verbatim>\<open>VK_IMAGE_LAYOUT_TRANSFER_DST_OPTIMAL\<close>.
\<close>

fun writesSubresource :: "nat \<Rightarrow> nat \<Rightarrow> nat \<Rightarrow> Command \<Rightarrow> bool" where
  "writesSubresource img level layer (ExecutionBarrier stages) = False"
| "writesSubresource img level layer (ImageBarrier srcStages dstStages barrier) = False"
| "writesSubresource img level layer (ClearColorImage i imgLayout color r) =
     (i = img
       \<and> unat (baseMipLevel r) \<le> level
       \<and> level < unat (baseMipLevel r) + unat (levelCount r)
       \<and> unat (baseArrayLayer r) \<le> layer
       \<and> layer < unat (baseArrayLayer r) + unat (layerCount r))"
| "writesSubresource img level layer (ClearDepthStencilImage i imgLayout depthStencil r) =
     (i = img
       \<and> unat (baseMipLevel r) \<le> level
       \<and> level < unat (baseMipLevel r) + unat (levelCount r)
       \<and> unat (baseArrayLayer r) \<le> layer
       \<and> layer < unat (baseArrayLayer r) + unat (layerCount r))"
| "writesSubresource img level layer (CopyBufferToImage buffer i imgLayout region) =
     (i = img
       \<and> level = unat (sl_mipLevel (imageSubresource region))
       \<and> unat (sl_baseArrayLayer (imageSubresource region)) \<le> layer
       \<and> layer < unat (sl_baseArrayLayer (imageSubresource region))
                   + unat (sl_layerCount (imageSubresource region)))"
| "writesSubresource img level layer (CopyImage src srcLayout i imgLayout region) =
     (i = img
       \<and> level = unat (sl_mipLevel (dstSubresource region))
       \<and> unat (sl_baseArrayLayer (dstSubresource region)) \<le> layer
       \<and> layer < unat (sl_baseArrayLayer (dstSubresource region))
                   + unat (sl_layerCount (dstSubresource region)))"

fun isTransferDstBarrier :: "nat \<Rightarrow> Command \<Rightarrow> bool" where
  "isTransferDstBarrier img (ImageBarrier srcStages dstStages barrier) =
     (imb_image barrier = img \<and> imb_newLayout barrier = VK_IMAGE_LAYOUT_TRANSFER_DST_OPTIMAL)"
| "isTransferDstBarrier img (ExecutionBarrier stages) = False"
| "isTransferDstBarrier img (ClearColorImage i imgLayout color r) = False"
| "isTransferDstBarrier img (ClearDepthStencilImage i imgLayout depthStencil r) = False"
| "isTransferDstBarrier img (CopyBufferToImage buffer i imgLayout region) = False"
| "isTransferDstBarrier img (CopyImage src srcLayout i imgLayout region) = False"

text \<open>
  The invariant of the flush loop. The commands recorded after the last such barrier are
  not fenced yet. A list of commands is separated if such a barrier lies between any two
  of its commands that write the same subresource, and it is covered by a mask if every
  subresource written by a command that is not fenced has its bit set in the mask.
\<close>

definition unfenced :: "nat \<Rightarrow> Command list \<Rightarrow> Command list" where
  "unfenced img cs = rev (takeWhile (\<lambda>c. \<not> isTransferDstBarrier img c) (rev cs))"

definition separated :: "nat \<Rightarrow> Command list \<Rightarrow> bool" where
  "separated img cs =
     (\<forall>i j level layer.
        i < j \<and> j < length cs
        \<and> writesSubresource img level layer (cs ! i)
        \<and> writesSubresource img level layer (cs ! j)
        \<longrightarrow> (\<exists>k. i < k \<and> k < j \<and> isTransferDstBarrier img (cs ! k)))"

definition covered :: "nat \<Rightarrow> nat \<Rightarrow> Command list \<Rightarrow> uint64_t \<Rightarrow> bool" where
  "covered img layers cs m =
     (\<forall>c \<in> set (unfenced img cs). \<forall>level layer.
        writesSubresource img level layer c \<longrightarrow> bit m ((level * layers + layer) mod 64))"

text \<open>
  An update touches the subresources of its level that lie in its layers.
\<close>

definition touches :: "uint32_t \<Rightarrow> SubresourceUpdate \<Rightarrow> nat \<Rightarrow> nat \<Rightarrow> bool" where
  "touches layers update level layer =
     (case subresourceOf layers update of
        (l, b, c) \<Rightarrow> level = l \<and> b \<le> layer \<and> layer < b + c)"

text \<open>
  The test of the source on an update: its resolved level and layers, then
  \<^verbatim>\<open>isUpdateLevelOutsideRange || areUpdateLayersOutsideRange\<close>.
\<close>

definition isUpdateOutsideRange ::
  "uint32_t \<Rightarrow> uint32_t \<Rightarrow> uint32_t \<Rightarrow> uint32_t \<Rightarrow> uint32_t \<Rightarrow> SubresourceUpdate
     \<Rightarrow> bool" where
  "isUpdateOutsideRange layers levelStart levelEnd layerStart layerEnd update =
     (case updateSubresource layers update of
        Inl e \<Rightarrow> False
      | Inr u \<Rightarrow> isOutsideRange levelStart levelEnd layerStart layerEnd u)"

text \<open>
  The command that applies an update to an image in the transfer destination layout: a
  depth/stencil or a colour clear of one level, a copy from the buffer, or a copy from the
  source image in the transfer source layout.
\<close>

fun uploadCommand :: "ImageHelper \<Rightarrow> SubresourceUpdate \<Rightarrow> Command" where
  "uploadCommand img (ClearUpdate v levelIndex layerIndex cnt) =
     (if 0 < depthBits (angleFormat (mFormat img)) \<or> 0 < stencilBits (angleFormat (mFormat img))
      then ClearDepthStencilImage (mImage img) VK_IMAGE_LAYOUT_TRANSFER_DST_OPTIMAL v
             \<lparr>aspectMask = GetDepthStencilAspectFlags (imageFormat (mFormat img)),
              baseMipLevel = levelIndex, levelCount = 1, baseArrayLayer = layerIndex,
              layerCount = (if cnt = kEntireLevel then mLayerCount img else cnt)\<rparr>
      else ClearColorImage (mImage img) VK_IMAGE_LAYOUT_TRANSFER_DST_OPTIMAL v
             \<lparr>aspectMask = VK_IMAGE_ASPECT_COLOR_BIT,
              baseMipLevel = levelIndex, levelCount = 1, baseArrayLayer = layerIndex,
              layerCount = (if cnt = kEntireLevel then mLayerCount img else cnt)\<rparr>)"
| "uploadCommand img (BufferUpdate bufferHandle copyRegion) =
     CopyBufferToImage bufferHandle (mImage img) VK_IMAGE_LAYOUT_TRANSFER_DST_OPTIMAL copyRegion"
| "uploadCommand img (ImageUpdate src copyRegion) =
     CopyImage (case src of None \<Rightarrow> 0 | Some (StagedImage st mem sb ups) \<Rightarrow> mImage st)
       VK_IMAGE_LAYOUT_TRANSFER_SRC_OPTIMAL
       (mImage img) VK_IMAGE_LAYOUT_TRANSFER_DST_OPTIMAL copyRegion"

section \<open>Observers and example states\<close>

text \<open>
  The identities of the buffers a \<^verbatim>\<open>DynamicBuffer\<close> holds: the current buffer, the
  in-flight buffers and the free buffers.
\<close>

definition bufferHandles :: "DynamicBuffer \<Rightarrow> nat list" where
  "bufferHandles s =
     (case mBuffer s of None \<Rightarrow> [] | Some b \<Rightarrow> [bh_handle b])
       @ map bh_handle (mInFlightBuffers s) @ map bh_handle (mBufferFreeList s)"

text \<open>
  A collaborator whose device calls all succeed, with current serial 1 and nothing
  completed yet, and the buffer that \<^verbatim>\<open>init\<close> leaves for alignment 4 and initial size
  1024 on a device whose non-coherent atom size is 4. The concrete runs below start here.
\<close>

definition exampleContext :: ContextVk where
  "exampleContext =
     \<lparr>currentQueueSerial = 1, lastCompletedQueueSerial = 0, createBufferOk = True,
      flushMemoryOk = True, mapMemoryOk = True, createQueryPoolOk = True,
      createDescriptorPoolOk = True, allocateDescriptorSetsOk = True,
      hostCoherentMemory = False, nextHandle = 1,
      nativePoolsCreated = 0, nativePoolsDestroyed = 0, garbage = []\<rparr>"

definition exampleBuffer :: DynamicBuffer where
  "exampleBuffer =
     \<lparr>mUsage = 0, mHostVisible = True, mInitialSize = 1024, mBuffer = None,
      mNextAllocationOffset = 0, mLastFlushOrInvalidateOffset = 0, mSize = 0,
      mAlignment = 4, mInFlightBuffers = [], mBufferFreeList = []\<rparr>"

definition exampleBuffer100 :: DynamicBuffer where
  "exampleBuffer100 =
     exampleBuffer
       \<lparr>mBuffer := Some \<lparr>bh_handle = 1, bh_mSize = 1024, bh_mStoredQueueSerial = 0,
                          bh_mapped = False, bh_hostVisible = True, bh_hostCoherent = False\<rparr>,
        mNextAllocationOffset := 100, mSize := 1024\<rparr>"

definition exampleContext100 :: ContextVk where
  "exampleContext100 = exampleContext\<lparr>nextHandle := 2\<rparr>"

text \<open>
  The same buffer after \<^verbatim>\<open>allocate(100)\<close>, \<^verbatim>\<open>allocate(2000)\<close> and
  \<^verbatim>\<open>allocate(2000)\<close>: the buffers of 1024 and of 2000 bytes are in flight and the
  current buffer is the third one.
\<close>

definition exampleBufferGrown :: DynamicBuffer where
  "exampleBufferGrown =
     exampleBuffer
       \<lparr>mBuffer := Some \<lparr>bh_handle = 3, bh_mSize = 2000, bh_mStoredQueueSerial = 0,
                          bh_mapped = False, bh_hostVisible = True, bh_hostCoherent = False\<rparr>,
        mNextAllocationOffset := 2000, mSize := 2000,
        mInFlightBuffers :=
          [\<lparr>bh_handle = 1, bh_mSize = 1024, bh_mStoredQueueSerial = 1, bh_mapped = False,
            bh_hostVisible = True, bh_hostCoherent = False\<rparr>,
           \<lparr>bh_handle = 2, bh_mSize = 2000, bh_mStoredQueueSerial = 1, bh_mapped = False,
            bh_hostVisible = True, bh_hostCoherent = False\<rparr>]\<rparr>"

definition exampleContextGrown :: ContextVk where
  "exampleContextGrown = exampleContext\<lparr>nextHandle := 4\<rparr>"

text \<open>
  A descriptor pool manager with the default 128 sets per pool and one pool, given by the
  free sets of that pool, the number of bindings that hold it and its native pool.
\<close>

definition exampleDescriptorPool :: "uint32_t \<Rightarrow> nat \<Rightarrow> nat \<Rightarrow> DynamicDescriptorPool" where
  "exampleDescriptorPool freeSets bindings native =
     \<lparr>mMaxSetsPerPool = kDefaultDescriptorPoolMaxSets, mCurrentPoolIndex = 0,
      mDescriptorPools =
        [\<lparr>mRefCount = bindings,
          mObject = \<lparr>mFreeDescriptorSets = freeSets, mDescriptorPool = Some native,
                     mMostRecentSerial = 0\<rparr>\<rparr>],
      mPoolSizes = []\<rparr>"

text \<open>
  An image of two levels and two layers in a colour format, with four staged updates: a
  clear of the entire level 0, a buffer copy to layer 0 of level 0, a buffer copy to both
  layers of level 1, and a copy from an image to layer 1 of level 0. Its staging buffer
  holds 100 bytes that are not flushed yet.
\<close>

definition exampleSource :: StagedImage where
  "exampleSource =
     StagedImage
       \<lparr>mImage = 20, mStoredQueueSerial = 1, mCurrentLayout = ColorAttachment,
        mCurrentQueueFamilyIndex = 0, mLayerCount = 1, mLevelCount = 1\<rparr>
       21 DynamicBuffer_new []"

definition exampleUpdates :: "SubresourceUpdate list" where
  "exampleUpdates =
     [ClearUpdate 9 0 0 kEntireLevel,
      BufferUpdate 1
        \<lparr>bic_region = 11,
         imageSubresource = \<lparr>sl_mipLevel = 0, sl_baseArrayLayer = 0, sl_layerCount = 1\<rparr>\<rparr>,
      BufferUpdate 1
        \<lparr>bic_region = 12,
         imageSubresource = \<lparr>sl_mipLevel = 1, sl_baseArrayLayer = 0, sl_layerCount = 2\<rparr>\<rparr>,
      ImageUpdate (Some exampleSource)
        \<lparr>ic_region = 13,
         dstSubresource = \<lparr>sl_mipLevel = 0, sl_baseArrayLayer = 1, sl_layerCount = 1\<rparr>\<rparr>]"

definition exampleImage :: ImageHelper where
  "exampleImage =
     \<lparr>mImage = 7, mStoredQueueSerial = 1, mCurrentLayout = Undefined,
      mCurrentQueueFamilyIndex = 0, mLayerCount = 2, mLevelCount = 2,
      mDeviceMemory = 8,
      mFormat = \<lparr>angleFormat = \<lparr>depthBits = 0, stencilBits = 0\<rparr>,
                 imageFormat = \<lparr>depthBits = 0, stencilBits = 0\<rparr>\<rparr>,
      mStagingBuffer = exampleBuffer100, mSubresourceUpdates = exampleUpdates\<rparr>"

definition exampleRecording :: Recording where
  "exampleRecording =
     \<lparr>self = exampleImage, contextVk = exampleContext100, commands = [],
      readDependencies = []\<rparr>"

text \<open>
  The same image with an empty queue of updates and the staging buffer that has two
  buffers in flight, as \<^verbatim>\<open>removeStagedUpdates\<close> leaves it when it removes the last
  staged update.
\<close>

definition exampleRecordingIdle :: Recording where
  "exampleRecordingIdle =
     \<lparr>self = exampleImage\<lparr>mStagingBuffer := exampleBufferGrown, mSubresourceUpdates := []\<rparr>,
      contextVk = exampleContextGrown, commands = [], readDependencies = []\<rparr>"

text \<open>
  The example image with its four staged updates and the staging buffer that has two
  buffers in flight.
\<close>

definition exampleRecordingBusy :: Recording where
  "exampleRecordingBusy =
     \<lparr>self = exampleImage\<lparr>mStagingBuffer := exampleBufferGrown\<rparr>,
      contextVk = exampleContextGrown, commands = [], readDependencies = []\<rparr>"

text \<open>
  An image of one level and four layers whose queue holds one copy from a buffer to level
  0, given by the base layer and the layer count of the copy.
\<close>

definition exampleRecordingOne :: "uint32_t \<Rightarrow> uint32_t \<Rightarrow> Recording" where
  "exampleRecordingOne baseLayer layers =
     \<lparr>self = exampleImage
        \<lparr>mLayerCount := 4, mLevelCount := 1,
         mSubresourceUpdates :=
           [BufferUpdate 1
              \<lparr>bic_region = 11,
               imageSubresource =
                 \<lparr>sl_mipLevel = 0, sl_baseArrayLayer = baseLayer, sl_layerCount = layers\<rparr>\<rparr>]\<rparr>,
      contextVk = exampleContext100, commands = [], readDependencies = []\<rparr>"

section \<open>Properties of the image state machine\<close>

lemma requiresBarrier_iff:
  "sameLayoutTransitionRequiresBarrier (kImageMemoryBarrierData X)
     \<longleftrightarrow> X \<in> {TransferDst, ComputeShaderWrite, AllGraphicsShadersWrite, ColorAttachment,
                DepthStencilAttachment}"
  by (cases X) simp_all

lemma requiresBarrier_stage_masks:
  "sameLayoutTransitionRequiresBarrier (kImageMemoryBarrierData X)
     \<Longrightarrow> srcStageMask (kImageMemoryBarrierData X) = dstStageMask (kImageMemoryBarrierData X)"
  by (cases X) simp_all

lemma changeLayout_same_layout:
  assumes "mCurrentLayout img = X"
  shows "changeLayout aspect X img commandBuffer =
      (if X = TransferDst then
         Inr (img, commandBuffer @
           [ImageBarrier VK_PIPELINE_STAGE_TRANSFER_BIT VK_PIPELINE_STAGE_TRANSFER_BIT
              \<lparr>imb_srcAccessMask = VK_ACCESS_TRANSFER_WRITE_BIT,
               imb_dstAccessMask = VK_ACCESS_TRANSFER_WRITE_BIT,
               imb_oldLayout = VK_IMAGE_LAYOUT_TRANSFER_DST_OPTIMAL,
               imb_newLayout = VK_IMAGE_LAYOUT_TRANSFER_DST_OPTIMAL,
               imb_srcQueueFamilyIndex = mCurrentQueueFamilyIndex img,
               imb_dstQueueFamilyIndex = mCurrentQueueFamilyIndex img,
               imb_image = mImage img,
               imb_subresourceRange =
                 \<lparr>aspectMask = aspect, baseMipLevel = 0, levelCount = mLevelCount img,
                  baseArrayLayer = 0, layerCount = mLayerCount img\<rparr>\<rparr>])
       else if X \<in> {ComputeShaderWrite, AllGraphicsShadersWrite, ColorAttachment,
                     DepthStencilAttachment} then
         Inr (img, commandBuffer @ [ExecutionBarrier (dstStageMask (kImageMemoryBarrierData X))])
       else Inr (img, commandBuffer))"
  using assms
  by (cases X)
    (simp_all add: changeLayout_def isLayoutChangeNecessary_def forceChangeLayoutAndQueue_def)

text \<open>
  Claim C1, as the code has it. A \<^verbatim>\<open>changeLayout\<close> call whose target \<open>X\<close> is the
  current layout (the queue family is the current one, as \<^verbatim>\<open>changeLayout\<close> passes it)
  \<^item> records an execution-only barrier on the state's own destination stage mask when \<open>X\<close>
    is ComputeShaderWrite, AllGraphicsShadersWrite, ColorAttachment or
    DepthStencilAttachment;
  \<^item> records a full image memory barrier, with the transfer-write access flags on both
    sides, when \<open>X\<close> is TransferDst, which the same-layout branch of
    \<^verbatim>\<open>forceChangeLayoutAndQueue\<close> excludes;
  \<^item> records nothing for every other layout;
  and leaves the layout and the queue family as they are. The layouts whose metadata asks
  for a same-layout barrier are exactly these five, and for each of them the source and
  destination stage masks of the table are equal.
\<close>

theorem C1_same_layout_transition:
  "mCurrentLayout img = X \<Longrightarrow>
    changeLayout aspect X img commandBuffer =
      (if X = TransferDst then
         Inr (img, commandBuffer @
           [ImageBarrier VK_PIPELINE_STAGE_TRANSFER_BIT VK_PIPELINE_STAGE_TRANSFER_BIT
              \<lparr>imb_srcAccessMask = VK_ACCESS_TRANSFER_WRITE_BIT,
               imb_dstAccessMask = VK_ACCESS_TRANSFER_WRITE_BIT,
               imb_oldLayout = VK_IMAGE_LAYOUT_TRANSFER_DST_OPTIMAL,
               imb_newLayout = VK_IMAGE_LAYOUT_TRANSFER_DST_OPTIMAL,
               imb_srcQueueFamilyIndex = mCurrentQueueFamilyIndex img,
               imb_dstQueueFamilyIndex = mCurrentQueueFamilyIndex img,
               imb_image = mImage img,
               imb_subresourceRange =
                 \<lparr>aspectMask = aspect, baseMipLevel = 0, levelCount = mLevelCount img,
                  baseArrayLayer = 0, layerCount = mLayerCount img\<rparr>\<rparr>])
       else if X \<in> {ComputeShaderWrite, AllGraphicsShadersWrite, ColorAttachment,
                     DepthStencilAttachment} then
         Inr (img, commandBuffer @ [ExecutionBarrier (dstStageMask (kImageMemoryBarrierData X))])
       else Inr (img, commandBuffer))
    \<and> (sameLayoutTransitionRequiresBarrier (kImageMemoryBarrierData X)
          \<longleftrightarrow> X \<in> {TransferDst, ComputeShaderWrite, AllGraphicsShadersWrite,
                     ColorAttachment, DepthStencilAttachment})
    \<and> (sameLayoutTransitionRequiresBarrier (kImageMemoryBarrierData X)
          \<longrightarrow> srcStageMask (kImageMemoryBarrierData X)
                = dstStageMask (kImageMemoryBarrierData X))"
  using changeLayout_same_layout [of img X aspect commandBuffer]
    requiresBarrier_iff [of X] requiresBarrier_stage_masks [of X]
  by blast

theorem C1_same_layout_transition_witness:
  "changeLayout 1 ColorAttachment
     \<lparr>mImage = 7, mStoredQueueSerial = 0, mCurrentLayout = ColorAttachment, mCurrentQueueFamilyIndex = 0,
      mLayerCount = 1, mLevelCount = 1\<rparr> []
   = Inr (\<lparr>mImage = 7, mStoredQueueSerial = 0, mCurrentLayout = ColorAttachment, mCurrentQueueFamilyIndex = 0,
           mLayerCount = 1, mLevelCount = 1\<rparr>,
          [ExecutionBarrier VK_PIPELINE_STAGE_COLOR_ATTACHMENT_OUTPUT_BIT])
   \<and> changeLayout 1 TransferSrc
     \<lparr>mImage = 7, mStoredQueueSerial = 0, mCurrentLayout = TransferSrc, mCurrentQueueFamilyIndex = 0,
      mLayerCount = 1, mLevelCount = 1\<rparr> []
   = Inr (\<lparr>mImage = 7, mStoredQueueSerial = 0, mCurrentLayout = TransferSrc, mCurrentQueueFamilyIndex = 0,
           mLayerCount = 1, mLevelCount = 1\<rparr>, [])"
  using
    C1_same_layout_transition [of
      "\<lparr>mImage = 7, mStoredQueueSerial = 0, mCurrentLayout = ColorAttachment, mCurrentQueueFamilyIndex = 0,
        mLayerCount = 1, mLevelCount = 1\<rparr>" ColorAttachment 1 "[]"]
    C1_same_layout_transition [of
      "\<lparr>mImage = 7, mStoredQueueSerial = 0, mCurrentLayout = TransferSrc, mCurrentQueueFamilyIndex = 0,
        mLayerCount = 1, mLevelCount = 1\<rparr>" TransferSrc 1 "[]"]
  by simp

text \<open>
  Claim C1 as stated fails at TransferDst: the call records an image memory barrier that
  carries access flags, not an execution-only barrier.
\<close>

theorem C1_counterexample:
  "sameLayoutTransitionRequiresBarrier (kImageMemoryBarrierData TransferDst)
   \<and> changeLayout 1 TransferDst
       \<lparr>mImage = 7, mStoredQueueSerial = 0, mCurrentLayout = TransferDst, mCurrentQueueFamilyIndex = 0,
        mLayerCount = 1, mLevelCount = 1\<rparr> []
     = Inr (\<lparr>mImage = 7, mStoredQueueSerial = 0, mCurrentLayout = TransferDst, mCurrentQueueFamilyIndex = 0,
             mLayerCount = 1, mLevelCount = 1\<rparr>,
            [ImageBarrier 0x1000 0x1000
               \<lparr>imb_srcAccessMask = 0x1000, imb_dstAccessMask = 0x1000,
                imb_oldLayout = VK_IMAGE_LAYOUT_TRANSFER_DST_OPTIMAL,
                imb_newLayout = VK_IMAGE_LAYOUT_TRANSFER_DST_OPTIMAL,
                imb_srcQueueFamilyIndex = 0, imb_dstQueueFamilyIndex = 0, imb_image = 7,
                imb_subresourceRange =
                  \<lparr>aspectMask = 1, baseMipLevel = 0, levelCount = 1,
                   baseArrayLayer = 0, layerCount = 1\<rparr>\<rparr>])
   \<and> changeLayout 1 TransferDst
       \<lparr>mImage = 7, mStoredQueueSerial = 0, mCurrentLayout = TransferDst, mCurrentQueueFamilyIndex = 0,
        mLayerCount = 1, mLevelCount = 1\<rparr> []
     \<noteq> Inr (\<lparr>mImage = 7, mStoredQueueSerial = 0, mCurrentLayout = TransferDst, mCurrentQueueFamilyIndex = 0,
             mLayerCount = 1, mLevelCount = 1\<rparr>,
            [ExecutionBarrier (dstStageMask (kImageMemoryBarrierData TransferDst))])"
  by (simp add: changeLayout_def isLayoutChangeNecessary_def forceChangeLayoutAndQueue_def
      vk_bits)

section \<open>Properties of DynamicBuffer\<close>

lemma unat_roundUp:
  fixes v a :: "'a::len word"
  shows "unat (roundUp v a) = unat (v + a - 1) - unat (v + a - 1) mod unat a"
proof -
  have "(v + a - 1) mod a \<le> v + a - 1"
    by (simp add: word_le_nat_alt unat_mod)
  then have "unat ((v + a - 1) - (v + a - 1) mod a) = unat (v + a - 1) - unat ((v + a - 1) mod a)"
    by (rule unat_sub)
  then show ?thesis
    by (simp add: roundUp_def Let_def unat_mod)
qed

lemma roundUp_multiple:
  fixes v a :: "'a::len word"
  shows "unat (roundUp v a) mod unat a = 0"
  by (simp add: unat_roundUp minus_mod_eq_mult_div)

lemma unat_plus_minus_one:
  fixes v a :: "'a::len word"
  assumes "a \<noteq> 0" and "unat v + unat a \<le> 2 ^ LENGTH('a)"
  shows "unat (v + a - 1) = unat v + unat a - 1"
proof -
  have a: "0 < unat a" using assms(1) by (simp add: unat_gt_0)
  have m: "unat (a - 1) = unat a - 1"
    using assms(1) by (simp add: unat_minus_one)
  have "unat v + unat (a - 1) < 2 ^ LENGTH('a)"
    using a assms(2) m by linarith
  then have "unat (v + (a - 1)) = unat v + unat (a - 1)"
    by (simp add: unat_add_lem)
  moreover have "v + a - 1 = v + (a - 1)" by simp
  ultimately have "unat (v + a - 1) = unat v + unat (a - 1)" by metis
  then show ?thesis using a m by linarith
qed

lemma roundUp_ge:
  fixes v a :: "'a::len word"
  assumes "a \<noteq> 0" and "unat v + unat a \<le> 2 ^ LENGTH('a)"
  shows "unat v \<le> unat (roundUp v a)"
proof -
  have a: "0 < unat a" using assms(1) by (simp add: unat_gt_0)
  have "(unat v + unat a - 1) mod unat a < unat a"
    using a by simp
  then show ?thesis
    unfolding unat_roundUp unat_plus_minus_one [OF assms] by linarith
qed

lemma allocate_finish_Inr:
  assumes "allocate_finish ctx z p nb s = (Inr a, s1, ctx1)"
  shows "newBufferAllocatedOut a = nb"
    and "offsetOut a = ucast (mNextAllocationOffset s)"
    and "mNextAllocationOffset s1 = mNextAllocationOffset s + ucast z"
    and "mSize s1 = mSize s" and "mAlignment s1 = mAlignment s" and "ctx1 = ctx"
    and "\<exists>b. mBuffer s1 = Some b \<and> bufferOut a = bh_handle b"
  using assms
  by (auto simp: allocate_finish_def BufferHelper_map_def split: option.splits if_splits prod.splits sum.splits)

lemma DynamicBuffer_flush_cases:
  "DynamicBuffer_flush ctx s = (r, s1) \<Longrightarrow>
     s1 = s \<or> (r = Inr () \<and> s1 = s\<lparr>mLastFlushOrInvalidateOffset := mNextAllocationOffset s\<rparr>)"
  by (simp add: DynamicBuffer_flush_def split: option.splits if_splits sum.splits)

lemma allocate_retire_Inr:
  assumes "allocate_retire ctx s = (Inr u, s1)"
  shows "mSize s1 = mSize s" and "mAlignment s1 = mAlignment s" and "mBuffer s1 = None"
    and "mInitialSize s1 = mInitialSize s" and "mBufferFreeList s1 = mBufferFreeList s"
    and "mHostVisible s1 = mHostVisible s"
proof -
  obtain r sf where f: "DynamicBuffer_flush ctx s = (r, sf)" by (cases "DynamicBuffer_flush ctx s")
  have sf: "sf = s \<or> sf = s\<lparr>mLastFlushOrInvalidateOffset := mNextAllocationOffset s\<rparr>"
    using DynamicBuffer_flush_cases [OF f] by blast
  have "s1 = s \<and> mBuffer s = None \<or>
      (\<exists>b. s1 = sf\<lparr>mInFlightBuffers := mInFlightBuffers sf @ [b], mBuffer := None\<rparr>)"
    using assms f by (cases "mBuffer s"; cases r) (auto simp: allocate_retire_def)
  with sf show "mSize s1 = mSize s" and "mAlignment s1 = mAlignment s" and "mBuffer s1 = None"
    and "mInitialSize s1 = mInitialSize s" and "mBufferFreeList s1 = mBufferFreeList s"
    and "mHostVisible s1 = mHostVisible s"
    by auto
qed

lemma allocate_grow_fields:
  assumes "allocate_grow ctx z s = (s2, ctx2)"
  shows "z \<le> mSize s2" and "mAlignment s2 = mAlignment s" and "mBuffer s2 = mBuffer s"
    and "mHostVisible s2 = mHostVisible s"
  using assms
  by (auto simp: allocate_grow_def split: if_splits)

lemma allocate_select_Inr:
  assumes "allocate_select ctx s = (Inr u, s3, ctx3)"
  shows "mSize s3 = mSize s" and "mAlignment s3 = mAlignment s"
  using assms
  by (auto simp: allocate_select_def allocateNewBuffer_def BufferHelper_init_def split: list.splits if_splits prod.splits sum.splits)

lemma allocate_same_generation:
  assumes "allocate ctx sz p s = (Inr a, s1, ctx1)" and "\<not> newBufferAllocatedOut a"
  shows "unat (mNextAllocationOffset s) + unat (roundUp sz (mAlignment s)) < unat (mSize s)"
    and "offsetOut a = ucast (mNextAllocationOffset s)"
    and "mNextAllocationOffset s1 = mNextAllocationOffset s + ucast (roundUp sz (mAlignment s))"
    and "mSize s1 = mSize s" and "mAlignment s1 = mAlignment s"
proof -
  let ?z = "roundUp sz (mAlignment s)"
  have fin: "allocate_finish ctx ?z p False s = (Inr a, s1, ctx1)
      \<and> unat (mNextAllocationOffset s) + unat ?z < unat (mSize s)"
  proof (cases "\<not> unat (mNextAllocationOffset s) + unat ?z < 2 ^ 64
      \<or> unat (mSize s) \<le> unat (mNextAllocationOffset s) + unat ?z")
    case True
    then have "newBufferAllocatedOut a"
      using assms(1)
      by (auto simp: allocate_def Let_def split: prod.splits sum.splits if_splits
          dest: allocate_finish_Inr(1))
    with assms(2) show ?thesis by simp
  next
    case False
    then show ?thesis
      using assms(1) by (auto simp: allocate_def Let_def)
  qed
  then show "unat (mNextAllocationOffset s) + unat ?z < unat (mSize s)" by simp
  from fin show "offsetOut a = ucast (mNextAllocationOffset s)"
    and "mNextAllocationOffset s1 = mNextAllocationOffset s + ucast ?z"
    and "mSize s1 = mSize s" and "mAlignment s1 = mAlignment s"
    by (auto dest: allocate_finish_Inr)
qed

lemma allocate_new_generation:
  assumes "allocate ctx sz p s = (Inr a, s1, ctx1)" and "newBufferAllocatedOut a"
  shows "offsetOut a = 0"
    and "mNextAllocationOffset s1 = ucast (roundUp sz (mAlignment s))"
    and "roundUp sz (mAlignment s) \<le> mSize s1" and "mAlignment s1 = mAlignment s"
proof -
  let ?z = "roundUp sz (mAlignment s)"
  have br: "\<not> unat (mNextAllocationOffset s) + unat ?z < 2 ^ 64
      \<or> unat (mSize s) \<le> unat (mNextAllocationOffset s) + unat ?z"
  proof (rule ccontr)
    assume "\<not> ?thesis"
    then have "allocate_finish ctx ?z p False s = (Inr a, s1, ctx1)"
      using assms(1) by (auto simp: allocate_def Let_def)
    then show False using assms(2) by (auto dest: allocate_finish_Inr(1))
  qed
  then obtain u1 sa sb cb u3 sc cc where
    r: "allocate_retire ctx s = (Inr u1, sa)" and
    g: "allocate_grow ctx ?z sa = (sb, cb)" and
    sel: "allocate_select cb sb = (Inr u3, sc, cc)" and
    fin: "allocate_finish cc ?z p True (sc\<lparr>mNextAllocationOffset := 0,
            mLastFlushOrInvalidateOffset := 0\<rparr>) = (Inr a, s1, ctx1)"
    using assms(1)
    by (auto simp: allocate_def Let_def split: prod.splits sum.splits if_splits)
  from allocate_finish_Inr [OF fin] show "offsetOut a = 0"
    and "mNextAllocationOffset s1 = ucast ?z"
    by simp_all
  have "mSize s1 = mSize sb"
    using allocate_finish_Inr(4) [OF fin] allocate_select_Inr(1) [OF sel] by simp
  then show "?z \<le> mSize s1" using allocate_grow_fields(1) [OF g] by simp
  show "mAlignment s1 = mAlignment s"
    using allocate_finish_Inr(5) [OF fin] allocate_select_Inr(2) [OF sel]
      allocate_grow_fields(2) [OF g] allocate_retire_Inr(2) [OF r] by simp
qed


lemma unat_ucast_32_64: "unat (ucast (x :: 32 word) :: 64 word) = unat x"
proof -
  have "unat x < 2 ^ 32" using unsigned_less [of x] by simp
  then have "unat x < 2 ^ 64" by simp
  then show ?thesis by (simp add: unsigned_ucast_eq take_bit_nat_eq_self)
qed

lemma unat_ucast_64_32: "unat x < 2 ^ 32 \<Longrightarrow> unat (ucast (x :: 64 word) :: 32 word) = unat x"
  by (simp add: unsigned_ucast_eq take_bit_nat_eq_self)

lemma unat_offset_advance:
  fixes off :: "32 word" and z :: "64 word"
  assumes "unat off + unat z < 2 ^ 32"
  shows "unat (off + ucast z) = unat off + unat z"
proof -
  have "unat z < 2 ^ 32" using assms by linarith
  then have "unat (ucast z :: 32 word) = unat z" by (rule unat_ucast_64_32)
  moreover have "unat off + unat (ucast z :: 32 word) < 2 ^ LENGTH(32)"
    using assms calculation by simp
  ultimately show ?thesis using unat_add_lem [of off "ucast z"] by simp
qed



lemma sum_list_take_mono:
  fixes zs :: "nat list"
  shows "i \<le> j \<Longrightarrow> sum_list (take i zs) \<le> sum_list (take j zs)"
proof -
  assume "i \<le> j"
  then have "take j zs = take i zs @ take (j - i) (drop i zs)"
    by (metis le_add_diff_inverse take_add)
  then show ?thesis by simp
qed

lemma sum_list_take_Suc:
  fixes zs :: "nat list"
  shows "i < length zs \<Longrightarrow> sum_list (take (Suc i) zs) = sum_list (take i zs) + zs ! i"
  by (simp add: take_Suc_conv_app_nth)

lemma sum_list_take_mod:
  fixes zs :: "nat list"
  assumes "\<forall>z\<in>set zs. z mod al = 0"
  shows "sum_list (take i zs) mod al = 0"
proof -
  have "\<forall>z\<in>set (take i zs). al dvd z"
    using assms by (meson in_set_takeD mod_eq_0_iff_dvd)
  moreover have "\<And>xs :: nat list. \<forall>z\<in>set xs. al dvd z \<Longrightarrow> al dvd sum_list xs"
  proof -
    fix xs :: "nat list"
    show "\<forall>z\<in>set xs. al dvd z \<Longrightarrow> al dvd sum_list xs"
      by (induction xs) auto
  qed
  ultimately have "al dvd sum_list (take i zs)" by blast
  then show ?thesis by simp
qed

lemma run_same_generation:
  assumes "run (map (\<lambda>(sz, p). Allocate sz p) reqs) s ctx = (map Inr as, s', ctx')"
    and "\<forall>a\<in>set as. \<not> newBufferAllocatedOut a"
    and "unat (mSize s') < 2 ^ 32"
  shows "length as = length reqs \<and> mSize s' = mSize s \<and> mAlignment s' = mAlignment s
    \<and> (\<forall>i<length as. unat (offsetOut (as ! i)) =
          unat (mNextAllocationOffset s)
            + sum_list (take i (map (\<lambda>r. unat (roundUp (fst r) (mAlignment s))) reqs)))"
  using assms
proof (induction reqs arbitrary: s ctx as)
  case Nil
  then show ?case by auto
next
  case (Cons req reqs)
  obtain sz p where req: "req = (sz, p)" by (cases req)
  obtain r s1 ctx1 where al: "allocate ctx sz p s = (r, s1, ctx1)"
    by (cases "allocate ctx sz p s")
  obtain rs s2 ctx2 where rn: "run (map (\<lambda>(sz, p). Allocate sz p) reqs) s1 ctx1 = (rs, s2, ctx2)"
    by (cases "run (map (\<lambda>(sz, p). Allocate sz p) reqs) s1 ctx1")
  have notAssert: "r \<noteq> Inl AssertionFailure"
  proof
    assume "r = Inl AssertionFailure"
    then have "map Inr as = [Inl AssertionFailure]"
      using Cons.prems(1) al req by simp
    then show False by (cases as) auto
  qed
  then have eq: "map Inr as = r # rs" and s2: "s2 = s'" and c2: "ctx2 = ctx'"
    using Cons.prems(1) al rn req by simp_all
  then obtain a as' where as: "as = a # as'" and r: "r = Inr a" and rs: "rs = map Inr as'"
    by (cases as) auto
  have na: "\<not> newBufferAllocatedOut a" using Cons.prems(2) as by simp
  note B = allocate_same_generation [OF al [unfolded r] na]
  have ih: "length as' = length reqs \<and> mSize s' = mSize s1 \<and> mAlignment s' = mAlignment s1
    \<and> (\<forall>i<length as'. unat (offsetOut (as' ! i)) =
          unat (mNextAllocationOffset s1)
            + sum_list (take i (map (\<lambda>r. unat (roundUp (fst r) (mAlignment s1))) reqs)))"
    using Cons.IH [of s1 ctx1 as'] rn rs s2 c2 Cons.prems(2,3) as by simp
  have sz: "mSize s' = mSize s" using ih B(4) by simp
  have "unat (mNextAllocationOffset s) + unat (roundUp sz (mAlignment s)) < 2 ^ 32"
    using B(1) Cons.prems(3) sz by simp
  then have off1: "unat (mNextAllocationOffset s1) =
      unat (mNextAllocationOffset s) + unat (roundUp sz (mAlignment s))"
    using B(3) unat_offset_advance by simp
  have off0: "unat (offsetOut a) = unat (mNextAllocationOffset s)"
    using B(2) unat_ucast_32_64 by simp
  have "\<forall>i<length as. unat (offsetOut (as ! i)) =
          unat (mNextAllocationOffset s)
            + sum_list (take i (map (\<lambda>r. unat (roundUp (fst r) (mAlignment s))) (req # reqs)))"
  proof (intro allI impI)
    fix i assume i: "i < length as"
    show "unat (offsetOut (as ! i)) =
          unat (mNextAllocationOffset s)
            + sum_list (take i (map (\<lambda>r. unat (roundUp (fst r) (mAlignment s))) (req # reqs)))"
    proof (cases i)
      case 0
      then show ?thesis using as off0 by simp
    next
      case (Suc k)
      then have "k < length as'" using i as by simp
      then show ?thesis using ih Suc as off1 B(5) req by simp
    qed
  qed
  then show ?case using ih as sz B(5) by simp
qed


lemma run_generation_offsets:
  assumes "run (map (\<lambda>(sz, p). Allocate sz p) reqs) s ctx = (map Inr as, s', ctx')"
    and "as = a0 # rest"
    and "newBufferAllocatedOut a0" and "\<forall>a\<in>set rest. \<not> newBufferAllocatedOut a"
    and "unat (mSize s') < 2 ^ 32"
  shows "length as = length reqs
    \<and> (\<forall>i<length as. unat (offsetOut (as ! i)) =
          sum_list (take i (map (\<lambda>r. unat (roundUp (fst r) (mAlignment s))) reqs)))"
proof -
  obtain req reqs' where reqs: "reqs = req # reqs'"
    using assms(1,2) by (cases reqs) auto
  obtain sz p where req: "req = (sz, p)" by (cases req)
  obtain r s1 ctx1 where al: "allocate ctx sz p s = (r, s1, ctx1)"
    by (cases "allocate ctx sz p s")
  obtain rs s2 ctx2 where
    rn: "run (map (\<lambda>(sz, p). Allocate sz p) reqs') s1 ctx1 = (rs, s2, ctx2)"
    by (cases "run (map (\<lambda>(sz, p). Allocate sz p) reqs') s1 ctx1")
  have "r \<noteq> Inl AssertionFailure"
  proof
    assume "r = Inl AssertionFailure"
    then have "map Inr as = [Inl AssertionFailure]"
      using assms(1) al req reqs by simp
    then show False using assms(2) by auto
  qed
  then have eq: "map Inr as = r # rs" and s2: "s2 = s'" and c2: "ctx2 = ctx'"
    using assms(1) al rn req reqs by simp_all
  then have r: "r = Inr a0" and rs: "rs = map Inr rest"
    using assms(2) by auto
  note A = allocate_new_generation [OF al [unfolded r] assms(3)]
  note G = run_same_generation [OF rn [unfolded rs s2 c2] assms(4,5)]
  have "unat (roundUp sz (mAlignment s)) \<le> unat (mSize s1)"
    using A(3) by (simp add: word_le_nat_alt)
  then have "unat (roundUp sz (mAlignment s)) < 2 ^ 32"
    using G assms(5) by simp
  then have off1: "unat (mNextAllocationOffset s1) = unat (roundUp sz (mAlignment s))"
    using A(2) unat_ucast_64_32 by simp
  have "\<forall>i<length as. unat (offsetOut (as ! i)) =
          sum_list (take i (map (\<lambda>r. unat (roundUp (fst r) (mAlignment s))) reqs))"
  proof (intro allI impI)
    fix i assume i: "i < length as"
    show "unat (offsetOut (as ! i)) =
          sum_list (take i (map (\<lambda>r. unat (roundUp (fst r) (mAlignment s))) reqs))"
    proof (cases i)
      case 0
      then show ?thesis using assms(2) A(1) by simp
    next
      case (Suc k)
      then have "k < length rest" using i assms(2) by simp
      then show ?thesis using G Suc assms(2) off1 A(4) req reqs by simp
    qed
  qed
  then show ?thesis using G assms(2) reqs by simp
qed


lemmas allocate_eval =
  allocate_def roundUp_def allocate_retire_def allocate_grow_def allocate_select_def
  allocateNewBuffer_def BufferHelper_init_def allocate_finish_def BufferHelper_map_def
  DynamicBuffer_flush_def BufferHelper_flush_def BufferHelper_unmap_def updateQueueSerial_def
  BufferHelper_release_def releaseObject_def isResourceInUse_def isSerialInUse_def Let_def


lemma example_run_positive:
  "run (map (\<lambda>(sz, p). Allocate sz p) [(100, False), (28, False), (1, False)])
     exampleBuffer exampleContext =
   (map Inr
      [\<lparr>ptrOut = None, bufferOut = 1, offsetOut = 0, newBufferAllocatedOut = True\<rparr>,
       \<lparr>ptrOut = None, bufferOut = 1, offsetOut = 100, newBufferAllocatedOut = False\<rparr>,
       \<lparr>ptrOut = None, bufferOut = 1, offsetOut = 128, newBufferAllocatedOut = False\<rparr>],
    exampleBuffer
      \<lparr>mBuffer := Some \<lparr>bh_handle = 1, bh_mSize = 1024, bh_mStoredQueueSerial = 0,
                         bh_mapped = False, bh_hostVisible = True, bh_hostCoherent = False\<rparr>,
       mNextAllocationOffset := 132, mSize := 1024\<rparr>,
    exampleContext\<lparr>nextHandle := 2\<rparr>)"
  by (simp add: exampleBuffer_def exampleContext_def allocate_eval)

lemma example_run_zero:
  "run [Allocate 100 False, Allocate 0 False, Allocate 0 False] exampleBuffer exampleContext =
   ([Inr \<lparr>ptrOut = None, bufferOut = 1, offsetOut = 0, newBufferAllocatedOut = True\<rparr>,
     Inr \<lparr>ptrOut = None, bufferOut = 1, offsetOut = 100, newBufferAllocatedOut = False\<rparr>,
     Inr \<lparr>ptrOut = None, bufferOut = 1, offsetOut = 100, newBufferAllocatedOut = False\<rparr>],
    exampleBuffer
      \<lparr>mBuffer := Some \<lparr>bh_handle = 1, bh_mSize = 1024, bh_mStoredQueueSerial = 0,
                         bh_mapped = False, bh_hostVisible = True, bh_hostCoherent = False\<rparr>,
       mNextAllocationOffset := 100, mSize := 1024\<rparr>,
    exampleContext\<lparr>nextHandle := 2\<rparr>)"
  by (simp add: exampleBuffer_def exampleContext_def allocate_eval)

text \<open>
  Claim C2, as the code has it. Take the \<^verbatim>\<open>allocate\<close> calls served by one generation:
  the call that opens it (it reports a new buffer) and the calls after it that report
  none. With a non-zero alignment and a generation whose capacity fits the 32-bit offset
  counter, every returned offset plus its rounded size is at most every later offset (the
  ranges never overlap and the offsets never decrease), every offset is a multiple of the
  alignment, and an offset is strictly below the later ones whenever its request has a
  non-zero rounded size, which every request of at least one byte has unless rounding it
  overflows \<^verbatim>\<open>size_t\<close>.
\<close>

theorem C2_offsets_within_generation:
  assumes "run (map (\<lambda>(sz, p). Allocate sz p) reqs) s ctx = (map Inr as, s', ctx')"
    and "as = a0 # rest"
    and "newBufferAllocatedOut a0" and "\<forall>a\<in>set rest. \<not> newBufferAllocatedOut a"
    and "mAlignment s \<noteq> 0" and "unat (mSize s') < 2 ^ 32"
  shows "(\<forall>i j. i < j \<and> j < length as \<longrightarrow>
            unat (offsetOut (as ! i)) + unat (roundUp (fst (reqs ! i)) (mAlignment s))
              \<le> unat (offsetOut (as ! j)))
       \<and> (\<forall>i j. i < j \<and> j < length as \<longrightarrow> offsetOut (as ! i) \<le> offsetOut (as ! j))
       \<and> (\<forall>i j. i < j \<and> j < length as \<and> roundUp (fst (reqs ! i)) (mAlignment s) \<noteq> 0
            \<longrightarrow> offsetOut (as ! i) < offsetOut (as ! j))
       \<and> (\<forall>i<length as. 0 < fst (reqs ! i)
              \<and> unat (fst (reqs ! i)) + unat (mAlignment s) \<le> 2 ^ 64
            \<longrightarrow> roundUp (fst (reqs ! i)) (mAlignment s) \<noteq> 0)
       \<and> (\<forall>i<length as. unat (offsetOut (as ! i)) mod unat (mAlignment s) = 0)"
proof -
  define zs where "zs = map (\<lambda>r. unat (roundUp (fst r) (mAlignment s))) reqs"
  have len: "length as = length reqs"
    and off: "\<And>i. i < length as \<Longrightarrow> unat (offsetOut (as ! i)) = sum_list (take i zs)"
    using run_generation_offsets [OF assms(1-4,6)] by (simp_all add: zs_def)
  have zlen: "length zs = length reqs" by (simp add: zs_def)
  have znth: "\<And>i. i < length reqs \<Longrightarrow> zs ! i = unat (roundUp (fst (reqs ! i)) (mAlignment s))"
    by (simp add: zs_def)
  have sep: "unat (offsetOut (as ! i)) + unat (roundUp (fst (reqs ! i)) (mAlignment s))
      \<le> unat (offsetOut (as ! j))" if "i < j" "j < length as" for i j
  proof -
    have "sum_list (take i zs) + zs ! i = sum_list (take (Suc i) zs)"
      using that len zlen by (simp add: sum_list_take_Suc)
    also have "\<dots> \<le> sum_list (take j zs)"
      using that by (simp add: sum_list_take_mono)
    finally show ?thesis using that off len znth by simp
  qed
  have mono: "offsetOut (as ! i) \<le> offsetOut (as ! j)" if "i < j" "j < length as" for i j
    using sep [OF that] by (simp add: word_le_nat_alt)
  have strict: "offsetOut (as ! i) < offsetOut (as ! j)"
    if "i < j" "j < length as" "roundUp (fst (reqs ! i)) (mAlignment s) \<noteq> 0" for i j
  proof -
    have "0 < unat (roundUp (fst (reqs ! i)) (mAlignment s))"
      using that(3) by (simp add: unat_gt_0)
    then show ?thesis using sep [OF that(1,2)] by (simp add: word_less_nat_alt)
  qed
  have nz: "roundUp (fst (reqs ! i)) (mAlignment s) \<noteq> 0"
    if "0 < fst (reqs ! i)" "unat (fst (reqs ! i)) + unat (mAlignment s) \<le> 2 ^ 64" for i
  proof -
    have "unat (fst (reqs ! i)) \<le> unat (roundUp (fst (reqs ! i)) (mAlignment s))"
      using roundUp_ge [OF assms(5), of "fst (reqs ! i)"] that(2) by simp
    moreover have "0 < unat (fst (reqs ! i))" using that(1) by (simp add: word_greater_zero_iff unat_gt_0)
    ultimately show ?thesis by (metis not_less unat_0 less_le_trans less_irrefl)
  qed
  have aligned: "unat (offsetOut (as ! i)) mod unat (mAlignment s) = 0" if "i < length as" for i
  proof -
    have "\<forall>z\<in>set zs. z mod unat (mAlignment s) = 0"
      by (auto simp: zs_def roundUp_multiple)
    then show ?thesis using off [OF that] by (simp add: sum_list_take_mod)
  qed
  show ?thesis using sep mono strict nz aligned by blast
qed

theorem C2_offsets_within_generation_witness:
  "run (map (\<lambda>(sz, p). Allocate sz p) [(100, False), (28, False), (1, False)])
     exampleBuffer exampleContext =
   (map Inr
      [\<lparr>ptrOut = None, bufferOut = 1, offsetOut = 0, newBufferAllocatedOut = True\<rparr>,
       \<lparr>ptrOut = None, bufferOut = 1, offsetOut = 100, newBufferAllocatedOut = False\<rparr>,
       \<lparr>ptrOut = None, bufferOut = 1, offsetOut = 128, newBufferAllocatedOut = False\<rparr>],
    exampleBuffer
      \<lparr>mBuffer := Some \<lparr>bh_handle = 1, bh_mSize = 1024, bh_mStoredQueueSerial = 0,
                         bh_mapped = False, bh_hostVisible = True, bh_hostCoherent = False\<rparr>,
       mNextAllocationOffset := 132, mSize := 1024\<rparr>,
    exampleContext\<lparr>nextHandle := 2\<rparr>)
   \<and> mAlignment exampleBuffer = 4
   \<and> unat (0 :: VkDeviceSize) + unat (roundUp (100 :: size_t) 4) \<le> unat (100 :: VkDeviceSize)
   \<and> unat (100 :: VkDeviceSize) + unat (roundUp (28 :: size_t) 4) \<le> unat (128 :: VkDeviceSize)
   \<and> (0 :: VkDeviceSize) < 100 \<and> (100 :: VkDeviceSize) < 128
   \<and> unat (128 :: VkDeviceSize) mod unat (4 :: size_t) = 0"
proof -
  let ?as = "[\<lparr>ptrOut = None, bufferOut = 1, offsetOut = 0, newBufferAllocatedOut = True\<rparr>,
       \<lparr>ptrOut = None, bufferOut = 1, offsetOut = 100, newBufferAllocatedOut = False\<rparr>,
       \<lparr>ptrOut = None, bufferOut = 1, offsetOut = 128, newBufferAllocatedOut = False\<rparr>]"
  let ?reqs = "[(100 :: size_t, False), (28, False), (1, False)]"
  have al: "mAlignment exampleBuffer = 4" by (simp add: exampleBuffer_def)
  have T: "(\<forall>i j. i < j \<and> j < length ?as \<longrightarrow>
            unat (offsetOut (?as ! i)) + unat (roundUp (fst (?reqs ! i)) (mAlignment exampleBuffer))
              \<le> unat (offsetOut (?as ! j)))
       \<and> (\<forall>i j. i < j \<and> j < length ?as \<longrightarrow> offsetOut (?as ! i) \<le> offsetOut (?as ! j))
       \<and> (\<forall>i j. i < j \<and> j < length ?as
              \<and> roundUp (fst (?reqs ! i)) (mAlignment exampleBuffer) \<noteq> 0
            \<longrightarrow> offsetOut (?as ! i) < offsetOut (?as ! j))
       \<and> (\<forall>i<length ?as. 0 < fst (?reqs ! i)
              \<and> unat (fst (?reqs ! i)) + unat (mAlignment exampleBuffer) \<le> 2 ^ 64
            \<longrightarrow> roundUp (fst (?reqs ! i)) (mAlignment exampleBuffer) \<noteq> 0)
       \<and> (\<forall>i<length ?as. unat (offsetOut (?as ! i)) mod unat (mAlignment exampleBuffer) = 0)"
    by (rule C2_offsets_within_generation [OF example_run_positive refl])
      (simp_all add: exampleBuffer_def)
  have "unat (offsetOut (?as ! 1))
        + unat (roundUp (fst (?reqs ! 1)) (mAlignment exampleBuffer))
      \<le> unat (offsetOut (?as ! 2))"
    using conjunct1 [OF T, rule_format, of 1 2] by simp
  moreover have "offsetOut (?as ! 0) < offsetOut (?as ! 1)"
    using conjunct1 [OF conjunct2 [OF conjunct2 [OF T]], rule_format, of 0 1]
    by (simp add: exampleBuffer_def roundUp_def)
  moreover have "unat (offsetOut (?as ! 2)) mod unat (mAlignment exampleBuffer) = 0"
    using conjunct2 [OF conjunct2 [OF conjunct2 [OF conjunct2 [OF T]]], rule_format, of 2]
    by simp
  ultimately show ?thesis
    using example_run_positive al by (simp add: roundUp_def)
qed

text \<open>
  Claim C2 as stated fails for requests of zero bytes: they are served from the current
  generation and return the same offset twice, so the offsets are not strictly increasing.
\<close>

theorem C2_counterexample:
  "fst (run [Allocate 100 False, Allocate 0 False, Allocate 0 False] exampleBuffer exampleContext)
     = [Inr \<lparr>ptrOut = None, bufferOut = 1, offsetOut = 0, newBufferAllocatedOut = True\<rparr>,
        Inr \<lparr>ptrOut = None, bufferOut = 1, offsetOut = 100, newBufferAllocatedOut = False\<rparr>,
        Inr \<lparr>ptrOut = None, bufferOut = 1, offsetOut = 100, newBufferAllocatedOut = False\<rparr>]
   \<and> \<not> offsetOut \<lparr>ptrOut = None, bufferOut = 1, offsetOut = 100, newBufferAllocatedOut = False\<rparr>
         < offsetOut
             \<lparr>ptrOut = None, bufferOut = 1, offsetOut = 100, newBufferAllocatedOut = False\<rparr>"
  unfolding example_run_zero by simp


lemma fold_BufferHelper_release:
  "fold (\<lambda>toFree c. BufferHelper_release c toFree) bs ctx =
     ctx\<lparr>garbage := garbage ctx @ map (\<lambda>b. (bh_mStoredQueueSerial b, bh_handle b)) bs\<rparr>"
  by (induction bs arbitrary: ctx) (simp_all add: BufferHelper_release_def releaseObject_def)

lemma DynamicBuffer_flush_ok:
  assumes "mBuffer s = Some cur" and "flushMemoryOk ctx"
  shows "DynamicBuffer_flush ctx s =
     (Inr (), s\<lparr>mLastFlushOrInvalidateOffset :=
                  (if mHostVisible s \<and> mLastFlushOrInvalidateOffset s < mNextAllocationOffset s
                   then mNextAllocationOffset s else mLastFlushOrInvalidateOffset s)\<rparr>)"
  using assms by (simp add: DynamicBuffer_flush_def BufferHelper_flush_def)

lemma allocate_retire_ok:
  assumes "mBuffer s = Some cur" and "flushMemoryOk ctx"
  shows "allocate_retire ctx s =
     (Inr (), s\<lparr>mLastFlushOrInvalidateOffset :=
                  (if mHostVisible s \<and> mLastFlushOrInvalidateOffset s < mNextAllocationOffset s
                   then mNextAllocationOffset s else mLastFlushOrInvalidateOffset s),
                mInFlightBuffers :=
                  mInFlightBuffers s
                    @ [updateQueueSerial (currentQueueSerial ctx) (BufferHelper_unmap cur)],
                mBuffer := None\<rparr>)"
  using assms by (simp add: allocate_retire_def DynamicBuffer_flush_ok)


lemma allocate_grow_eq:
  "allocate_grow ctx z s =
     (if mSize s < z
      then (s\<lparr>mSize := max (mInitialSize s) z, mBufferFreeList := []\<rparr>,
            ctx\<lparr>garbage := garbage ctx
                    @ map (\<lambda>b. (bh_mStoredQueueSerial b, bh_handle b)) (mBufferFreeList s)\<rparr>)
      else (s, ctx))"
  by (simp add: allocate_grow_def fold_BufferHelper_release)

lemma allocate_select_new:
  assumes "mBufferFreeList s = [] \<or> isResourceInUse ctx (hd (mBufferFreeList s))"
    and "mBuffer s = None"
  shows "allocate_select ctx s =
     (if createBufferOk ctx
      then (Inr (),
            s\<lparr>mBuffer := Some \<lparr>bh_handle = nextHandle ctx, bh_mSize = mSize s,
                                bh_mStoredQueueSerial = 0, bh_mapped = False,
                                bh_hostVisible = mHostVisible s,
                                bh_hostCoherent = hostCoherentMemory ctx\<rparr>\<rparr>,
            ctx\<lparr>nextHandle := Suc (nextHandle ctx)\<rparr>)
      else (Inl Stop, s, ctx))"
  using assms
  by (cases "mBufferFreeList s")
    (simp_all add: allocate_select_def allocateNewBuffer_def BufferHelper_init_def)









lemma example_allocate_2000_fails:
  "allocate (exampleContext100\<lparr>createBufferOk := False\<rparr>) 2000 False exampleBuffer100 =
     (Inl Stop,
      exampleBuffer100
        \<lparr>mBuffer := None, mLastFlushOrInvalidateOffset := 100, mSize := 2000,
         mInFlightBuffers :=
           [\<lparr>bh_handle = 1, bh_mSize = 1024, bh_mStoredQueueSerial = 1, bh_mapped = False,
             bh_hostVisible = True, bh_hostCoherent = False\<rparr>]\<rparr>,
      exampleContext100\<lparr>createBufferOk := False\<rparr>)"
  by (simp add: exampleBuffer_def exampleContext_def exampleBuffer100_def exampleContext100_def
      allocate_eval)






text \<open>
  What a failing \<^verbatim>\<open>allocate\<close> leaves behind. When the creation of the new buffer fails,
  the former current buffer is already flushed, tagged and in the in-flight list, there is
  no current buffer, and the target size has grown and the free list is released where the
  aligned request exceeded the target size. When the flush of the former buffer fails, the
  state is returned as it was.
\<close>

lemma allocate_create_fails:
  assumes over: "unat (mSize s)
        \<le> unat (mNextAllocationOffset s) + unat (roundUp sizeInBytes (mAlignment s))"
    and cur: "mBuffer s = Some cur"
    and flushOk: "flushMemoryOk ctx"
    and createFails: "\<not> createBufferOk ctx"
    and noReuse: "mSize s < roundUp sizeInBytes (mAlignment s) \<or> mBufferFreeList s = []
        \<or> isResourceInUse ctx (hd (mBufferFreeList s))"
  shows "allocate ctx sizeInBytes wantPtr s =
     (let sizeToAllocate = roundUp sizeInBytes (mAlignment s);
          grown = mSize s < sizeToAllocate
      in (Inl Stop,
          s\<lparr>mBuffer := None,
            mLastFlushOrInvalidateOffset :=
              (if mHostVisible s \<and> mLastFlushOrInvalidateOffset s < mNextAllocationOffset s
               then mNextAllocationOffset s else mLastFlushOrInvalidateOffset s),
            mSize := (if grown then max (mInitialSize s) sizeToAllocate else mSize s),
            mInFlightBuffers :=
              mInFlightBuffers s
                @ [updateQueueSerial (currentQueueSerial ctx) (BufferHelper_unmap cur)],
            mBufferFreeList := (if grown then [] else mBufferFreeList s)\<rparr>,
          (if grown
           then ctx\<lparr>garbage := garbage ctx
                  @ map (\<lambda>b. (bh_mStoredQueueSerial b, bh_handle b)) (mBufferFreeList s)\<rparr>
           else ctx)))"
proof -
  let ?z = "roundUp sizeInBytes (mAlignment s)"
  have br: "\<not> unat (mNextAllocationOffset s) + unat ?z < 2 ^ 64
      \<or> unat (mSize s) \<le> unat (mNextAllocationOffset s) + unat ?z"
    using over by simp
  note ret = allocate_retire_ok [OF cur flushOk]
  show ?thesis
  proof (cases "mSize s < ?z")
    case True
    show ?thesis
      using br True createFails
      by (simp add: allocate_def Let_def ret allocate_grow_eq allocate_select_new)
  next
    case False
    then have sel: "mBufferFreeList s = [] \<or> isResourceInUse ctx (hd (mBufferFreeList s))"
      using noReuse by blast
    show ?thesis
      using br False createFails
      by (simp add: allocate_def Let_def ret allocate_grow_eq allocate_select_new sel)
  qed
qed

lemma allocate_flush_fails:
  assumes over: "unat (mSize s)
        \<le> unat (mNextAllocationOffset s) + unat (roundUp sizeInBytes (mAlignment s))"
    and cur: "mBuffer s = Some cur"
    and pending: "mHostVisible s" "mLastFlushOrInvalidateOffset s < mNextAllocationOffset s"
    and nonCoherent: "bh_hostVisible cur" "\<not> bh_hostCoherent cur"
    and flushFails: "\<not> flushMemoryOk ctx"
  shows "allocate ctx sizeInBytes wantPtr s = (Inl Stop, s, ctx)"
proof -
  let ?z = "roundUp sizeInBytes (mAlignment s)"
  have br: "\<not> unat (mNextAllocationOffset s) + unat ?z < 2 ^ 64
      \<or> unat (mSize s) \<le> unat (mNextAllocationOffset s) + unat ?z"
    using over by simp
  have "allocate_retire ctx s = (Inl Stop, s)"
    using cur pending nonCoherent flushFails
    by (simp add: allocate_retire_def DynamicBuffer_flush_def BufferHelper_flush_def)
  then show ?thesis using br by (simp add: allocate_def Let_def)
qed


text \<open>
  Claim C9. The code breaks it. After \<^verbatim>\<open>init\<close> with alignment 4 and initial size 1024 and
  \<^verbatim>\<open>allocate(100)\<close>, an \<^verbatim>\<open>allocate(2000)\<close> whose buffer creation fails returns
  \<^verbatim>\<open>Stop\<close> with the former current buffer already in the in-flight list, no current
  buffer, the target size already 2000 and the next offset still 100. The following
  \<^verbatim>\<open>allocate(8)\<close>, on a device that works again, fits below the target size, does not
  leave the current buffer and fails \<^verbatim>\<open>ASSERT(mBuffer != nullptr)\<close>. When it is the flush
  of the former buffer that fails, the same call returns \<^verbatim>\<open>Stop\<close> with the state as it
  was.
\<close>

theorem C9_failed_creation_breaks_allocator:
  "allocate (exampleContext100\<lparr>createBufferOk := False\<rparr>) 2000 False exampleBuffer100
     = (Inl Stop,
        exampleBuffer100
          \<lparr>mBuffer := None, mLastFlushOrInvalidateOffset := 100, mSize := 2000,
           mInFlightBuffers :=
             [\<lparr>bh_handle = 1, bh_mSize = 1024, bh_mStoredQueueSerial = 1, bh_mapped = False,
               bh_hostVisible = True, bh_hostCoherent = False\<rparr>]\<rparr>,
        exampleContext100\<lparr>createBufferOk := False\<rparr>)
   \<and> mBuffer exampleBuffer100 \<noteq> None
   \<and> mSize exampleBuffer100 = 1024
   \<and> mInFlightBuffers exampleBuffer100 = []
   \<and> mNextAllocationOffset exampleBuffer100 = 100
   \<and> fst (allocate exampleContext100 8 False
            (fst (snd (allocate (exampleContext100\<lparr>createBufferOk := False\<rparr>) 2000 False
                         exampleBuffer100))))
       = Inl AssertionFailure
   \<and> allocate (exampleContext100\<lparr>flushMemoryOk := False\<rparr>) 2000 False exampleBuffer100
       = (Inl Stop, exampleBuffer100, exampleContext100\<lparr>flushMemoryOk := False\<rparr>)"
  by (simp add: exampleBuffer_def exampleContext_def exampleBuffer100_def exampleContext100_def
      allocate_eval)


text \<open>
  The state that the failed call leaves is one in which the allocator cannot allocate.
\<close>

theorem C9_failed_creation_breaks_allocator_witness:
  "fst (allocate exampleContext100 8 False
          (exampleBuffer100
             \<lparr>mBuffer := None, mLastFlushOrInvalidateOffset := 100, mSize := 2000,
              mInFlightBuffers :=
                [\<lparr>bh_handle = 1, bh_mSize = 1024, bh_mStoredQueueSerial = 1, bh_mapped = False,
                  bh_hostVisible = True, bh_hostCoherent = False\<rparr>]\<rparr>))
     = Inl AssertionFailure"
proof -
  note failed = conjunct1 [OF C9_failed_creation_breaks_allocator]
  note after = conjunct1 [OF conjunct2 [OF conjunct2 [OF conjunct2 [OF conjunct2
    [OF conjunct2 [OF C9_failed_creation_breaks_allocator]]]]]]
  show ?thesis
    using after unfolding failed by simp
qed


lemma releaseInFlightBuffers_loop_eq:
  "releaseInFlightBuffers_loop sz bs freeList ctx =
     (freeList @ filter (\<lambda>b. \<not> bh_mSize b < sz) bs,
      ctx\<lparr>garbage := garbage ctx
              @ map (\<lambda>b. (bh_mStoredQueueSerial b, bh_handle b))
                  (filter (\<lambda>b. bh_mSize b < sz) bs)\<rparr>)"
  by (induction bs arbitrary: freeList ctx)
    (simp_all add: BufferHelper_release_def releaseObject_def)

lemma releaseInFlightBuffers_eq:
  "releaseInFlightBuffers ctx s =
     (s\<lparr>mBufferFreeList :=
          mBufferFreeList s @ filter (\<lambda>b. \<not> bh_mSize b < mSize s) (mInFlightBuffers s),
        mInFlightBuffers := []\<rparr>,
      ctx\<lparr>garbage := garbage ctx
              @ map (\<lambda>b. (bh_mStoredQueueSerial b, bh_handle b))
                  (filter (\<lambda>b. bh_mSize b < mSize s) (mInFlightBuffers s))\<rparr>)"
  by (simp add: releaseInFlightBuffers_def releaseInFlightBuffers_loop_eq)

lemma releaseInFlightBuffers_handles:
  assumes "releaseInFlightBuffers ctx s = (s', ctx')"
  shows "set (bufferHandles s') \<subseteq> set (bufferHandles s)" and "nextHandle ctx' = nextHandle ctx"
  using assms by (auto simp: releaseInFlightBuffers_eq bufferHandles_def split: option.splits)

lemma DynamicBuffer_flush_handles:
  assumes "DynamicBuffer_flush ctx s = (r, s')"
  shows "bufferHandles s' = bufferHandles s"
  using DynamicBuffer_flush_cases [OF assms] by (auto simp: bufferHandles_def)

lemma allocate_retire_handles:
  assumes "allocate_retire ctx s = (r, s1)"
  shows "set (bufferHandles s1) = set (bufferHandles s)"
proof (cases "mBuffer s")
  case None
  then show ?thesis using assms by (simp add: allocate_retire_def)
next
  case (Some b)
  obtain rf sf where f: "DynamicBuffer_flush ctx s = (rf, sf)"
    by (cases "DynamicBuffer_flush ctx s")
  note h = DynamicBuffer_flush_handles [OF f]
  have sf: "sf = s \<or> sf = s\<lparr>mLastFlushOrInvalidateOffset := mNextAllocationOffset s\<rparr>"
    using DynamicBuffer_flush_cases [OF f] by blast
  show ?thesis
  proof (cases rf)
    case (Inl e)
    then show ?thesis using assms Some f h by (simp add: allocate_retire_def)
  next
    case (Inr u)
    then have "s1 = sf\<lparr>mInFlightBuffers := mInFlightBuffers sf
        @ [updateQueueSerial (currentQueueSerial ctx) (BufferHelper_unmap b)], mBuffer := None\<rparr>"
      using assms Some f by (simp add: allocate_retire_def)
    then show ?thesis using sf Some
      by (auto simp: bufferHandles_def updateQueueSerial_def BufferHelper_unmap_def)
  qed
qed

lemma allocate_grow_handles:
  assumes "allocate_grow ctx z s = (s2, ctx2)"
  shows "set (bufferHandles s2) \<subseteq> set (bufferHandles s)" and "nextHandle ctx2 = nextHandle ctx"
  using assms by (auto simp: allocate_grow_eq bufferHandles_def split: if_splits option.splits)

lemma allocate_select_handles:
  assumes "allocate_select ctx s = (r, s3, ctx3)"
  shows "set (bufferHandles s3) \<subseteq> set (bufferHandles s) \<union> {nextHandle ctx}"
    and "nextHandle ctx \<le> nextHandle ctx3"
  using assms
  by (auto simp: allocate_select_def allocateNewBuffer_def BufferHelper_init_def bufferHandles_def
      split: list.splits if_splits option.splits)

lemma allocate_finish_handles:
  assumes "allocate_finish ctx z p nb s = (r, s1, ctx1)"
  shows "set (bufferHandles s1) = set (bufferHandles s)" and "ctx1 = ctx"
    and "\<forall>a. r = Inr a \<longrightarrow> bufferOut a \<in> set (bufferHandles s1)"
  using assms
  by (auto simp: allocate_finish_def BufferHelper_map_def bufferHandles_def
      split: option.splits if_splits)


lemma allocate_handles:
  assumes "allocate ctx sz p s = (r, s1, ctx1)"
  shows "set (bufferHandles s1) \<subseteq> set (bufferHandles s) \<union> {nextHandle ctx}"
    and "nextHandle ctx \<le> nextHandle ctx1"
    and "\<forall>a. r = Inr a \<longrightarrow> bufferOut a \<in> set (bufferHandles s1)"
proof -
  let ?z = "roundUp sz (mAlignment s)"
  obtain ra sa where ra: "allocate_retire ctx s = (ra, sa)"
    by (cases "allocate_retire ctx s")
  obtain sb cb where g: "allocate_grow ctx ?z sa = (sb, cb)"
    by (cases "allocate_grow ctx ?z sa")
  obtain rc sc cc where sel: "allocate_select cb sb = (rc, sc, cc)"
    by (cases "allocate_select cb sb")
  let ?sd = "sc\<lparr>mNextAllocationOffset := 0, mLastFlushOrInvalidateOffset := 0\<rparr>"
  obtain rd sd cd where fin: "allocate_finish cc ?z p True ?sd = (rd, sd, cd)"
    by (cases "allocate_finish cc ?z p True ?sd")
  obtain re se ce where fin0: "allocate_finish ctx ?z p False s = (re, se, ce)"
    by (cases "allocate_finish ctx ?z p False s")
  have hsd: "bufferHandles ?sd = bufferHandles sc" by (simp add: bufferHandles_def)
  have chain: "set (bufferHandles sc) \<subseteq> set (bufferHandles s) \<union> {nextHandle ctx}"
    and nh: "nextHandle ctx \<le> nextHandle cc" and nb: "nextHandle cb = nextHandle ctx"
    using allocate_retire_handles [OF ra] allocate_grow_handles [OF g]
      allocate_select_handles [OF sel]
    by auto
  have sa_sub: "set (bufferHandles sa) \<subseteq> set (bufferHandles s) \<union> {nextHandle ctx}"
    using allocate_retire_handles [OF ra] by auto
  have sb_sub: "set (bufferHandles sb) \<subseteq> set (bufferHandles s) \<union> {nextHandle ctx}"
    using allocate_retire_handles [OF ra] allocate_grow_handles [OF g] by auto
  have res: "(r, s1, ctx1) = (re, se, ce) \<or> (r, s1, ctx1) = (rd, sd, cd)
      \<or> (r, s1, ctx1) = (Inl AssertionFailure, sc, cc)
      \<or> (\<exists>e. (r, s1, ctx1) = (Inl e, sc, cc)) \<or> (\<exists>e. (r, s1, ctx1) = (Inl e, sa, ctx))"
    using assms ra g sel fin fin0
    by (auto simp: allocate_def Let_def split: sum.splits if_splits)
  note F = allocate_finish_handles [OF fin] allocate_finish_handles [OF fin0]
  show "set (bufferHandles s1) \<subseteq> set (bufferHandles s) \<union> {nextHandle ctx}"
    using res F chain sa_sub hsd by auto
  show "nextHandle ctx \<le> nextHandle ctx1"
    using res F nh by auto
  show "\<forall>a. r = Inr a \<longrightarrow> bufferOut a \<in> set (bufferHandles s1)"
    using res F by auto
qed

lemma run_never_returns:
  assumes "h \<notin> set (bufferHandles s)" and "h < nextHandle ctx"
    and "Inr a \<in> set (fst (run calls s ctx))"
  shows "bufferOut a \<noteq> h"
  using assms
proof (induction calls arbitrary: s ctx)
  case Nil
  then show ?case by simp
next
  case (Cons c calls)
  show ?case
  proof (cases c)
    case (Allocate sz p)
    obtain r s1 ctx1 where al: "allocate ctx sz p s = (r, s1, ctx1)"
      by (cases "allocate ctx sz p s")
    note H = allocate_handles [OF al]
    have h1: "h \<notin> set (bufferHandles s1)" and h2: "h < nextHandle ctx1"
      using H(1,2) Cons.prems(1,2) by auto
    obtain rs s2 ctx2 where rn: "run calls s1 ctx1 = (rs, s2, ctx2)"
      by (cases "run calls s1 ctx1")
    have "Inr a = r \<or> Inr a \<in> set (fst (run calls s1 ctx1))"
      using Cons.prems(3) Allocate al rn by (auto split: if_splits)
    then show ?thesis
    proof
      assume "Inr a = r"
      then show ?thesis using H(3) h1 by auto
    next
      assume "Inr a \<in> set (fst (run calls s1 ctx1))"
      then show ?thesis using Cons.IH [OF h1 h2] by simp
    qed
  next
    case Flush
    obtain r s1 where f: "DynamicBuffer_flush ctx s = (r, s1)"
      by (cases "DynamicBuffer_flush ctx s")
    have h1: "h \<notin> set (bufferHandles s1)"
      using DynamicBuffer_flush_handles [OF f] Cons.prems(1) by simp
    have "Inr a \<in> set (fst (run calls s1 ctx))"
      using Cons.prems(3) Flush f by (auto split: if_splits)
    then show ?thesis using Cons.IH [OF h1 Cons.prems(2)] by simp
  next
    case ReleaseInFlightBuffers
    obtain s1 ctx1 where rl: "releaseInFlightBuffers ctx s = (s1, ctx1)"
      by (cases "releaseInFlightBuffers ctx s")
    have h1: "h \<notin> set (bufferHandles s1)" and h2: "h < nextHandle ctx1"
      using releaseInFlightBuffers_handles [OF rl] Cons.prems(1,2) by auto
    have "Inr a \<in> set (fst (run calls s1 ctx1))"
      using Cons.prems(3) ReleaseInFlightBuffers rl by simp
    then show ?thesis using Cons.IH [OF h1 h2] by simp
  next
    case (Collaborator cur compl c1 c2 c3 c4)
    let ?ctx = "ctx\<lparr>currentQueueSerial := cur, lastCompletedQueueSerial := compl,
            createBufferOk := c1, flushMemoryOk := c2, mapMemoryOk := c3,
            hostCoherentMemory := c4\<rparr>"
    have h2: "h < nextHandle ?ctx" using Cons.prems(2) by simp
    have "Inr a \<in> set (fst (run calls s ?ctx))"
      using Cons.prems(3) Collaborator by simp
    then show ?thesis using Cons.IH [OF Cons.prems(1) h2] by simp
  qed
qed


lemma example_run_grown:
  "run [Allocate 100 False, Allocate 2000 False, Allocate 2000 False] exampleBuffer exampleContext =
     ([Inr \<lparr>ptrOut = None, bufferOut = 1, offsetOut = 0, newBufferAllocatedOut = True\<rparr>,
       Inr \<lparr>ptrOut = None, bufferOut = 2, offsetOut = 0, newBufferAllocatedOut = True\<rparr>,
       Inr \<lparr>ptrOut = None, bufferOut = 3, offsetOut = 0, newBufferAllocatedOut = True\<rparr>],
      exampleBufferGrown, exampleContextGrown)"
  by (simp add: exampleBuffer_def exampleContext_def exampleBufferGrown_def
      exampleContextGrown_def allocate_eval)

lemma example_release_grown:
  "releaseInFlightBuffers exampleContextGrown exampleBufferGrown =
     (exampleBufferGrown
        \<lparr>mBufferFreeList :=
           [\<lparr>bh_handle = 2, bh_mSize = 2000, bh_mStoredQueueSerial = 1, bh_mapped = False,
             bh_hostVisible = True, bh_hostCoherent = False\<rparr>],
         mInFlightBuffers := []\<rparr>,
      exampleContextGrown\<lparr>garbage := [(1, 1)]\<rparr>)"
  by (simp add: releaseInFlightBuffers_eq exampleBufferGrown_def exampleBuffer_def
      exampleContextGrown_def exampleContext_def)

text \<open>
  Claim C5. In a \<^verbatim>\<open>DynamicBuffer\<close> whose buffers have distinct identities, all handed
  out by the device, \<^verbatim>\<open>releaseInFlightBuffers\<close> moves an in-flight buffer to the free
  list if and only if its size is at least the current target size \<^verbatim>\<open>mSize\<close>, and empties
  the in-flight list. A smaller buffer is released to the collaborator with its stored
  serial; the allocator no longer holds it, and whatever calls follow, with whatever serials
  and device answers, no \<^verbatim>\<open>allocate\<close> returns it. The function does not read the
  serials, so this holds of every in-flight buffer, the retired ones among them.
\<close>

theorem C5_releaseInFlightBuffers:
  assumes "distinct (bufferHandles s)" and "\<forall>h\<in>set (bufferHandles s). h < nextHandle ctx"
    and "b \<in> set (mInFlightBuffers s)"
    and "releaseInFlightBuffers ctx s = (s', ctx')"
  shows "(b \<in> set (mBufferFreeList s') \<longleftrightarrow> mSize s \<le> bh_mSize b)
     \<and> mInFlightBuffers s' = []
     \<and> (bh_mSize b < mSize s \<longrightarrow>
          (bh_mStoredQueueSerial b, bh_handle b) \<in> set (garbage ctx')
          \<and> bh_handle b \<notin> set (bufferHandles s')
          \<and> (\<forall>calls a. Inr a \<in> set (fst (run calls s' ctx')) \<longrightarrow> bufferOut a \<noteq> bh_handle b))"
proof -
  have s': "s' = s\<lparr>mBufferFreeList :=
          mBufferFreeList s @ filter (\<lambda>b. \<not> bh_mSize b < mSize s) (mInFlightBuffers s),
        mInFlightBuffers := []\<rparr>"
    and ctx': "ctx' = ctx\<lparr>garbage := garbage ctx
              @ map (\<lambda>b. (bh_mStoredQueueSerial b, bh_handle b))
                  (filter (\<lambda>b. bh_mSize b < mSize s) (mInFlightBuffers s))\<rparr>"
    using assms(4) by (simp_all add: releaseInFlightBuffers_eq)
  have d1: "distinct (map bh_handle (mInFlightBuffers s))"
    and d2: "set (map bh_handle (mInFlightBuffers s)) \<inter> set (map bh_handle (mBufferFreeList s)) = {}"
    and d3: "\<forall>c. mBuffer s = Some c \<longrightarrow> bh_handle c \<notin> set (map bh_handle (mInFlightBuffers s))"
    using assms(1) by (auto simp: bufferHandles_def split: option.splits)
  have hb: "bh_handle b \<in> set (map bh_handle (mInFlightBuffers s))"
    using assms(3) by simp
  have nfree: "bh_handle b \<notin> set (map bh_handle (mBufferFreeList s))"
    using d2 hb by blast
  then have bfree: "b \<notin> set (mBufferFreeList s)" by auto
  have iff: "b \<in> set (mBufferFreeList s') \<longleftrightarrow> mSize s \<le> bh_mSize b"
    using s' bfree assms(3) by (auto simp: not_less)
  have inj: "inj_on bh_handle (set (mInFlightBuffers s))"
    using d1 by (simp add: distinct_map)
  have rel: "(bh_mStoredQueueSerial b, bh_handle b) \<in> set (garbage ctx')
      \<and> bh_handle b \<notin> set (bufferHandles s')
      \<and> (\<forall>calls a. Inr a \<in> set (fst (run calls s' ctx')) \<longrightarrow> bufferOut a \<noteq> bh_handle b)"
    if small: "bh_mSize b < mSize s"
  proof -
    have g: "(bh_mStoredQueueSerial b, bh_handle b) \<in> set (garbage ctx')"
      using ctx' assms(3) small by auto
    have nf: "bh_handle b \<notin> bh_handle ` set (filter (\<lambda>b. \<not> bh_mSize b < mSize s) (mInFlightBuffers s))"
    proof
      assume "bh_handle b \<in> bh_handle ` set (filter (\<lambda>b. \<not> bh_mSize b < mSize s) (mInFlightBuffers s))"
      then obtain c where c: "c \<in> set (mInFlightBuffers s)" "\<not> bh_mSize c < mSize s"
        "bh_handle c = bh_handle b" by auto
      then have "c = b" using inj assms(3) by (meson inj_onD)
      then show False using c(2) small by simp
    qed
    have ncur: "bh_handle c \<noteq> bh_handle b" if "mBuffer s = Some c" for c
      using d3 hb that by force
    have nh: "bh_handle b \<notin> set (bufferHandles s')"
      using s' nf nfree ncur by (cases "mBuffer s") (auto simp: bufferHandles_def)
    have lt: "bh_handle b < nextHandle ctx'"
      using assms(2) hb ctx' by (auto simp: bufferHandles_def)
    show ?thesis using g nh run_never_returns [OF nh lt] by blast
  qed
  show ?thesis using iff s' rel by simp
qed


theorem C5_releaseInFlightBuffers_witness:
  "run [Allocate 100 False, Allocate 2000 False, Allocate 2000 False] exampleBuffer exampleContext =
     ([Inr \<lparr>ptrOut = None, bufferOut = 1, offsetOut = 0, newBufferAllocatedOut = True\<rparr>,
       Inr \<lparr>ptrOut = None, bufferOut = 2, offsetOut = 0, newBufferAllocatedOut = True\<rparr>,
       Inr \<lparr>ptrOut = None, bufferOut = 3, offsetOut = 0, newBufferAllocatedOut = True\<rparr>],
      exampleBufferGrown, exampleContextGrown)
   \<and> distinct (bufferHandles exampleBufferGrown)
   \<and> mSize exampleBufferGrown = 2000
   \<and> map (\<lambda>b. (bh_handle b, bh_mSize b)) (mInFlightBuffers exampleBufferGrown)
       = [(1, 1024), (2, 2000)]
   \<and> \<lparr>bh_handle = 1, bh_mSize = 1024, bh_mStoredQueueSerial = 1, bh_mapped = False,
        bh_hostVisible = True, bh_hostCoherent = False\<rparr>
       \<notin> set (mBufferFreeList (fst (releaseInFlightBuffers exampleContextGrown exampleBufferGrown)))
   \<and> \<lparr>bh_handle = 2, bh_mSize = 2000, bh_mStoredQueueSerial = 1, bh_mapped = False,
        bh_hostVisible = True, bh_hostCoherent = False\<rparr>
       \<in> set (mBufferFreeList (fst (releaseInFlightBuffers exampleContextGrown exampleBufferGrown)))
   \<and> (1, 1) \<in> set (garbage (snd (releaseInFlightBuffers exampleContextGrown exampleBufferGrown)))
   \<and> map (\<lambda>r. case r of Inl e \<Rightarrow> 0 | Inr a \<Rightarrow> bufferOut a)
        (fst (run [Collaborator 9 9 True True True False, Allocate 2000 False, Allocate 2000 False]
                (fst (releaseInFlightBuffers exampleContextGrown exampleBufferGrown))
                (snd (releaseInFlightBuffers exampleContextGrown exampleBufferGrown))))
       = [2, 4]"
proof -
  let ?b1 = "\<lparr>bh_handle = 1, bh_mSize = 1024, bh_mStoredQueueSerial = 1, bh_mapped = False,
        bh_hostVisible = True, bh_hostCoherent = False\<rparr>"
  let ?b2 = "\<lparr>bh_handle = 2, bh_mSize = 2000, bh_mStoredQueueSerial = 1, bh_mapped = False,
        bh_hostVisible = True, bh_hostCoherent = False\<rparr>"
  let ?r = "releaseInFlightBuffers exampleContextGrown exampleBufferGrown"
  have d: "distinct (bufferHandles exampleBufferGrown)"
    and lt: "\<forall>h\<in>set (bufferHandles exampleBufferGrown). h < nextHandle exampleContextGrown"
    and m1: "?b1 \<in> set (mInFlightBuffers exampleBufferGrown)"
    and m2: "?b2 \<in> set (mInFlightBuffers exampleBufferGrown)"
    and sz: "mSize exampleBufferGrown = 2000"
    and fl: "map (\<lambda>b. (bh_handle b, bh_mSize b)) (mInFlightBuffers exampleBufferGrown)
       = [(1, 1024), (2, 2000)]"
    by (simp_all add: bufferHandles_def exampleBufferGrown_def exampleBuffer_def
        exampleContextGrown_def exampleContext_def)
  have r: "?r = (fst ?r, snd ?r)" by simp
  note T1 = C5_releaseInFlightBuffers [OF d lt m1 r]
  note T2 = C5_releaseInFlightBuffers [OF d lt m2 r]
  have n1: "?b1 \<notin> set (mBufferFreeList (fst ?r))"
    using conjunct1 [OF T1] sz by simp
  have i2: "?b2 \<in> set (mBufferFreeList (fst ?r))"
    using conjunct1 [OF T2] sz by simp
  have g1: "(1, 1) \<in> set (garbage (snd ?r))"
    using conjunct2 [OF conjunct2 [OF T1]] sz by simp
  have later: "map (\<lambda>r. case r of Inl e \<Rightarrow> 0 | Inr a \<Rightarrow> bufferOut a)
        (fst (run [Collaborator 9 9 True True True False, Allocate 2000 False, Allocate 2000 False]
                (fst ?r) (snd ?r))) = [2, 4]"
    unfolding example_release_grown
    by (simp add: exampleBufferGrown_def exampleBuffer_def exampleContextGrown_def
        exampleContext_def allocate_eval)
  show ?thesis using example_run_grown d sz fl n1 i2 g1 later by simp
qed

section \<open>Properties of the growing pools\<close>


lemma find_upt_Some:
  assumes "List.find P [0 ..< n] = Some i"
  shows "i < n" and "P i" and "\<forall>j<i. \<not> P j"
proof -
  from assms obtain k where k: "k < length [0 ..< n]" "P ([0 ..< n] ! k)" "i = [0 ..< n] ! k"
    "\<forall>j<k. \<not> P ([0 ..< n] ! j)"
    by (auto simp: find_Some_iff)
  then show "i < n" and "P i" and "\<forall>j<i. \<not> P j" by auto
qed

lemma find_upt_first:
  assumes "i < n" and "P i" and "\<forall>j<i. \<not> P j"
  shows "List.find P [0 ..< n] = Some i"
  using assms by (auto simp: find_Some_iff intro!: exI [of _ i])

lemma findFreeEntryPool_True:
  assumes "findFreeEntryPool ctx s = (True, s1)"
  shows "mCurrentPool s1 < length (mPools s)"
    and "freedCount (mPoolStats s ! mCurrentPool s1) = mPoolSize s"
    and "serial (mPoolStats s ! mCurrentPool s1) \<le> lastCompletedQueueSerial ctx"
    and "s1 = s\<lparr>mCurrentPool := mCurrentPool s1, mCurrentFreeEntry := 0,
             mPoolStats := (mPoolStats s)[mCurrentPool s1 :=
               (mPoolStats s ! mCurrentPool s1)\<lparr>freedCount := 0\<rparr>]\<rparr>"
proof -
  let ?P = "\<lambda>i. freedCount (mPoolStats s ! i) = mPoolSize s
                   \<and> serial (mPoolStats s ! i) \<le> lastCompletedQueueSerial ctx"
  obtain i where f: "List.find ?P [0 ..< length (mPools s)] = Some i"
    and s1: "s1 = s\<lparr>mCurrentPool := i, mCurrentFreeEntry := 0,
             mPoolStats := (mPoolStats s)[i := (mPoolStats s ! i)\<lparr>freedCount := 0\<rparr>]\<rparr>"
    using assms by (auto simp: findFreeEntryPool_def Let_def split: option.splits)
  have i: "mCurrentPool s1 = i" using s1 by simp
  from find_upt_Some [OF f] i
  show "mCurrentPool s1 < length (mPools s)"
    and "freedCount (mPoolStats s ! mCurrentPool s1) = mPoolSize s"
    and "serial (mPoolStats s ! mCurrentPool s1) \<le> lastCompletedQueueSerial ctx"
    by simp_all
  show "s1 = s\<lparr>mCurrentPool := mCurrentPool s1, mCurrentFreeEntry := 0,
             mPoolStats := (mPoolStats s)[mCurrentPool s1 :=
               (mPoolStats s ! mCurrentPool s1)\<lparr>freedCount := 0\<rparr>]\<rparr>"
    using s1 i by simp
qed

lemma findFreeEntryPool_False:
  assumes "findFreeEntryPool ctx s = (False, s1)"
  shows "s1 = s"
  using assms by (auto simp: findFreeEntryPool_def Let_def split: option.splits)

lemma findFreeEntryPool_none:
  assumes "\<forall>i<length (mPools s). freedCount (mPoolStats s ! i) \<noteq> mPoolSize s
      \<or> lastCompletedQueueSerial ctx < serial (mPoolStats s ! i)"
  shows "findFreeEntryPool ctx s = (False, s)"
proof -
  have "List.find (\<lambda>i. freedCount (mPoolStats s ! i) = mPoolSize s
                   \<and> serial (mPoolStats s ! i) \<le> lastCompletedQueueSerial ctx)
          [0 ..< length (mPools s)] = None"
    using assms by (auto simp: find_None_iff)
  then show ?thesis by (simp add: findFreeEntryPool_def)
qed

lemma poolInvariant_update:
  assumes "poolInvariant s" and "i < length (mPoolStats s)" and "freedCount st \<le> mPoolSize s"
  shows "poolInvariant (s\<lparr>mPoolStats := (mPoolStats s)[i := st]\<rparr>)"
  using assms by (auto simp: poolInvariant_def dest!: set_update_subset_insert [THEN subsetD])

lemma poolInvariant_findFreeEntryPool:
  assumes "poolInvariant s" and "findFreeEntryPool ctx s = (b, s1)"
  shows "poolInvariant s1"
proof (cases b)
  case False
  then have "s1 = s" using assms(2) findFreeEntryPool_False [of ctx s s1] by simp
  then show ?thesis using assms(1) by simp
next
  case True
  then have ft: "findFreeEntryPool ctx s = (True, s1)" using assms(2) by simp
  note T = findFreeEntryPool_True [OF ft]
  let ?i = "mCurrentPool s1"
  have "?i < length (mPoolStats s)" using T(1) assms(1) by (simp add: poolInvariant_def)
  then have "poolInvariant (s\<lparr>mPoolStats := (mPoolStats s)[?i :=
               (mPoolStats s ! ?i)\<lparr>freedCount := 0\<rparr>]\<rparr>)"
    using assms(1) by (intro poolInvariant_update) simp_all
  then have "poolInvariant (s\<lparr>mCurrentPool := ?i, mCurrentFreeEntry := 0,
             mPoolStats := (mPoolStats s)[?i := (mPoolStats s ! ?i)\<lparr>freedCount := 0\<rparr>]\<rparr>)"
    by (simp add: poolInvariant_def)
  then show ?thesis using T(4) by simp
qed

lemma poolInvariant_allocateNewEntryPool:
  assumes "poolInvariant s"
  shows "poolInvariant (allocateNewEntryPool pool s)"
  using assms by (auto simp: poolInvariant_def allocateNewEntryPool_def)

lemma poolInvariant_onEntryFreed:
  assumes "poolInvariant s" and "onEntryFreed ctx i s = Inr s1"
  shows "poolInvariant s1"
proof -
  have i: "i < length (mPoolStats s)" and lt: "freedCount (mPoolStats s ! i) < mPoolSize s"
    and s1: "s1 = s\<lparr>mPoolStats := (mPoolStats s)[i :=
        \<lparr>freedCount = freedCount (mPoolStats s ! i) + 1, serial = currentQueueSerial ctx\<rparr>]\<rparr>"
    using assms(2) by (auto simp: onEntryFreed_def split: if_splits)
  have "freedCount (mPoolStats s ! i) + 1 \<le> mPoolSize s"
    using lt by (simp add: inc_le)
  then show ?thesis unfolding s1 using assms(1) i by (intro poolInvariant_update) simp_all
qed


lemma findFreeEntryPool_mPoolSize:
  assumes "findFreeEntryPool ctx s = (b, s1)"
  shows "mPoolSize s1 = mPoolSize s" and "mPools s1 = mPools s"
  using assms by (auto simp: findFreeEntryPool_def Let_def split: option.splits)

lemma allocateNewPool_invariant:
  assumes "poolInvariant s" and "DynamicQueryPool_allocateNewPool ctx s = (r, s1, ctx1)"
  shows "poolInvariant s1" and "mPoolSize s1 = mPoolSize s"
proof -
  obtain b sf where f: "findFreeEntryPool ctx s = (b, sf)"
    by (cases "findFreeEntryPool ctx s")
  note I = poolInvariant_findFreeEntryPool [OF assms(1) f]
  note M = findFreeEntryPool_mPoolSize [OF f]
  have "s1 = sf \<or> s1 = allocateNewEntryPool (nextHandle ctx) sf"
    using assms(2) f by (cases b) (auto simp: DynamicQueryPool_allocateNewPool_def split: if_splits)
  then show "poolInvariant s1" and "mPoolSize s1 = mPoolSize s"
    using I M poolInvariant_allocateNewEntryPool [OF I, of "nextHandle ctx"]
    by (auto simp: allocateNewEntryPool_def)
qed

lemma allocateQuery_invariant:
  assumes "poolInvariant s" and "allocateQuery ctx s = (r, s1, ctx1)"
  shows "poolInvariant s1" and "mPoolSize s1 = mPoolSize s"
proof -
  obtain ra sa ca where a: "DynamicQueryPool_allocateNewPool ctx s = (ra, sa, ca)"
    by (cases "DynamicQueryPool_allocateNewPool ctx s")
  note A = allocateNewPool_invariant [OF assms(1) a]
  have "s1 = sa \<or> s1 = sa\<lparr>mCurrentFreeEntry := mCurrentFreeEntry sa + 1\<rparr>
      \<or> s1 = s\<lparr>mCurrentFreeEntry := mCurrentFreeEntry s + 1\<rparr>"
    using assms(2) a by (auto simp: allocateQuery_def split: if_splits sum.splits)
  then show "poolInvariant s1" and "mPoolSize s1 = mPoolSize s"
    using A assms(1) by (auto simp: poolInvariant_def)
qed

lemma onEntryFreed_mPoolSize:
  assumes "onEntryFreed ctx i s = Inr s1"
  shows "mPoolSize s1 = mPoolSize s"
  using assms by (auto simp: onEntryFreed_def split: if_splits)

lemma runPool_invariant:
  assumes "poolInvariant s" and "runPool calls s ctx = (rs, s1, ctx1)"
  shows "poolInvariant s1 \<and> mPoolSize s1 = mPoolSize s"
  using assms
proof (induction calls arbitrary: s ctx rs s1 ctx1)
  case Nil
  then show ?case by simp
next
  case (Cons c calls)
  show ?case
  proof (cases c)
    case AllocateQuery
    obtain r sa ca where a: "allocateQuery ctx s = (r, sa, ca)"
      by (cases "allocateQuery ctx s")
    note A = allocateQuery_invariant [OF Cons.prems(1) a]
    show ?thesis
    proof (cases "r = Inl AssertionFailure")
      case True
      then have "s1 = sa" using Cons.prems(2) AllocateQuery a by simp
      then show ?thesis using A by simp
    next
      case False
      obtain rs2 s2 c2 where rn: "runPool calls sa ca = (rs2, s2, c2)"
        by (cases "runPool calls sa ca")
      then have "s1 = s2" using Cons.prems(2) AllocateQuery a False by simp
      then show ?thesis using Cons.IH [OF A(1) rn] A(2) by simp
    qed
  next
    case (FreeQuery i q)
    show ?thesis
    proof (cases "freeQuery ctx i q s")
      case (Inl e)
      then have "s1 = s" using Cons.prems(2) FreeQuery by simp
      then show ?thesis using Cons.prems(1) by simp
    next
      case (Inr sf)
      then have f: "onEntryFreed ctx i s = Inr sf" by (simp add: freeQuery_def)
      have rn: "runPool calls sf ctx = (rs, s1, ctx1)"
        using Cons.prems(2) FreeQuery Inr by simp
      show ?thesis
        using Cons.IH [OF poolInvariant_onEntryFreed [OF Cons.prems(1) f] rn]
          onEntryFreed_mPoolSize [OF f] by simp
    qed
  next
    case (PoolCollaborator cur compl ok)
    then show ?thesis using Cons.IH [OF Cons.prems(1)] Cons.prems(2) by simp
  qed
qed

lemma DynamicQueryPool_init_invariant:
  assumes "DynamicQueryPool_init ctx poolSize DynamicallyGrowingPool_new = (r, s0, ctx1)"
  shows "poolInvariant s0" and "r = Inr () \<longrightarrow> mPoolSize s0 = poolSize"
proof -
  let ?s = "(DynamicallyGrowingPool_new :: DynamicQueryPool)\<lparr>mPoolSize := poolSize\<rparr>"
  have i: "initEntryPool poolSize (DynamicallyGrowingPool_new :: DynamicQueryPool) = Inr ?s"
    by (simp add: initEntryPool_def DynamicallyGrowingPool_new_def)
  have inv: "poolInvariant ?s"
    by (simp add: poolInvariant_def DynamicallyGrowingPool_new_def)
  have a: "DynamicQueryPool_allocateNewPool ctx ?s = (r, s0, ctx1)"
    using assms i by (simp add: DynamicQueryPool_init_def)
  show "poolInvariant s0" and "r = Inr () \<longrightarrow> mPoolSize s0 = poolSize"
    using allocateNewPool_invariant [OF inv a] by simp_all
qed


lemma findFreeEntryPool_selected:
  assumes "poolInvariant s" and "findFreeEntryPool c s = (True, s')"
  shows "mCurrentPool s' < length (mPools s)
     \<and> freedCount (mPoolStats s ! mCurrentPool s') = mPoolSize s
     \<and> serial (mPoolStats s ! mCurrentPool s') \<le> lastCompletedQueueSerial c
     \<and> freedCount (mPoolStats s' ! mCurrentPool s') = 0
     \<and> mCurrentFreeEntry s' = 0 \<and> mPools s' = mPools s"
proof -
  note T = findFreeEntryPool_True [OF assms(2)]
  have len: "mCurrentPool s' < length (mPoolStats s)"
    using T(1) assms(1) by (simp add: poolInvariant_def)
  have "freedCount (mPoolStats s' ! mCurrentPool s') = 0"
    by (subst T(4)) (simp add: len)
  moreover have "mCurrentFreeEntry s' = 0" by (subst T(4)) simp
  moreover have "mPools s' = mPools s" by (subst T(4)) simp
  ultimately show ?thesis using T(1-3) by simp
qed

lemma allocateQuery_reuse:
  assumes inv: "poolInvariant s"
    and a: "allocateQuery c s = (Inr (p, q), s', c')"
    and ex: "mPoolSize s \<le> mCurrentFreeEntry s" and old: "p < length (mPools s)"
  shows "freedCount (mPoolStats s ! p) = mPoolSize s
     \<and> serial (mPoolStats s ! p) \<le> lastCompletedQueueSerial c
     \<and> q = 0 \<and> freedCount (mPoolStats s' ! p) = 0"
proof -
  obtain sa ca where n: "DynamicQueryPool_allocateNewPool c s = (Inr (), sa, ca)"
    and p: "p = mCurrentPool sa" and q: "q = mCurrentFreeEntry sa"
    and s': "s' = sa\<lparr>mCurrentFreeEntry := mCurrentFreeEntry sa + 1\<rparr>"
    using a ex by (auto simp: allocateQuery_def split: prod.splits sum.splits)
  obtain b sf where f: "findFreeEntryPool c s = (b, sf)"
    by (cases "findFreeEntryPool c s")
  have b
  proof (rule ccontr)
    assume "\<not> b"
    then have "sf = s" using f findFreeEntryPool_False [of c s sf] by simp
    then have "sa = allocateNewEntryPool (nextHandle c) s"
      using n f \<open>\<not> b\<close> by (auto simp: DynamicQueryPool_allocateNewPool_def split: if_splits)
    then have "p = length (mPools s)" using p by (simp add: allocateNewEntryPool_def)
    then show False using old by simp
  qed
  then have ft: "findFreeEntryPool c s = (True, sa)"
    using n f by (auto simp: DynamicQueryPool_allocateNewPool_def)
  from findFreeEntryPool_selected [OF inv ft] show ?thesis
    using p q s' by simp
qed

lemma unat_inc_less:
  fixes x y :: "'a::len word"
  assumes "x < y"
  shows "unat (x + 1) = Suc (unat x)"
proof -
  have "unat x < unat y" using assms by (simp add: word_less_nat_alt)
  moreover have "unat y < 2 ^ LENGTH('a)" by (rule unsigned_less)
  ultimately have "Suc (unat x) < 2 ^ LENGTH('a)" by linarith
  then have "unat x + unat (1 :: 'a word) < 2 ^ LENGTH('a)" by simp
  then show ?thesis using unat_add_lem [of x 1] by simp
qed

lemma onEntryFreed_stamp:
  assumes "onEntryFreed c i s = Inr s'"
  shows "serial (mPoolStats s' ! i) = currentQueueSerial c
     \<and> unat (freedCount (mPoolStats s' ! i)) = Suc (unat (freedCount (mPoolStats s ! i)))
     \<and> freedCount (mPoolStats s ! i) < mPoolSize s"
proof -
  have i: "i < length (mPoolStats s)" and lt: "freedCount (mPoolStats s ! i) < mPoolSize s"
    and s1: "s' = s\<lparr>mPoolStats := (mPoolStats s)[i :=
        \<lparr>freedCount = freedCount (mPoolStats s ! i) + 1, serial = currentQueueSerial c\<rparr>]\<rparr>"
    using assms by (auto simp: onEntryFreed_def split: if_splits)
  have "unat (freedCount (mPoolStats s ! i) + 1) = Suc (unat (freedCount (mPoolStats s ! i)))"
    using lt by (rule unat_inc_less)
  then show ?thesis using i lt s1 by simp
qed


text \<open>
  Claim C7. In every state that a query pool reaches after \<^verbatim>\<open>init\<close>, by allocations and
  frees in any order and with the serials moving in any way, every pool has one statistics
  entry and its \<^verbatim>\<open>freedCount\<close> is at most the pool size. From such a state:
  \<^verbatim>\<open>findFreeEntryPool\<close> selects a pool only if its \<^verbatim>\<open>freedCount\<close> equals the pool size
  and its serial is at most the last completed serial, and it then resets that pool's
  \<^verbatim>\<open>freedCount\<close> and the current free entry to zero; it selects none while every pool
  is short of entries freed or has a serial above the last completed one; an allocation
  that leaves an exhausted current pool for an existing pool lands on a pool of that kind,
  at entry 0; and freeing an entry stamps the current queue serial and adds one to the
  \<^verbatim>\<open>freedCount\<close>, which was below the pool size. The \<^verbatim>\<open>ASSERT\<close> of
  \<^verbatim>\<open>onEntryFreed\<close> is the failure branch of the model.
\<close>

theorem C7_pool_reuse_never_premature:
  assumes "DynamicQueryPool_init ctx0 poolSize DynamicallyGrowingPool_new = (Inr (), s0, ctx1)"
    and "runPool calls s0 ctx1 = (rs, s, ctx)"
  shows "length (mPoolStats s) = length (mPools s) \<and> mPoolSize s = poolSize
     \<and> (\<forall>i<length (mPoolStats s). freedCount (mPoolStats s ! i) \<le> mPoolSize s)
     \<and> (\<forall>c s'. findFreeEntryPool c s = (True, s') \<longrightarrow>
            mCurrentPool s' < length (mPools s)
          \<and> freedCount (mPoolStats s ! mCurrentPool s') = mPoolSize s
          \<and> serial (mPoolStats s ! mCurrentPool s') \<le> lastCompletedQueueSerial c
          \<and> freedCount (mPoolStats s' ! mCurrentPool s') = 0
          \<and> mCurrentFreeEntry s' = 0 \<and> mPools s' = mPools s)
     \<and> (\<forall>c. (\<forall>i<length (mPools s). freedCount (mPoolStats s ! i) \<noteq> mPoolSize s
                  \<or> lastCompletedQueueSerial c < serial (mPoolStats s ! i))
            \<longrightarrow> findFreeEntryPool c s = (False, s))
     \<and> (\<forall>c p q s' c'. allocateQuery c s = (Inr (p, q), s', c')
              \<and> mPoolSize s \<le> mCurrentFreeEntry s \<and> p < length (mPools s) \<longrightarrow>
            freedCount (mPoolStats s ! p) = mPoolSize s
          \<and> serial (mPoolStats s ! p) \<le> lastCompletedQueueSerial c
          \<and> q = 0 \<and> freedCount (mPoolStats s' ! p) = 0)
     \<and> (\<forall>c i s'. onEntryFreed c i s = Inr s' \<longrightarrow>
            serial (mPoolStats s' ! i) = currentQueueSerial c
          \<and> unat (freedCount (mPoolStats s' ! i)) = Suc (unat (freedCount (mPoolStats s ! i)))
          \<and> freedCount (mPoolStats s ! i) < mPoolSize s)"
proof -
  note I0 = DynamicQueryPool_init_invariant [OF assms(1)]
  have inv: "poolInvariant s" and sz: "mPoolSize s = poolSize"
    using runPool_invariant [OF I0(1) assms(2)] I0(2) by simp_all
  have len: "length (mPoolStats s) = length (mPools s)"
    and le: "\<forall>i<length (mPoolStats s). freedCount (mPoolStats s ! i) \<le> mPoolSize s"
    using inv by (auto simp: poolInvariant_def)
  show ?thesis
    using len sz le findFreeEntryPool_selected [OF inv] findFreeEntryPool_none [of s]
      allocateQuery_reuse [OF inv] onEntryFreed_stamp [of _ _ s]
    by (intro conjI allI impI; blast)
qed


lemmas pool_eval =
  DynamicQueryPool_init_def initEntryPool_def DynamicallyGrowingPool_new_def
  DynamicQueryPool_allocateNewPool_def findFreeEntryPool_def allocateNewEntryPool_def
  allocateQuery_def freeQuery_def onEntryFreed_def Let_def

lemma example_pool_init:
  "DynamicQueryPool_init exampleContext 2 DynamicallyGrowingPool_new =
     (Inr (),
      \<lparr>mPoolSize = 2, mCurrentPool = 0, mCurrentFreeEntry = 0, mPools = [1],
       mPoolStats = [\<lparr>freedCount = 0, serial = 0\<rparr>]\<rparr>,
      exampleContext\<lparr>nextHandle := 2, nativePoolsCreated := 1\<rparr>)"
  by (simp add: pool_eval exampleContext_def)

lemma example_pool_run:
  "runPool [AllocateQuery, AllocateQuery, PoolCollaborator 5 0 True, FreeQuery 0 0, FreeQuery 0 1]
     \<lparr>mPoolSize = 2, mCurrentPool = 0, mCurrentFreeEntry = 0, mPools = [1],
      mPoolStats = [\<lparr>freedCount = 0, serial = 0\<rparr>]\<rparr>
     (exampleContext\<lparr>nextHandle := 2, nativePoolsCreated := 1\<rparr>) =
   ([Inr (0, 0), Inr (0, 1)],
    \<lparr>mPoolSize = 2, mCurrentPool = 0, mCurrentFreeEntry = 2, mPools = [1],
     mPoolStats = [\<lparr>freedCount = 2, serial = 5\<rparr>]\<rparr>,
    exampleContext\<lparr>nextHandle := 2, nativePoolsCreated := 1, currentQueueSerial := 5\<rparr>)"
  by (simp add: pool_eval exampleContext_def word_le_nat_alt word_less_nat_alt)

lemma example_pool_early:
  "allocateQuery
     (exampleContext\<lparr>nextHandle := 2, nativePoolsCreated := 1, currentQueueSerial := 5,
        lastCompletedQueueSerial := 4\<rparr>)
     \<lparr>mPoolSize = 2, mCurrentPool = 0, mCurrentFreeEntry = 2, mPools = [1],
      mPoolStats = [\<lparr>freedCount = 2, serial = 5\<rparr>]\<rparr> =
   (Inr (1, 0),
    \<lparr>mPoolSize = 2, mCurrentPool = 1, mCurrentFreeEntry = 1, mPools = [1, 2],
     mPoolStats = [\<lparr>freedCount = 2, serial = 5\<rparr>, \<lparr>freedCount = 0, serial = 0\<rparr>]\<rparr>,
    exampleContext\<lparr>nextHandle := 3, nativePoolsCreated := 2, currentQueueSerial := 5,
      lastCompletedQueueSerial := 4\<rparr>)"
  by (simp add: pool_eval exampleContext_def word_le_nat_alt word_less_nat_alt)

lemma example_pool_retired:
  "allocateQuery
     (exampleContext\<lparr>nextHandle := 2, nativePoolsCreated := 1, currentQueueSerial := 5,
        lastCompletedQueueSerial := 5\<rparr>)
     \<lparr>mPoolSize = 2, mCurrentPool = 0, mCurrentFreeEntry = 2, mPools = [1],
      mPoolStats = [\<lparr>freedCount = 2, serial = 5\<rparr>]\<rparr> =
   (Inr (0, 0),
    \<lparr>mPoolSize = 2, mCurrentPool = 0, mCurrentFreeEntry = 1, mPools = [1],
     mPoolStats = [\<lparr>freedCount = 0, serial = 5\<rparr>]\<rparr>,
    exampleContext\<lparr>nextHandle := 2, nativePoolsCreated := 1, currentQueueSerial := 5,
      lastCompletedQueueSerial := 5\<rparr>)"
  by (simp add: pool_eval exampleContext_def word_le_nat_alt word_less_nat_alt)


theorem C7_pool_reuse_never_premature_witness:
  "DynamicQueryPool_init exampleContext 2 DynamicallyGrowingPool_new =
     (Inr (),
      \<lparr>mPoolSize = 2, mCurrentPool = 0, mCurrentFreeEntry = 0, mPools = [1],
       mPoolStats = [\<lparr>freedCount = 0, serial = 0\<rparr>]\<rparr>,
      exampleContext\<lparr>nextHandle := 2, nativePoolsCreated := 1\<rparr>)
   \<and> runPool [AllocateQuery, AllocateQuery, PoolCollaborator 5 0 True, FreeQuery 0 0, FreeQuery 0 1]
     \<lparr>mPoolSize = 2, mCurrentPool = 0, mCurrentFreeEntry = 0, mPools = [1],
      mPoolStats = [\<lparr>freedCount = 0, serial = 0\<rparr>]\<rparr>
     (exampleContext\<lparr>nextHandle := 2, nativePoolsCreated := 1\<rparr>) =
   ([Inr (0, 0), Inr (0, 1)],
    \<lparr>mPoolSize = 2, mCurrentPool = 0, mCurrentFreeEntry = 2, mPools = [1],
     mPoolStats = [\<lparr>freedCount = 2, serial = 5\<rparr>]\<rparr>,
    exampleContext\<lparr>nextHandle := 2, nativePoolsCreated := 1, currentQueueSerial := 5\<rparr>)
   \<and> freedCount \<lparr>freedCount = 2, serial = 5\<rparr> \<le> (2 :: uint32_t)
   \<and> fst (allocateQuery
        (exampleContext\<lparr>nextHandle := 2, nativePoolsCreated := 1, currentQueueSerial := 5,
           lastCompletedQueueSerial := 4\<rparr>)
        \<lparr>mPoolSize = 2, mCurrentPool = 0, mCurrentFreeEntry = 2, mPools = [1],
         mPoolStats = [\<lparr>freedCount = 2, serial = 5\<rparr>]\<rparr>) = Inr (1, 0)
   \<and> fst (allocateQuery
        (exampleContext\<lparr>nextHandle := 2, nativePoolsCreated := 1, currentQueueSerial := 5,
           lastCompletedQueueSerial := 5\<rparr>)
        \<lparr>mPoolSize = 2, mCurrentPool = 0, mCurrentFreeEntry = 2, mPools = [1],
         mPoolStats = [\<lparr>freedCount = 2, serial = 5\<rparr>]\<rparr>) = Inr (0, 0)
   \<and> serial \<lparr>freedCount = 2, serial = 5\<rparr>
       \<le> lastCompletedQueueSerial
           (exampleContext\<lparr>nextHandle := 2, nativePoolsCreated := 1, currentQueueSerial := 5,
              lastCompletedQueueSerial := 5\<rparr>)"
proof -
  let ?s = "\<lparr>mPoolSize = 2, mCurrentPool = 0, mCurrentFreeEntry = 2, mPools = [1 :: nat],
     mPoolStats = [\<lparr>freedCount = 2, serial = 5\<rparr>]\<rparr>"
  let ?c = "exampleContext\<lparr>nextHandle := 2, nativePoolsCreated := 1, currentQueueSerial := 5,
           lastCompletedQueueSerial := 5\<rparr>"
  note T = C7_pool_reuse_never_premature [OF example_pool_init example_pool_run]
  have le: "\<forall>i<length (mPoolStats ?s). freedCount (mPoolStats ?s ! i) \<le> mPoolSize ?s"
    using T by blast
  have b1: "freedCount \<lparr>freedCount = 2, serial = 5\<rparr> \<le> (2 :: uint32_t)"
    using le [rule_format, of 0] by simp
  have re: "\<forall>c p q s' c'. allocateQuery c ?s = (Inr (p, q), s', c')
              \<and> mPoolSize ?s \<le> mCurrentFreeEntry ?s \<and> p < length (mPools ?s) \<longrightarrow>
            freedCount (mPoolStats ?s ! p) = mPoolSize ?s
          \<and> serial (mPoolStats ?s ! p) \<le> lastCompletedQueueSerial c
          \<and> q = 0 \<and> freedCount (mPoolStats s' ! p) = 0"
    using T by blast
  have b2: "serial \<lparr>freedCount = 2, serial = 5\<rparr> \<le> lastCompletedQueueSerial ?c"
    using re [rule_format, of ?c 0 0, OF conjI [OF example_pool_retired]] by simp
  have e1: "fst (allocateQuery
        (exampleContext\<lparr>nextHandle := 2, nativePoolsCreated := 1, currentQueueSerial := 5,
           lastCompletedQueueSerial := 4\<rparr>) ?s) = Inr (1, 0)"
    unfolding example_pool_early by (rule fst_conv)
  have e2: "fst (allocateQuery ?c ?s) = Inr (0, 0)"
    unfolding example_pool_retired by (rule fst_conv)
  show ?thesis
    by (intro conjI) (rule example_pool_init example_pool_run b1 b2 e1 e2)+
qed


lemma DescriptorPoolHelper_init_ok:
  assumes "createDescriptorPoolOk ctx"
  shows "DescriptorPoolHelper_init ctx poolSizes maxSets h =
     (Inr (),
      h\<lparr>mFreeDescriptorSets := maxSets, mDescriptorPool := Some (nextHandle ctx)\<rparr>,
      ctx\<lparr>nativePoolsDestroyed :=
            (if mDescriptorPool h \<noteq> None then Suc (nativePoolsDestroyed ctx)
             else nativePoolsDestroyed ctx),
          nextHandle := Suc (nextHandle ctx),
          nativePoolsCreated := Suc (nativePoolsCreated ctx)\<rparr>)"
  using assms by (cases "mDescriptorPool h") (simp_all add: DescriptorPoolHelper_init_def)

lemma DynamicDescriptorPool_reuse:
  assumes i: "i < length (mDescriptorPools s)"
    and free: "\<not> isReferenced (mDescriptorPools s ! i)"
      "\<not> isSerialInUse ctx (mMostRecentSerial (mObject (mDescriptorPools s ! i)))"
    and first: "\<forall>j<i. isReferenced (mDescriptorPools s ! j)
        \<or> isSerialInUse ctx (mMostRecentSerial (mObject (mDescriptorPools s ! j)))"
    and ok: "createDescriptorPoolOk ctx"
  shows "DynamicDescriptorPool_allocateNewPool ctx s =
     (Inr (),
      s\<lparr>mCurrentPoolIndex := i,
        mDescriptorPools :=
          (mDescriptorPools s)
            [i := (mDescriptorPools s ! i)
               \<lparr>mObject := (mObject (mDescriptorPools s ! i))
                  \<lparr>mFreeDescriptorSets := mMaxSetsPerPool s,
                   mDescriptorPool := Some (nextHandle ctx)\<rparr>\<rparr>]\<rparr>,
      ctx\<lparr>nativePoolsDestroyed :=
            (if mDescriptorPool (mObject (mDescriptorPools s ! i)) \<noteq> None
             then Suc (nativePoolsDestroyed ctx) else nativePoolsDestroyed ctx),
          nextHandle := Suc (nextHandle ctx),
          nativePoolsCreated := Suc (nativePoolsCreated ctx)\<rparr>)"
proof -
  have f: "List.find
      (\<lambda>poolIndex. \<not> isReferenced (mDescriptorPools s ! poolIndex)
         \<and> \<not> isSerialInUse ctx (mMostRecentSerial (mObject (mDescriptorPools s ! poolIndex))))
      [0 ..< length (mDescriptorPools s)] = Some i"
    using i free first by (intro find_upt_first) auto
  show ?thesis
    by (simp add: DynamicDescriptorPool_allocateNewPool_def f Let_def
        DescriptorPoolHelper_init_ok [OF ok])
qed

lemma findFreeEntryPool_first:
  assumes i: "i < length (mPools s)"
    and free: "freedCount (mPoolStats s ! i) = mPoolSize s"
      "serial (mPoolStats s ! i) \<le> lastCompletedQueueSerial ctx"
    and first: "\<forall>j<i. freedCount (mPoolStats s ! j) \<noteq> mPoolSize s
        \<or> lastCompletedQueueSerial ctx < serial (mPoolStats s ! j)"
  shows "findFreeEntryPool ctx s =
     (True, s\<lparr>mCurrentPool := i, mCurrentFreeEntry := 0,
              mPoolStats := (mPoolStats s)[i := (mPoolStats s ! i)\<lparr>freedCount := 0\<rparr>]\<rparr>)"
proof -
  have f: "List.find
      (\<lambda>i. freedCount (mPoolStats s ! i) = mPoolSize s
            \<and> serial (mPoolStats s ! i) \<le> lastCompletedQueueSerial ctx)
      [0 ..< length (mPools s)] = Some i"
    using i free first by (intro find_upt_first) (auto simp: not_less)
  show ?thesis by (simp add: findFreeEntryPool_def f)
qed

lemma allocateQuery_reuses_pool:
  assumes ex: "mPoolSize s \<le> mCurrentFreeEntry s"
    and i: "i < length (mPools s)"
    and free: "freedCount (mPoolStats s ! i) = mPoolSize s"
      "serial (mPoolStats s ! i) \<le> lastCompletedQueueSerial ctx"
    and first: "\<forall>j<i. freedCount (mPoolStats s ! j) \<noteq> mPoolSize s
        \<or> lastCompletedQueueSerial ctx < serial (mPoolStats s ! j)"
  shows "allocateQuery ctx s =
     (Inr (i, 0),
      s\<lparr>mCurrentPool := i, mCurrentFreeEntry := 1,
        mPoolStats := (mPoolStats s)[i := (mPoolStats s ! i)\<lparr>freedCount := 0\<rparr>]\<rparr>,
      ctx)"
  using ex
  by (simp add: allocateQuery_def DynamicQueryPool_allocateNewPool_def
      findFreeEntryPool_first [OF i free first])


lemmas descriptor_eval =
  DynamicDescriptorPool_init_def DynamicDescriptorPool_new_def DescriptorPoolHelper_new_def
  DescriptorPoolHelper_init_def DynamicDescriptorPool_allocateNewPool_def
  allocateSetsAndGetInfo_def DescriptorPoolHelper_allocateSets_def Binding_set_def
  Binding_reset_def hasCapacity_def isReferenced_def isSerialInUse_def
  kDefaultDescriptorPoolMaxSets_def kMaxPools_def exampleDescriptorPool_def Let_def

lemma example_descriptor_init:
  "DynamicDescriptorPool_init exampleContext [] DynamicDescriptorPool_new =
     (Inr (), exampleDescriptorPool 128 0 1,
      exampleContext\<lparr>nextHandle := 2, nativePoolsCreated := 1\<rparr>)"
  by (simp add: descriptor_eval exampleContext_def)

lemma example_descriptor_fill:
  "allocateSetsAndGetInfo (exampleContext\<lparr>nextHandle := 2, nativePoolsCreated := 1\<rparr>) 128 None
     (exampleDescriptorPool 128 0 1) =
     (Inr False, Some 0, exampleDescriptorPool 0 1 1,
      exampleContext\<lparr>nextHandle := 2, nativePoolsCreated := 1\<rparr>)"
  by (simp add: descriptor_eval exampleContext_def)

lemma example_descriptor_release:
  "Binding_reset (Some 0) (mDescriptorPools (exampleDescriptorPool 0 1 1)) =
     (None, mDescriptorPools (exampleDescriptorPool 0 0 1))"
  by (simp add: descriptor_eval)

lemma example_descriptor_next:
  "allocateSetsAndGetInfo (exampleContext\<lparr>nextHandle := 2, nativePoolsCreated := 1\<rparr>) 1 None
     (exampleDescriptorPool 0 0 1) =
     (Inr True, Some 0, exampleDescriptorPool 127 1 2,
      exampleContext\<lparr>nextHandle := 3, nativePoolsCreated := 2, nativePoolsDestroyed := 1\<rparr>)"
  by (simp add: descriptor_eval exampleContext_def word_le_nat_alt)

lemma example_descriptor_allocateNewPool:
  "DynamicDescriptorPool_allocateNewPool
     (exampleContext\<lparr>nextHandle := 2, nativePoolsCreated := 1\<rparr>)
     (exampleDescriptorPool 0 0 1) =
     (Inr (), exampleDescriptorPool 128 0 2,
      exampleContext\<lparr>nextHandle := 3, nativePoolsCreated := 2, nativePoolsDestroyed := 1\<rparr>)"
  by (simp add: descriptor_eval exampleContext_def)


text \<open>
  Claim C8, as the code has it. When \<^verbatim>\<open>DynamicDescriptorPool::allocateNewPool\<close> finds a
  pool that no binding references and whose serial is not in use, it makes the first such
  pool the current one and appends no pool; but it then runs \<^verbatim>\<open>init\<close> on that pool,
  which destroys its native descriptor pool and creates a new one: the count of native
  pools created goes up by one, and the pool has all its sets free again. The growing pool
  of queries behaves as the claim says: when the current pool is exhausted and a pool has
  all its entries freed and a retired serial, the allocation takes entry 0 of the first
  such pool and the collaborator is not called, so no native pool is created.
\<close>

theorem C8_pool_instance_reuse:
  "(i < length (mDescriptorPools d)
      \<and> \<not> isReferenced (mDescriptorPools d ! i)
      \<and> \<not> isSerialInUse ctx (mMostRecentSerial (mObject (mDescriptorPools d ! i)))
      \<and> (\<forall>j<i. isReferenced (mDescriptorPools d ! j)
             \<or> isSerialInUse ctx (mMostRecentSerial (mObject (mDescriptorPools d ! j))))
      \<and> createDescriptorPoolOk ctx
    \<longrightarrow>
    DynamicDescriptorPool_allocateNewPool ctx d =
     (Inr (),
      d\<lparr>mCurrentPoolIndex := i,
        mDescriptorPools :=
          (mDescriptorPools d)
            [i := (mDescriptorPools d ! i)
               \<lparr>mObject := (mObject (mDescriptorPools d ! i))
                  \<lparr>mFreeDescriptorSets := mMaxSetsPerPool d,
                   mDescriptorPool := Some (nextHandle ctx)\<rparr>\<rparr>]\<rparr>,
      ctx\<lparr>nativePoolsDestroyed :=
            (if mDescriptorPool (mObject (mDescriptorPools d ! i)) \<noteq> None
             then Suc (nativePoolsDestroyed ctx) else nativePoolsDestroyed ctx),
          nextHandle := Suc (nextHandle ctx),
          nativePoolsCreated := Suc (nativePoolsCreated ctx)\<rparr>))
   \<and> (mPoolSize s \<le> mCurrentFreeEntry s
      \<and> k < length (mPools s)
      \<and> freedCount (mPoolStats s ! k) = mPoolSize s
      \<and> serial (mPoolStats s ! k) \<le> lastCompletedQueueSerial ctx
      \<and> (\<forall>j<k. freedCount (mPoolStats s ! j) \<noteq> mPoolSize s
             \<or> lastCompletedQueueSerial ctx < serial (mPoolStats s ! j))
    \<longrightarrow>
    allocateQuery ctx s =
     (Inr (k, 0),
      s\<lparr>mCurrentPool := k, mCurrentFreeEntry := 1,
        mPoolStats := (mPoolStats s)[k := (mPoolStats s ! k)\<lparr>freedCount := 0\<rparr>]\<rparr>,
      ctx))"
  using DynamicDescriptorPool_reuse [of i d ctx] allocateQuery_reuses_pool [of s k ctx]
  by blast

theorem C8_pool_instance_reuse_witness:
  "DynamicDescriptorPool_allocateNewPool
     (exampleContext\<lparr>nextHandle := 2, nativePoolsCreated := 1\<rparr>)
     (exampleDescriptorPool 0 0 1) =
     (Inr (), exampleDescriptorPool 128 0 2,
      exampleContext\<lparr>nextHandle := 3, nativePoolsCreated := 2, nativePoolsDestroyed := 1\<rparr>)
   \<and> allocateQuery (exampleContext\<lparr>lastCompletedQueueSerial := 1\<rparr>)
       \<lparr>mPoolSize = 128, mCurrentPool = 0, mCurrentFreeEntry = 128, mPools = [1 :: nat],
        mPoolStats = [\<lparr>freedCount = 128, serial = 1\<rparr>]\<rparr> =
     (Inr (0, 0),
      \<lparr>mPoolSize = 128, mCurrentPool = 0, mCurrentFreeEntry = 1, mPools = [1 :: nat],
       mPoolStats = [\<lparr>freedCount = 0, serial = 1\<rparr>]\<rparr>,
      exampleContext\<lparr>lastCompletedQueueSerial := 1\<rparr>)"
proof -
  let ?c = "exampleContext\<lparr>nextHandle := 2, nativePoolsCreated := 1\<rparr>"
  let ?d = "exampleDescriptorPool 0 0 1"
  let ?s = "\<lparr>mPoolSize = 128, mCurrentPool = 0, mCurrentFreeEntry = 128, mPools = [1 :: nat],
        mPoolStats = [\<lparr>freedCount = 128, serial = 1\<rparr>]\<rparr>"
  let ?q = "exampleContext\<lparr>lastCompletedQueueSerial := 1\<rparr>"
  have hd: "0 < length (mDescriptorPools ?d)
      \<and> \<not> isReferenced (mDescriptorPools ?d ! 0)
      \<and> \<not> isSerialInUse ?c (mMostRecentSerial (mObject (mDescriptorPools ?d ! 0)))
      \<and> (\<forall>j<0. isReferenced (mDescriptorPools ?d ! j)
             \<or> isSerialInUse ?c (mMostRecentSerial (mObject (mDescriptorPools ?d ! j))))
      \<and> createDescriptorPoolOk ?c"
    by (simp add: exampleDescriptorPool_def isReferenced_def isSerialInUse_def
        exampleContext_def)
  have hq: "mPoolSize ?s \<le> mCurrentFreeEntry ?s
      \<and> 0 < length (mPools ?s)
      \<and> freedCount (mPoolStats ?s ! 0) = mPoolSize ?s
      \<and> serial (mPoolStats ?s ! 0) \<le> lastCompletedQueueSerial ?q
      \<and> (\<forall>j<0. freedCount (mPoolStats ?s ! j) \<noteq> mPoolSize ?s
             \<or> lastCompletedQueueSerial ?q < serial (mPoolStats ?s ! j))"
    by (simp add: exampleContext_def)
  have a: "DynamicDescriptorPool_allocateNewPool ?c ?d =
     (Inr (), exampleDescriptorPool 128 0 2,
      exampleContext\<lparr>nextHandle := 3, nativePoolsCreated := 2, nativePoolsDestroyed := 1\<rparr>)"
    using conjunct1 [OF C8_pool_instance_reuse [of 0 ?d ?c], rule_format, OF hd]
    by (simp add: exampleDescriptorPool_def kDefaultDescriptorPoolMaxSets_def exampleContext_def)
  have b: "allocateQuery ?q ?s =
     (Inr (0, 0),
      \<lparr>mPoolSize = 128, mCurrentPool = 0, mCurrentFreeEntry = 1, mPools = [1 :: nat],
       mPoolStats = [\<lparr>freedCount = 0, serial = 1\<rparr>]\<rparr>, ?q)"
    using conjunct2 [OF C8_pool_instance_reuse [of _ _ ?q ?s 0], rule_format, OF hq]
    by simp
  show ?thesis by (intro conjI) (rule a b)+
qed

text \<open>
  Claim C8 as stated fails for the descriptor pools: after \<^verbatim>\<open>init\<close>, 128 sets
  allocated through a binding and the binding released, the next allocation reuses the one
  pool of the list, and the count of native pools created goes from 1 to 2.
\<close>

theorem C8_counterexample:
  "DynamicDescriptorPool_init exampleContext [] DynamicDescriptorPool_new =
     (Inr (), exampleDescriptorPool 128 0 1,
      exampleContext\<lparr>nextHandle := 2, nativePoolsCreated := 1\<rparr>)
   \<and> allocateSetsAndGetInfo (exampleContext\<lparr>nextHandle := 2, nativePoolsCreated := 1\<rparr>) 128
       None (exampleDescriptorPool 128 0 1) =
     (Inr False, Some 0, exampleDescriptorPool 0 1 1,
      exampleContext\<lparr>nextHandle := 2, nativePoolsCreated := 1\<rparr>)
   \<and> Binding_reset (Some 0) (mDescriptorPools (exampleDescriptorPool 0 1 1)) =
     (None, mDescriptorPools (exampleDescriptorPool 0 0 1))
   \<and> \<not> isSerialInUse (exampleContext\<lparr>nextHandle := 2, nativePoolsCreated := 1\<rparr>)
         (mMostRecentSerial (mObject (mDescriptorPools (exampleDescriptorPool 0 0 1) ! 0)))
   \<and> allocateSetsAndGetInfo (exampleContext\<lparr>nextHandle := 2, nativePoolsCreated := 1\<rparr>) 1
       None (exampleDescriptorPool 0 0 1) =
     (Inr True, Some 0, exampleDescriptorPool 127 1 2,
      exampleContext\<lparr>nextHandle := 3, nativePoolsCreated := 2, nativePoolsDestroyed := 1\<rparr>)
   \<and> length (mDescriptorPools (exampleDescriptorPool 127 1 2)) = 1
   \<and> nativePoolsCreated (exampleContext\<lparr>nextHandle := 2, nativePoolsCreated := 1\<rparr>) = 1
   \<and> nativePoolsCreated
        (exampleContext\<lparr>nextHandle := 3, nativePoolsCreated := 2, nativePoolsDestroyed := 1\<rparr>)
       = 2"
proof -
  have "\<not> isSerialInUse (exampleContext\<lparr>nextHandle := 2, nativePoolsCreated := 1\<rparr>)
         (mMostRecentSerial (mObject (mDescriptorPools (exampleDescriptorPool 0 0 1) ! 0)))"
    and "length (mDescriptorPools (exampleDescriptorPool 127 1 2)) = 1"
    and "nativePoolsCreated (exampleContext\<lparr>nextHandle := 2, nativePoolsCreated := 1\<rparr>) = 1"
    and "nativePoolsCreated
        (exampleContext\<lparr>nextHandle := 3, nativePoolsCreated := 2, nativePoolsDestroyed := 1\<rparr>)
       = 2"
    by (simp_all add: exampleDescriptorPool_def isSerialInUse_def exampleContext_def)
  then show ?thesis
    by (intro conjI)
      (rule example_descriptor_init example_descriptor_fill example_descriptor_release
        example_descriptor_next | assumption)+
qed

section \<open>Properties of the staged update engine\<close>

lemma changeLayout_TransferDst:
  "\<exists>s d b. changeLayout a TransferDst img cb
       = Inr (img\<lparr>mCurrentLayout := TransferDst\<rparr>, cb @ [ImageBarrier s d b])
     \<and> imb_image b = mImage img \<and> imb_newLayout b = VK_IMAGE_LAYOUT_TRANSFER_DST_OPTIMAL"
  by (cases "mCurrentLayout img")
     (simp_all add: changeLayout_def isLayoutChangeNecessary_def forceChangeLayoutAndQueue_def
        Let_def)

lemma changeLayout_TransferDst_again:
  assumes "mCurrentLayout img = TransferDst"
  shows "\<exists>s d b. changeLayout a TransferDst img cb = Inr (img, cb @ [ImageBarrier s d b])
     \<and> imb_image b = mImage img \<and> imb_newLayout b = VK_IMAGE_LAYOUT_TRANSFER_DST_OPTIMAL"
proof -
  have "img\<lparr>mCurrentLayout := TransferDst\<rparr> = img"
    using assms by simp
  then show ?thesis
    using changeLayout_TransferDst [of a img cb] by simp
qed

lemma changeLayout_TransferSrc:
  "\<exists>bs. changeLayout a TransferSrc img cb
       = Inr (img\<lparr>mCurrentLayout := TransferSrc\<rparr>, cb @ bs)
     \<and> (\<forall>c \<in> set bs. \<exists>s d b. c = ImageBarrier s d b
            \<and> imb_newLayout b = VK_IMAGE_LAYOUT_TRANSFER_SRC_OPTIMAL)"
proof (cases "mCurrentLayout img = TransferSrc")
  case True
  then have "img\<lparr>mCurrentLayout := TransferSrc\<rparr> = img"
    by simp
  then have "changeLayout a TransferSrc img cb = Inr (img\<lparr>mCurrentLayout := TransferSrc\<rparr>, cb @ [])"
    using True by (simp add: changeLayout_def isLayoutChangeNecessary_def)
  then show ?thesis
    by (intro exI [of _ "[]"]) simp
next
  case False
  then show ?thesis
    by (cases "mCurrentLayout img")
       (simp_all add: changeLayout_def isLayoutChangeNecessary_def
          forceChangeLayoutAndQueue_def Let_def)
qed


lemma trackSubresourceUpload_frame:
  assumes "mCurrentLayout (self st) = TransferDst"
  shows "\<exists>st1 bs. trackSubresourceUpload a t st = Inr st1
     \<and> self st1 = self st \<and> contextVk st1 = contextVk st
     \<and> readDependencies st1 = readDependencies st \<and> updatesToKeep st1 = updatesToKeep st
     \<and> commands st1 = commands st @ bs \<and> (\<forall>c \<in> set bs. \<not> isUpload c)"
proof -
  obtain s d b where cl:
    "changeLayout a TransferDst (self st) (commands st)
       = Inr (self st, commands st @ [ImageBarrier s d b])"
    using changeLayout_TransferDst_again [OF assms] by blast
  obtain l y c where t: "t = (l, y, c)"
    by (cases t) auto
  show ?thesis
    unfolding trackSubresourceUpload_def t
    by (auto simp add: cl Let_def)
qed

lemma release_after_changeLayout:
  "SubresourceUpdate_release ctx
       (ImageUpdate (Some (StagedImage (src\<lparr>mCurrentLayout := l\<rparr>) mem sb ups)) r)
     = SubresourceUpdate_release ctx (ImageUpdate (Some (StagedImage src mem sb ups)) r)"
  by simp

lemma applyUpdate_frame:
  assumes "mCurrentLayout (self st) = TransferDst" and "valid (self st)"
    and "isUpdateValid u" and "updateSubresource (mLayerCount (self st)) u = Inr t"
  shows "\<exists>u1 st2 bs. applyUpdate a t u st = Inr (u1, st2)
     \<and> self st2 = self st \<and> contextVk st2 = contextVk st
     \<and> updatesToKeep st2 = updatesToKeep st
     \<and> subresourceUploadsInProgress st2 = subresourceUploadsInProgress st
     \<and> commands st2 = commands st @ bs @ [uploadCommand (self st) u]
     \<and> (\<forall>c \<in> set bs. \<exists>s d b. c = ImageBarrier s d b
            \<and> imb_newLayout b = VK_IMAGE_LAYOUT_TRANSFER_SRC_OPTIMAL)
     \<and> (\<forall>ctx. SubresourceUpdate_release ctx u1 = SubresourceUpdate_release ctx u)"
proof (cases u)
  case (ClearUpdate v l y c)
  then show ?thesis
    using assms
    by (cases t)
       (auto simp add: clear_def clearColor_def clearDepthStencil_def getCurrentLayout_def
          Let_def)
next
  case (BufferUpdate h r)
  then show ?thesis
    using assms by (simp add: getCurrentLayout_def)
next
  case (ImageUpdate i r)
  with assms(3) obtain src mem sb ups where i: "i = Some (StagedImage src mem sb ups)"
    by (cases i) (auto elim: isUpdateValid.elims)
  obtain bs where cl:
    "changeLayout a TransferSrc src (commands st)
       = Inr (src\<lparr>mCurrentLayout := TransferSrc\<rparr>, commands st @ bs)"
    and bs: "\<forall>c \<in> set bs. \<exists>s d b. c = ImageBarrier s d b
            \<and> imb_newLayout b = VK_IMAGE_LAYOUT_TRANSFER_SRC_OPTIMAL"
    using changeLayout_TransferSrc [of a src "commands st"] by blast
  show ?thesis
    unfolding ImageUpdate i
    using assms(1) bs
    by (simp add: cl getCurrentLayout_def)
qed


lemma flushUpdate_kept:
  assumes "isUpdateValid u"
    and "isUpdateOutsideRange (mLayerCount (self st)) ls le ys ye u"
  shows "flushUpdate a ls le ys ye u st = Inr (st\<lparr>updatesToKeep := updatesToKeep st @ [u]\<rparr>)"
  using assms
  by (auto simp add: flushUpdate_def isUpdateOutsideRange_def split: sum.splits)

lemma flushUpdate_applied:
  assumes lay: "mCurrentLayout (self st) = TransferDst" and val: "valid (self st)"
    and uv: "isUpdateValid u"
    and res: "\<not> isl (updateSubresource (mLayerCount (self st)) u)"
    and ins: "\<not> isUpdateOutsideRange (mLayerCount (self st)) ls le ys ye u"
  shows "\<exists>st' bs. flushUpdate a ls le ys ye u st = Inr st'
     \<and> self st' = self st \<and> updatesToKeep st' = updatesToKeep st
     \<and> commands st' = commands st @ bs @ [uploadCommand (self st) u]
     \<and> (\<forall>c \<in> set bs. \<not> isUpload c)
     \<and> contextVk st' = SubresourceUpdate_release (contextVk st) u"
proof -
  obtain t where t: "updateSubresource (mLayerCount (self st)) u = Inr t"
    using res by (cases "updateSubresource (mLayerCount (self st)) u") auto
  have out: "\<not> isOutsideRange ls le ys ye t"
    using ins by (simp add: isUpdateOutsideRange_def t)
  obtain st1 bs1 where tr: "trackSubresourceUpload a t st = Inr st1"
    and f1: "self st1 = self st" "contextVk st1 = contextVk st"
      "updatesToKeep st1 = updatesToKeep st" "commands st1 = commands st @ bs1"
    and b1: "\<forall>c \<in> set bs1. \<not> isUpload c"
    using trackSubresourceUpload_frame [OF lay, of a t] by blast
  have lay1: "mCurrentLayout (self st1) = TransferDst" and val1: "valid (self st1)"
    and t1: "updateSubresource (mLayerCount (self st1)) u = Inr t"
    using lay val t f1(1) by simp_all
  obtain u1 st2 bs2 where ap: "applyUpdate a t u st1 = Inr (u1, st2)"
    and f2: "self st2 = self st1" "contextVk st2 = contextVk st1"
      "updatesToKeep st2 = updatesToKeep st1"
      "commands st2 = commands st1 @ bs2 @ [uploadCommand (self st1) u]"
    and b2: "\<forall>c \<in> set bs2. \<exists>s d b. c = ImageBarrier s d b
            \<and> imb_newLayout b = VK_IMAGE_LAYOUT_TRANSFER_SRC_OPTIMAL"
    and rel: "\<forall>ctx. SubresourceUpdate_release ctx u1 = SubresourceUpdate_release ctx u"
    using applyUpdate_frame [OF lay1 val1 uv t1, of a] by blast
  have b2': "\<forall>c \<in> set bs2. \<not> isUpload c"
    using b2 by auto
  have "flushUpdate a ls le ys ye u st
          = Inr (st2\<lparr>contextVk := SubresourceUpdate_release (contextVk st2) u1\<rparr>)"
    by (simp add: flushUpdate_def uv t out tr ap)
  moreover have "commands st2 = commands st @ (bs1 @ bs2) @ [uploadCommand (self st) u]"
    by (simp add: f1 f2)
  moreover have "\<forall>c \<in> set (bs1 @ bs2). \<not> isUpload c"
    using b1 b2' by auto
  ultimately show ?thesis
    using f1 f2 rel by (intro exI [of _ "st2\<lparr>contextVk := SubresourceUpdate_release (contextVk st2) u1\<rparr>"] exI [of _ "bs1 @ bs2"]) simp
qed

lemma flushStagedUpdates_loop_result:
  assumes "mCurrentLayout (self st) = TransferDst" and "valid (self st)"
    and "\<forall>u \<in> set us. isUpdateValid u
           \<and> \<not> isl (updateSubresource (mLayerCount (self st)) u)"
  shows "\<exists>st' new. flushStagedUpdates_loop a ls le ys ye us st = Inr st'
     \<and> self st' = self st
     \<and> updatesToKeep st'
         = updatesToKeep st
             @ filter (isUpdateOutsideRange (mLayerCount (self st)) ls le ys ye) us
     \<and> commands st' = commands st @ new
     \<and> filter isUpload new
         = map (uploadCommand (self st))
             (filter (\<lambda>u. \<not> isUpdateOutsideRange (mLayerCount (self st)) ls le ys ye u) us)
     \<and> contextVk st'
         = fold (\<lambda>u c. SubresourceUpdate_release c u)
             (filter (\<lambda>u. \<not> isUpdateOutsideRange (mLayerCount (self st)) ls le ys ye u) us)
             (contextVk st)"
  using assms
proof (induction us arbitrary: st)
  case Nil
  then show ?case
    by simp
next
  case (Cons u us)
  let ?out = "isUpdateOutsideRange (mLayerCount (self st)) ls le ys ye"
  have uv: "isUpdateValid u"
    and res: "\<not> isl (updateSubresource (mLayerCount (self st)) u)"
    using Cons.prems(3) by simp_all
  show ?case
  proof (cases "?out u")
    case True
    let ?st1 = "st\<lparr>updatesToKeep := updatesToKeep st @ [u]\<rparr>"
    have step: "flushUpdate a ls le ys ye u st = Inr ?st1"
      using flushUpdate_kept [OF uv True] .
    have "mCurrentLayout (self ?st1) = TransferDst" and "valid (self ?st1)"
      and "\<forall>u \<in> set us. isUpdateValid u
             \<and> \<not> isl (updateSubresource (mLayerCount (self ?st1)) u)"
      using Cons.prems by simp_all
    from Cons.IH [OF this] obtain st' new where
      "flushStagedUpdates_loop a ls le ys ye us ?st1 = Inr st'"
      "self st' = self ?st1"
      "updatesToKeep st'
         = updatesToKeep ?st1
             @ filter (isUpdateOutsideRange (mLayerCount (self ?st1)) ls le ys ye) us"
      "commands st' = commands ?st1 @ new"
      "filter isUpload new
         = map (uploadCommand (self ?st1))
             (filter (\<lambda>u. \<not> isUpdateOutsideRange (mLayerCount (self ?st1)) ls le ys ye u) us)"
      "contextVk st'
         = fold (\<lambda>u c. SubresourceUpdate_release c u)
             (filter (\<lambda>u. \<not> isUpdateOutsideRange (mLayerCount (self ?st1)) ls le ys ye u) us)
             (contextVk ?st1)"
      by blast
    then show ?thesis
      using True step by (intro exI [of _ st'] exI [of _ new]) simp
  next
    case False
    obtain st1 bs where step: "flushUpdate a ls le ys ye u st = Inr st1"
      and f: "self st1 = self st" "updatesToKeep st1 = updatesToKeep st"
        "commands st1 = commands st @ bs @ [uploadCommand (self st) u]"
        "contextVk st1 = SubresourceUpdate_release (contextVk st) u"
      and bs: "\<forall>c \<in> set bs. \<not> isUpload c"
      using flushUpdate_applied [OF Cons.prems(1,2) uv res False, of a] by blast
    have "mCurrentLayout (self st1) = TransferDst" and "valid (self st1)"
      and "\<forall>u \<in> set us. isUpdateValid u
             \<and> \<not> isl (updateSubresource (mLayerCount (self st1)) u)"
      using Cons.prems f(1) by simp_all
    from Cons.IH [OF this] obtain st' new where r:
      "flushStagedUpdates_loop a ls le ys ye us st1 = Inr st'"
      "self st' = self st1"
      "updatesToKeep st'
         = updatesToKeep st1
             @ filter (isUpdateOutsideRange (mLayerCount (self st1)) ls le ys ye) us"
      "commands st' = commands st1 @ new"
      "filter isUpload new
         = map (uploadCommand (self st1))
             (filter (\<lambda>u. \<not> isUpdateOutsideRange (mLayerCount (self st1)) ls le ys ye u) us)"
      "contextVk st'
         = fold (\<lambda>u c. SubresourceUpdate_release c u)
             (filter (\<lambda>u. \<not> isUpdateOutsideRange (mLayerCount (self st1)) ls le ys ye u) us)
             (contextVk st1)"
      by blast
    have up: "isUpload (uploadCommand (self st) u)"
      by (cases u) simp_all
    have nb: "filter isUpload bs = []"
      using bs by (simp add: filter_empty_conv)
    show ?thesis
      using False step r f nb up
      by (intro exI [of _ st'] exI [of _ "bs @ [uploadCommand (self st) u] @ new"]) simp
  qed
qed


lemma intervals_disjoint_iff:
  fixes b c s e :: nat
  assumes "0 < c" and "s < e"
  shows "{b ..< b + c} \<inter> {s ..< e} = {} \<longleftrightarrow> b + c \<le> s \<or> e \<le> b"
proof
  assume d: "{b ..< b + c} \<inter> {s ..< e} = {}"
  show "b + c \<le> s \<or> e \<le> b"
  proof (rule ccontr)
    assume "\<not> (b + c \<le> s \<or> e \<le> b)"
    then have "max b s \<in> {b ..< b + c} \<inter> {s ..< e}"
      using assms by auto
    then show False
      using d by blast
  qed
next
  assume "b + c \<le> s \<or> e \<le> b"
  then show "{b ..< b + c} \<inter> {s ..< e} = {}"
    by auto
qed

lemma isOutsideRange_nat:
  assumes "0 < unat c" and "unat b + unat c < 2 ^ 32" and "ys < ye"
  shows "isOutsideRange ls le ys ye (l, b, c)
     \<longleftrightarrow> unat l \<notin> {unat ls ..< unat le}
         \<or> {unat b ..< unat b + unat c} \<inter> {unat ys ..< unat ye} = {}"
proof -
  have sum: "unat (b + c) = unat b + unat c"
    using assms(2) by (simp add: unat_add_lem [THEN iffD1])
  have w: "unat ys < unat ye"
    using assms(3) by (simp add: word_less_nat_alt)
  show ?thesis
    unfolding intervals_disjoint_iff [OF assms(1) w]
    by (auto simp add: isOutsideRange_def word_less_nat_alt word_le_nat_alt sum)
qed

lemma isUpdateOutsideRange_outsideWindow:
  assumes "wellFormedUpdate layers u" and "ys < ye"
  shows "isUpdateOutsideRange layers ls le ys ye u
     \<longleftrightarrow> outsideWindow layers (unat ls) (unat le) (unat ys) (unat ye) u"
proof (cases u)
  case (ClearUpdate v l y c)
  then show ?thesis
    using assms isOutsideRange_nat [where c = "if c = kEntireLevel then layers else c" and b = y
        and ys = ys and ye = ye and l = l and ls = ls and le = le]
    by (simp add: wellFormedUpdate_def isUpdateOutsideRange_def outsideWindow_def
          split: if_splits)
next
  case (BufferUpdate h r)
  then show ?thesis
    using assms
      isOutsideRange_nat [where c = "sl_layerCount (imageSubresource r)"
        and b = "sl_baseArrayLayer (imageSubresource r)" and ys = ys and ye = ye
        and l = "sl_mipLevel (imageSubresource r)" and ls = ls and le = le]
    by (simp add: wellFormedUpdate_def isUpdateOutsideRange_def outsideWindow_def Let_def
          split: if_splits)
next
  case (ImageUpdate i r)
  then show ?thesis
    using assms
      isOutsideRange_nat [where c = "sl_layerCount (dstSubresource r)"
        and b = "sl_baseArrayLayer (dstSubresource r)" and ys = ys and ye = ye
        and l = "sl_mipLevel (dstSubresource r)" and ls = ls and le = le]
    by (simp add: wellFormedUpdate_def isUpdateOutsideRange_def outsideWindow_def Let_def
          split: if_splits)
qed

lemma filter_outside_cong:
  assumes "\<forall>u \<in> set us. wellFormedUpdate layers u" and "ys < ye"
  shows "filter (isUpdateOutsideRange layers ls le ys ye) us
           = filter (outsideWindow layers (unat ls) (unat le) (unat ys) (unat ye)) us"
    and "filter (\<lambda>u. \<not> isUpdateOutsideRange layers ls le ys ye u) us
           = filter (\<lambda>u. \<not> outsideWindow layers (unat ls) (unat le) (unat ys) (unat ye) u) us"
  using assms by (auto intro!: filter_cong simp add: isUpdateOutsideRange_outsideWindow)

lemma DynamicBuffer_flush_again:
  assumes "DynamicBuffer_flush ctx s = (Inr (), sb)"
  shows "DynamicBuffer_flush ctx' sb = (Inr (), sb)"
  using assms
  by (auto simp add: DynamicBuffer_flush_def split: if_splits option.splits sum.splits)

lemma DynamicBuffer_flush_fails:
  assumes "DynamicBuffer_flush ctx s = (Inl e, sb)"
  shows "sb = s"
  using assms
  by (auto simp add: DynamicBuffer_flush_def split: if_splits option.splits sum.splits)

lemma flushStagedUpdates_result:
  assumes ne: "mSubresourceUpdates (self w) \<noteq> []"
    and fl: "DynamicBuffer_flush (contextVk w) (mStagingBuffer (self w)) = (Inr (), sb)"
    and val: "valid (self w)"
    and wf: "\<forall>u \<in> set (mSubresourceUpdates (self w)). isUpdateValid u
           \<and> \<not> isl (updateSubresource (mLayerCount (self w)) u)"
    and kept: "kept = filter (isUpdateOutsideRange (mLayerCount (self w)) ls le ys ye)
                  (mSubresourceUpdates (self w))"
    and applied: "applied
         = filter (\<lambda>u. \<not> isUpdateOutsideRange (mLayerCount (self w)) ls le ys ye u)
             (mSubresourceUpdates (self w))"
    and ctxL: "ctxL = fold (\<lambda>u c. SubresourceUpdate_release c u) applied (contextVk w)"
  shows "\<exists>w1 new. flushStagedUpdates ls le ys ye w = (Inr (), w1)
     \<and> self w1
         = (self w)\<lparr>mCurrentLayout := TransferDst,
              mStagingBuffer := (if kept = [] then fst (releaseInFlightBuffers ctxL sb) else sb),
              mSubresourceUpdates := kept\<rparr>
     \<and> contextVk w1 = (if kept = [] then snd (releaseInFlightBuffers ctxL sb) else ctxL)
     \<and> commands w1 = commands w @ new
     \<and> filter isUpload new = map (uploadCommand (self w)) applied"
proof -
  let ?img0 = "(self w)\<lparr>mStagingBuffer := sb\<rparr>"
  let ?a = "GetFormatAspectFlags (imageFormat (mFormat ?img0))"
  let ?img1 = "?img0\<lparr>mCurrentLayout := TransferDst\<rparr>"
  obtain s d b where cl:
    "changeLayout ?a TransferDst ?img0 (commands w)
       = Inr (?img1, commands w @ [ImageBarrier s d b])"
    using changeLayout_TransferDst [of ?a ?img0 "commands w"] by blast
  let ?st0 = "\<lparr>self = ?img1, contextVk = contextVk w,
               commands = commands w @ [ImageBarrier s d b],
               readDependencies = readDependencies w,
               subresourceUploadsInProgress = 0, updatesToKeep = []\<rparr>"
  have "mCurrentLayout (self ?st0) = TransferDst" and "valid (self ?st0)"
    and "\<forall>u \<in> set (mSubresourceUpdates (self w)). isUpdateValid u
           \<and> \<not> isl (updateSubresource (mLayerCount (self ?st0)) u)"
    using val wf by (simp_all add: valid_def)
  from flushStagedUpdates_loop_result [OF this, of ?a ls le ys ye]
  obtain st' new where lp:
      "flushStagedUpdates_loop ?a ls le ys ye (mSubresourceUpdates (self w)) ?st0 = Inr st'"
    and f: "self st' = ?img1" "updatesToKeep st' = kept"
      "commands st' = commands w @ [ImageBarrier s d b] @ new"
      "filter isUpload new = map (uploadCommand ?img1) applied"
      "contextVk st' = ctxL"
    unfolding kept applied ctxL by auto
  have up: "map (uploadCommand ?img1) applied = map (uploadCommand (self w)) applied"
  proof (rule map_cong [OF refl])
    fix x
    show "uploadCommand ?img1 x = uploadCommand (self w) x"
      by (cases x) simp_all
  qed
  show ?thesis
  proof (cases "kept = []")
    case True
    obtain sb2 ctx2 where rel: "releaseInFlightBuffers ctxL sb = (sb2, ctx2)"
      by (cases "releaseInFlightBuffers ctxL sb")
    have "flushStagedUpdates ls le ys ye w
            = (Inr (), \<lparr>self = ?img1\<lparr>mSubresourceUpdates := [], mStagingBuffer := sb2\<rparr>,
                        contextVk = ctx2, commands = commands st',
                        readDependencies = readDependencies st'\<rparr>)"
      using ne True
      by (simp add: flushStagedUpdates_def fl cl [simplified] lp [simplified] f Let_def rel)
    then show ?thesis
      using True f up rel
      by (intro exI [of _ "\<lparr>self = ?img1\<lparr>mSubresourceUpdates := [], mStagingBuffer := sb2\<rparr>,
                        contextVk = ctx2, commands = commands st',
                        readDependencies = readDependencies st'\<rparr>"]
            exI [of _ "ImageBarrier s d b # new"]) simp
  next
    case False
    have "flushStagedUpdates ls le ys ye w
            = (Inr (), \<lparr>self = ?img1\<lparr>mSubresourceUpdates := kept\<rparr>,
                        contextVk = ctxL, commands = commands st',
                        readDependencies = readDependencies st'\<rparr>)"
      using ne False
      by (simp add: flushStagedUpdates_def fl cl [simplified] lp [simplified] f Let_def)
    then show ?thesis
      using False f up
      by (intro exI [of _ "\<lparr>self = ?img1\<lparr>mSubresourceUpdates := kept\<rparr>,
                        contextVk = ctxL, commands = commands st',
                        readDependencies = readDependencies st'\<rparr>"]
            exI [of _ "ImageBarrier s d b # new"]) simp
  qed
qed

text \<open>
  The updates kept by the test of the source are the updates outside the window, and a
  flush with a non-empty queue whose staging buffer is flushed ends with
  \<^verbatim>\<open>Continue\<close>.
\<close>

lemma wellFormedUpdate_asserts:
  assumes "\<forall>u \<in> set us. wellFormedUpdate layers u"
  shows "\<forall>u \<in> set us. isUpdateValid u \<and> \<not> isl (updateSubresource layers u)"
  using assms by (simp add: wellFormedUpdate_def)

lemma uploadCommand_self:
  assumes "mImage img1 = mImage img" and "mFormat img1 = mFormat img"
    and "mLayerCount img1 = mLayerCount img"
  shows "uploadCommand img1 u = uploadCommand img u"
  using assms by (cases u) simp_all

text \<open>
  Claim C3, amended. A flush of a non-empty queue, on a valid image whose staging buffer
  can be flushed, with a non-empty layer window and updates that pass the assertions of
  the loop, cover at least one layer and end below layer \<open>2\<^sup>3\<^sup>2\<close>, returns
  \<^verbatim>\<open>Continue\<close>. The queue it leaves is the old queue restricted, in order, to the
  updates whose level is outside the level interval or whose layers have no layer in the
  layer window; the commands it records that write the image are, in order, the commands
  of the other updates. A following flush with a window that no queued update is outside
  of records the commands of exactly the queued updates and leaves the queue empty.
\<close>

theorem C3_windowed_flush:
  assumes ne: "mSubresourceUpdates (self w) \<noteq> []"
    and fl: "fst (DynamicBuffer_flush (contextVk w) (mStagingBuffer (self w))) = Inr ()"
    and val: "valid (self w)"
    and wf: "\<forall>u \<in> set (mSubresourceUpdates (self w)).
               wellFormedUpdate (mLayerCount (self w)) u"
    and win: "layerStart < layerEnd"
  shows "\<exists>w1 new.
      flushStagedUpdates levelStart levelEnd layerStart layerEnd w = (Inr (), w1)
    \<and> mSubresourceUpdates (self w1)
        = filter (outsideWindow (mLayerCount (self w)) (unat levelStart) (unat levelEnd)
                    (unat layerStart) (unat layerEnd))
            (mSubresourceUpdates (self w))
    \<and> commands w1 = commands w @ new
    \<and> filter isUpload new
        = map (uploadCommand (self w))
            (filter (\<lambda>u. \<not> outsideWindow (mLayerCount (self w)) (unat levelStart)
                        (unat levelEnd) (unat layerStart) (unat layerEnd) u)
               (mSubresourceUpdates (self w)))
    \<and> (\<forall>levelStart2 levelEnd2 layerStart2 layerEnd2.
          layerStart2 < layerEnd2
          \<and> (\<forall>u \<in> set (mSubresourceUpdates (self w1)).
                \<not> outsideWindow (mLayerCount (self w)) (unat levelStart2) (unat levelEnd2)
                    (unat layerStart2) (unat layerEnd2) u)
          \<longrightarrow> (\<exists>w2 new2.
                flushStagedUpdates levelStart2 levelEnd2 layerStart2 layerEnd2 w1 = (Inr (), w2)
              \<and> mSubresourceUpdates (self w2) = []
              \<and> commands w2 = commands w1 @ new2
              \<and> filter isUpload new2
                  = map (uploadCommand (self w)) (mSubresourceUpdates (self w1))))"
proof -
  let ?LC = "mLayerCount (self w)"
  let ?q = "mSubresourceUpdates (self w)"
  let ?out = "outsideWindow ?LC (unat levelStart) (unat levelEnd) (unat layerStart) (unat layerEnd)"
  obtain sb where sb: "DynamicBuffer_flush (contextVk w) (mStagingBuffer (self w)) = (Inr (), sb)"
    using fl by (cases "DynamicBuffer_flush (contextVk w) (mStagingBuffer (self w))") simp
  note as = wellFormedUpdate_asserts [OF wf]
  note fc = filter_outside_cong [OF wf win, of levelStart levelEnd]
  define ctxL where "ctxL = fold (\<lambda>u c. SubresourceUpdate_release c u)
      (filter (\<lambda>u. \<not> isUpdateOutsideRange ?LC levelStart levelEnd layerStart layerEnd u) ?q)
      (contextVk w)"
  from flushStagedUpdates_result [OF ne sb val as refl refl ctxL_def]
  obtain w1 new where r:
    "flushStagedUpdates levelStart levelEnd layerStart layerEnd w = (Inr (), w1)"
    "self w1 = (self w)\<lparr>mCurrentLayout := TransferDst,
        mStagingBuffer := (if filter ?out ?q = [] then fst (releaseInFlightBuffers ctxL sb) else sb),
        mSubresourceUpdates := filter ?out ?q\<rparr>"
    "commands w1 = commands w @ new"
    "filter isUpload new = map (uploadCommand (self w)) (filter (\<lambda>u. \<not> ?out u) ?q)"
    unfolding fc by blast
  have q1: "mSubresourceUpdates (self w1) = filter ?out ?q"
    and lc1: "mLayerCount (self w1) = ?LC" and val1: "valid (self w1)"
    and im1: "mImage (self w1) = mImage (self w)" and fm1: "mFormat (self w1) = mFormat (self w)"
    using r(2) val by (simp_all add: valid_def)
  have second: "\<exists>w2 new2.
        flushStagedUpdates ls2 le2 ys2 ye2 w1 = (Inr (), w2)
      \<and> mSubresourceUpdates (self w2) = []
      \<and> commands w2 = commands w1 @ new2
      \<and> filter isUpload new2 = map (uploadCommand (self w)) (mSubresourceUpdates (self w1))"
    if win2: "ys2 < ye2"
      and all2: "\<forall>u \<in> set (mSubresourceUpdates (self w1)).
                \<not> outsideWindow ?LC (unat ls2) (unat le2) (unat ys2) (unat ye2) u"
    for ls2 le2 ys2 ye2
  proof (cases "mSubresourceUpdates (self w1) = []")
    case True
    then have "flushStagedUpdates ls2 le2 ys2 ye2 w1 = (Inr (), w1)"
      by (simp add: flushStagedUpdates_def)
    then show ?thesis
      using True by (intro exI [of _ w1] exI [of _ "[]"]) simp
  next
    case False
    then have st1: "mStagingBuffer (self w1) = sb"
      using r(2) q1 by simp
    have sb1: "DynamicBuffer_flush (contextVk w1) (mStagingBuffer (self w1)) = (Inr (), sb)"
      unfolding st1 using DynamicBuffer_flush_again [OF sb] .
    have wf1: "\<forall>u \<in> set (mSubresourceUpdates (self w1)).
                 wellFormedUpdate (mLayerCount (self w1)) u"
      using wf by (simp add: q1 lc1)
    note as1 = wellFormedUpdate_asserts [OF wf1]
    note fc1 = filter_outside_cong [OF wf1 win2, of ls2 le2]
    have none: "filter (outsideWindow (mLayerCount (self w1)) (unat ls2) (unat le2) (unat ys2)
                  (unat ye2)) (mSubresourceUpdates (self w1)) = []"
      using all2 by (simp add: lc1 filter_empty_conv)
    have every: "filter (\<lambda>u. \<not> outsideWindow (mLayerCount (self w1)) (unat ls2) (unat le2)
                  (unat ys2) (unat ye2) u) (mSubresourceUpdates (self w1))
                    = mSubresourceUpdates (self w1)"
      using all2 by (simp add: lc1 filter_id_conv)
    from flushStagedUpdates_result [OF False sb1 val1 as1 refl refl refl,
        of ls2 le2 ys2 ye2]
    obtain w2 new2 where r2:
      "flushStagedUpdates ls2 le2 ys2 ye2 w1 = (Inr (), w2)"
      "mSubresourceUpdates (self w2) = []"
      "commands w2 = commands w1 @ new2"
      "filter isUpload new2 = map (uploadCommand (self w1)) (mSubresourceUpdates (self w1))"
      unfolding fc1 none every by auto
    have "map (uploadCommand (self w1)) (mSubresourceUpdates (self w1))
            = map (uploadCommand (self w)) (mSubresourceUpdates (self w1))"
      by (rule map_cong [OF refl]) (rule uploadCommand_self [OF im1 fm1 lc1])
    then show ?thesis
      using r2 by (intro exI [of _ w2] exI [of _ new2]) simp
  qed
  show ?thesis
    using r(1,3,4) q1 second
    by (intro exI [of _ w1] exI [of _ new]) blast
qed


lemma example_queue: "mSubresourceUpdates (self exampleRecording) = exampleUpdates"
  by (simp add: exampleRecording_def exampleImage_def)

lemma example_layers: "mLayerCount (self exampleRecording) = 2"
  by (simp add: exampleRecording_def exampleImage_def)

lemma example_staging_flush:
  "fst (DynamicBuffer_flush (contextVk exampleRecording) (mStagingBuffer (self exampleRecording)))
     = Inr ()"
  by (simp add: exampleRecording_def exampleImage_def exampleBuffer100_def exampleBuffer_def
        exampleContext100_def exampleContext_def DynamicBuffer_flush_def BufferHelper_flush_def
        word_less_nat_alt)

lemma example_wellFormed:
  "\<forall>u \<in> set exampleUpdates. wellFormedUpdate 2 u"
  by (simp add: exampleUpdates_def exampleSource_def wellFormedUpdate_def kEntireLevel_def
        valid_def Let_def)

lemma example_outside_first:
  "filter (outsideWindow 2 (unat (0::uint32_t)) (unat (1::uint32_t)) (unat (0::uint32_t))
             (unat (2::uint32_t))) exampleUpdates
     = [exampleUpdates ! 2]"
  "filter (\<lambda>u. \<not> outsideWindow 2 (unat (0::uint32_t)) (unat (1::uint32_t))
                   (unat (0::uint32_t)) (unat (2::uint32_t)) u) exampleUpdates
     = [exampleUpdates ! 0, exampleUpdates ! 1, exampleUpdates ! 3]"
  by (simp_all add: exampleUpdates_def outsideWindow_def kEntireLevel_def)

lemma example_outside_second:
  "\<not> outsideWindow 2 (unat (1::uint32_t)) (unat (2::uint32_t)) (unat (0::uint32_t))
        (unat (2::uint32_t)) (exampleUpdates ! 2)"
  by (simp add: exampleUpdates_def outsideWindow_def kEntireLevel_def)

text \<open>
  The example image, flushed for level 0 and then for level 1: the first flush keeps the
  copy to level 1 and applies the other three updates, the second applies that copy and
  empties the queue.
\<close>

theorem C3_windowed_flush_witness:
  "\<exists>w1 w2 new new2.
      flushStagedUpdates 0 1 0 2 exampleRecording = (Inr (), w1)
    \<and> mSubresourceUpdates (self w1) = [exampleUpdates ! 2]
    \<and> commands w1 = commands exampleRecording @ new
    \<and> filter isUpload new
        = map (uploadCommand (self exampleRecording))
            [exampleUpdates ! 0, exampleUpdates ! 1, exampleUpdates ! 3]
    \<and> flushStagedUpdates 1 2 0 2 w1 = (Inr (), w2)
    \<and> mSubresourceUpdates (self w2) = []
    \<and> commands w2 = commands w1 @ new2
    \<and> filter isUpload new2 = [uploadCommand (self exampleRecording) (exampleUpdates ! 2)]"
proof -
  have ne: "mSubresourceUpdates (self exampleRecording) \<noteq> []"
    by (simp add: example_queue exampleUpdates_def)
  have val: "valid (self exampleRecording)"
    by (simp add: exampleRecording_def exampleImage_def valid_def)
  have wf: "\<forall>u \<in> set (mSubresourceUpdates (self exampleRecording)).
              wellFormedUpdate (mLayerCount (self exampleRecording)) u"
    using example_wellFormed by (simp add: example_queue example_layers)
  have win: "(0::uint32_t) < 2"
    by simp
  from C3_windowed_flush [OF ne example_staging_flush val wf win, of 0 1,
      unfolded example_queue example_layers example_outside_first]
  obtain w1 new where r:
    "flushStagedUpdates 0 1 0 2 exampleRecording = (Inr (), w1)"
    "mSubresourceUpdates (self w1) = [exampleUpdates ! 2]"
    "commands w1 = commands exampleRecording @ new"
    "filter isUpload new
        = map (uploadCommand (self exampleRecording))
            [exampleUpdates ! 0, exampleUpdates ! 1, exampleUpdates ! 3]"
    and second: "\<forall>ls2 le2 ys2 ye2. ys2 < ye2
          \<and> (\<forall>u \<in> set (mSubresourceUpdates (self w1)).
                \<not> outsideWindow 2 (unat ls2) (unat le2) (unat ys2) (unat ye2) u)
          \<longrightarrow> (\<exists>w2 new2.
                flushStagedUpdates ls2 le2 ys2 ye2 w1 = (Inr (), w2)
              \<and> mSubresourceUpdates (self w2) = []
              \<and> commands w2 = commands w1 @ new2
              \<and> filter isUpload new2
                  = map (uploadCommand (self exampleRecording))
                      (mSubresourceUpdates (self w1)))"
    by blast
  have "(0::uint32_t) < 2
      \<and> (\<forall>u \<in> set (mSubresourceUpdates (self w1)).
            \<not> outsideWindow 2 (unat (1::uint32_t)) (unat (2::uint32_t)) (unat (0::uint32_t))
                (unat (2::uint32_t)) u)"
    unfolding r(2) using example_outside_second by simp
  with second [rule_format, of 0 2 1 2] obtain w2 new2 where
    "flushStagedUpdates 1 2 0 2 w1 = (Inr (), w2)"
    "mSubresourceUpdates (self w2) = []"
    "commands w2 = commands w1 @ new2"
    "filter isUpload new2
       = map (uploadCommand (self exampleRecording)) (mSubresourceUpdates (self w1))"
    by blast
  with r show ?thesis
    by (intro exI [of _ w1] exI [of _ w2] exI [of _ new] exI [of _ new2]) simp
qed

text \<open>
  What a flush does to the staging buffer of the image.
\<close>

lemma DynamicBuffer_flush_lists:
  assumes "DynamicBuffer_flush ctx s = (r, sb)"
  shows "mInFlightBuffers sb = mInFlightBuffers s" and "mBufferFreeList sb = mBufferFreeList s"
    and "mSize sb = mSize s" and "mBuffer sb = mBuffer s"
  using assms
  by (auto simp add: DynamicBuffer_flush_def split: if_splits option.splits sum.splits)

lemma flushStagedUpdates_stop:
  assumes "mSubresourceUpdates (self w) \<noteq> []"
    and "DynamicBuffer_flush (contextVk w) (mStagingBuffer (self w)) = (Inl e, sb)"
  shows "flushStagedUpdates ls le ys ye w = (Inl e, w)"
proof -
  have "sb = mStagingBuffer (self w)"
    using DynamicBuffer_flush_fails [OF assms(2)] .
  then show ?thesis
    using assms by (simp add: flushStagedUpdates_def)
qed

text \<open>
  Claim C10, amended. On a valid image whose updates pass the assertions of the loop: a
  flush that finds the queue empty returns \<^verbatim>\<open>Continue\<close> and changes nothing; a flush
  whose staging buffer cannot be flushed returns the error and changes nothing; every
  other flush returns \<^verbatim>\<open>Continue\<close>, keeps the updates outside the window, and leaves
  the staging buffer and the collaborator as \<^verbatim>\<open>releaseInFlightBuffers\<close> makes them if
  the queue is empty then, and otherwise as they are once the staging buffer is flushed
  and the applied updates are released, with the same buffers in flight and the same free
  buffers as before the call.
\<close>

theorem C10_release_iff_queue_empty:
  assumes val: "valid (self w)"
    and asserts: "\<forall>u \<in> set (mSubresourceUpdates (self w)). isUpdateValid u
           \<and> \<not> isl (updateSubresource (mLayerCount (self w)) u)"
  shows "(mSubresourceUpdates (self w) = []
            \<longrightarrow> flushStagedUpdates levelStart levelEnd layerStart layerEnd w = (Inr (), w))
    \<and> (\<forall>e sb. mSubresourceUpdates (self w) \<noteq> []
            \<and> DynamicBuffer_flush (contextVk w) (mStagingBuffer (self w)) = (Inl e, sb)
          \<longrightarrow> flushStagedUpdates levelStart levelEnd layerStart layerEnd w = (Inl e, w))
    \<and> (\<forall>sb. mSubresourceUpdates (self w) \<noteq> []
            \<and> DynamicBuffer_flush (contextVk w) (mStagingBuffer (self w)) = (Inr (), sb)
          \<longrightarrow> (\<exists>w1.
                flushStagedUpdates levelStart levelEnd layerStart layerEnd w = (Inr (), w1)
              \<and> mSubresourceUpdates (self w1)
                  = filter (isUpdateOutsideRange (mLayerCount (self w)) levelStart levelEnd
                              layerStart layerEnd)
                      (mSubresourceUpdates (self w))
              \<and> mInFlightBuffers sb = mInFlightBuffers (mStagingBuffer (self w))
              \<and> mBufferFreeList sb = mBufferFreeList (mStagingBuffer (self w))
              \<and> (mStagingBuffer (self w1), contextVk w1)
                  = (let ctxL =
                           fold (\<lambda>u c. SubresourceUpdate_release c u)
                             (filter (\<lambda>u. \<not> isUpdateOutsideRange (mLayerCount (self w))
                                         levelStart levelEnd layerStart layerEnd u)
                                (mSubresourceUpdates (self w)))
                             (contextVk w)
                     in if mSubresourceUpdates (self w1) = []
                        then releaseInFlightBuffers ctxL sb
                        else (sb, ctxL))))"
proof (intro conjI allI impI)
  assume "mSubresourceUpdates (self w) = []"
  then show "flushStagedUpdates levelStart levelEnd layerStart layerEnd w = (Inr (), w)"
    by (simp add: flushStagedUpdates_def)
next
  fix e sb
  assume "mSubresourceUpdates (self w) \<noteq> []
            \<and> DynamicBuffer_flush (contextVk w) (mStagingBuffer (self w)) = (Inl e, sb)"
  then show "flushStagedUpdates levelStart levelEnd layerStart layerEnd w = (Inl e, w)"
    using flushStagedUpdates_stop by blast
next
  fix sb
  assume a: "mSubresourceUpdates (self w) \<noteq> []
            \<and> DynamicBuffer_flush (contextVk w) (mStagingBuffer (self w)) = (Inr (), sb)"
  then have ne: "mSubresourceUpdates (self w) \<noteq> []"
    and fl: "DynamicBuffer_flush (contextVk w) (mStagingBuffer (self w)) = (Inr (), sb)"
    by simp_all
  from flushStagedUpdates_result [OF ne fl val asserts refl refl refl,
      of levelStart levelEnd layerStart layerEnd]
  obtain w1 new where r:
    "flushStagedUpdates levelStart levelEnd layerStart layerEnd w = (Inr (), w1)"
    and s1: "self w1 = (self w)\<lparr>mCurrentLayout := TransferDst,
        mStagingBuffer :=
          (if filter (isUpdateOutsideRange (mLayerCount (self w)) levelStart levelEnd
                        layerStart layerEnd) (mSubresourceUpdates (self w)) = []
           then fst (releaseInFlightBuffers
                  (fold (\<lambda>u c. SubresourceUpdate_release c u)
                     (filter (\<lambda>u. \<not> isUpdateOutsideRange (mLayerCount (self w))
                                 levelStart levelEnd layerStart layerEnd u)
                        (mSubresourceUpdates (self w)))
                     (contextVk w)) sb)
           else sb),
        mSubresourceUpdates :=
          filter (isUpdateOutsideRange (mLayerCount (self w)) levelStart levelEnd
                    layerStart layerEnd) (mSubresourceUpdates (self w))\<rparr>"
    and c1: "contextVk w1
        = (if filter (isUpdateOutsideRange (mLayerCount (self w)) levelStart levelEnd
                        layerStart layerEnd) (mSubresourceUpdates (self w)) = []
           then snd (releaseInFlightBuffers
                  (fold (\<lambda>u c. SubresourceUpdate_release c u)
                     (filter (\<lambda>u. \<not> isUpdateOutsideRange (mLayerCount (self w))
                                 levelStart levelEnd layerStart layerEnd u)
                        (mSubresourceUpdates (self w)))
                     (contextVk w)) sb)
           else fold (\<lambda>u c. SubresourceUpdate_release c u)
                     (filter (\<lambda>u. \<not> isUpdateOutsideRange (mLayerCount (self w))
                                 levelStart levelEnd layerStart layerEnd u)
                        (mSubresourceUpdates (self w)))
                     (contextVk w))"
    by blast
  show "\<exists>w1.
                flushStagedUpdates levelStart levelEnd layerStart layerEnd w = (Inr (), w1)
              \<and> mSubresourceUpdates (self w1)
                  = filter (isUpdateOutsideRange (mLayerCount (self w)) levelStart levelEnd
                              layerStart layerEnd)
                      (mSubresourceUpdates (self w))
              \<and> mInFlightBuffers sb = mInFlightBuffers (mStagingBuffer (self w))
              \<and> mBufferFreeList sb = mBufferFreeList (mStagingBuffer (self w))
              \<and> (mStagingBuffer (self w1), contextVk w1)
                  = (let ctxL =
                           fold (\<lambda>u c. SubresourceUpdate_release c u)
                             (filter (\<lambda>u. \<not> isUpdateOutsideRange (mLayerCount (self w))
                                         levelStart levelEnd layerStart layerEnd u)
                                (mSubresourceUpdates (self w)))
                             (contextVk w)
                     in if mSubresourceUpdates (self w1) = []
                        then releaseInFlightBuffers ctxL sb
                        else (sb, ctxL))"
    using r DynamicBuffer_flush_lists(1,2) [OF fl]
    by (intro exI [of _ w1]) (simp add: s1 c1 Let_def)
qed


lemma example_busy_fields:
  "mSubresourceUpdates (self exampleRecordingBusy) = exampleUpdates"
  "mLayerCount (self exampleRecordingBusy) = 2"
  "mStagingBuffer (self exampleRecordingBusy) = exampleBufferGrown"
  "contextVk exampleRecordingBusy = exampleContextGrown"
  "valid (self exampleRecordingBusy)"
  by (simp_all add: exampleRecordingBusy_def exampleImage_def valid_def)

lemma example_busy_flush:
  "DynamicBuffer_flush exampleContextGrown exampleBufferGrown
     = (Inr (), exampleBufferGrown\<lparr>mLastFlushOrInvalidateOffset := 2000\<rparr>)"
  by (simp add: exampleBufferGrown_def exampleBuffer_def exampleContextGrown_def
        exampleContext_def DynamicBuffer_flush_def BufferHelper_flush_def word_less_nat_alt)

lemma example_asserts:
  "\<forall>u \<in> set exampleUpdates. isUpdateValid u \<and> \<not> isl (updateSubresource 2 u)"
  by (simp add: exampleUpdates_def exampleSource_def kEntireLevel_def valid_def Let_def)

lemma example_kept_level0:
  "filter (isUpdateOutsideRange 2 0 1 0 2) exampleUpdates = [exampleUpdates ! 2]"
  by (simp add: exampleUpdates_def isUpdateOutsideRange_def isOutsideRange_def
        kEntireLevel_def Let_def word_le_nat_alt word_less_nat_alt)

lemma example_kept_all:
  "filter (isUpdateOutsideRange 2 0 2 0 2) exampleUpdates = []"
  by (simp add: exampleUpdates_def isUpdateOutsideRange_def isOutsideRange_def
        kEntireLevel_def Let_def word_le_nat_alt word_less_nat_alt)

lemma example_busy_release:
  "mInFlightBuffers (fst (releaseInFlightBuffers ctx
       (exampleBufferGrown\<lparr>mLastFlushOrInvalidateOffset := 2000\<rparr>))) = []"
  "map bh_handle (mBufferFreeList (fst (releaseInFlightBuffers ctx
       (exampleBufferGrown\<lparr>mLastFlushOrInvalidateOffset := 2000\<rparr>)))) = [2]"
  by (simp_all add: releaseInFlightBuffers_def exampleBufferGrown_def exampleBuffer_def
        word_less_nat_alt split: prod.splits)

text \<open>
  The example image with two staging buffers in flight: flushed for level 0 it keeps one
  update and both buffers stay in flight; flushed for both levels its queue is empty, no
  buffer is in flight and the buffer of the current size is free.
\<close>

theorem C10_release_iff_queue_empty_witness:
  "\<exists>w1 w2.
      flushStagedUpdates 0 1 0 2 exampleRecordingBusy = (Inr (), w1)
    \<and> mSubresourceUpdates (self w1) = [exampleUpdates ! 2]
    \<and> map bh_handle (mInFlightBuffers (mStagingBuffer (self w1))) = [1, 2]
    \<and> mBufferFreeList (mStagingBuffer (self w1)) = []
    \<and> flushStagedUpdates 0 2 0 2 exampleRecordingBusy = (Inr (), w2)
    \<and> mSubresourceUpdates (self w2) = []
    \<and> mInFlightBuffers (mStagingBuffer (self w2)) = []
    \<and> map bh_handle (mBufferFreeList (mStagingBuffer (self w2))) = [2]"
proof -
  have asserts: "\<forall>u \<in> set (mSubresourceUpdates (self exampleRecordingBusy)). isUpdateValid u
           \<and> \<not> isl (updateSubresource (mLayerCount (self exampleRecordingBusy)) u)"
    using example_asserts by (simp add: example_busy_fields)
  have pre: "mSubresourceUpdates (self exampleRecordingBusy) \<noteq> []
      \<and> DynamicBuffer_flush (contextVk exampleRecordingBusy)
            (mStagingBuffer (self exampleRecordingBusy))
          = (Inr (), exampleBufferGrown\<lparr>mLastFlushOrInvalidateOffset := 2000\<rparr>)"
    by (simp add: example_busy_fields example_busy_flush exampleUpdates_def)
  note third = C10_release_iff_queue_empty [OF example_busy_fields(5) asserts,
      THEN conjunct2, THEN conjunct2, rule_format, OF pre,
      unfolded example_busy_fields]
  from third [of 0 1 0 2] obtain w1 where w1:
    "flushStagedUpdates 0 1 0 2 exampleRecordingBusy = (Inr (), w1)"
    "mSubresourceUpdates (self w1) = [exampleUpdates ! 2]"
    "mStagingBuffer (self w1) = exampleBufferGrown\<lparr>mLastFlushOrInvalidateOffset := 2000\<rparr>"
    unfolding example_kept_level0 by (auto simp add: Let_def)
  from third [of 0 2 0 2] obtain w2 ctx where w2:
    "flushStagedUpdates 0 2 0 2 exampleRecordingBusy = (Inr (), w2)"
    "mSubresourceUpdates (self w2) = []"
    and p2: "(mStagingBuffer (self w2), contextVk w2)
       = releaseInFlightBuffers ctx
           (exampleBufferGrown\<lparr>mLastFlushOrInvalidateOffset := 2000\<rparr>)"
    unfolding example_kept_all by (auto simp add: Let_def)
  have s2: "mStagingBuffer (self w2)
       = fst (releaseInFlightBuffers ctx
                (exampleBufferGrown\<lparr>mLastFlushOrInvalidateOffset := 2000\<rparr>))"
    using arg_cong [OF p2, of fst] by simp
  have a: "map bh_handle (mInFlightBuffers (mStagingBuffer (self w1))) = [1, 2]"
    and b: "mBufferFreeList (mStagingBuffer (self w1)) = []"
    unfolding w1(3) by (simp_all add: exampleBufferGrown_def exampleBuffer_def)
  have c: "mInFlightBuffers (mStagingBuffer (self w2)) = []"
    and d: "map bh_handle (mBufferFreeList (mStagingBuffer (self w2))) = [2]"
    unfolding s2 by (rule example_busy_release)+
  show ?thesis
    by (intro exI [of _ w1] exI [of _ w2] conjI) (rule w1(1) w1(2) a b w2(1) w2(2) c d)+
qed

text \<open>
  Claim C10 as stated fails for a flush that finds the queue empty: the queue is empty
  after the call, and the two buffers are still in flight, where
  \<^verbatim>\<open>releaseInFlightBuffers\<close> leaves none in flight.
\<close>

theorem C10_counterexample:
  "flushStagedUpdates 0 2 0 2 exampleRecordingIdle = (Inr (), exampleRecordingIdle)
   \<and> mSubresourceUpdates (self exampleRecordingIdle) = []
   \<and> map bh_handle (mInFlightBuffers (mStagingBuffer (self exampleRecordingIdle))) = [1, 2]
   \<and> mInFlightBuffers
        (fst (releaseInFlightBuffers (contextVk exampleRecordingIdle)
                (mStagingBuffer (self exampleRecordingIdle)))) = []"
  by (simp add: flushStagedUpdates_def exampleRecordingIdle_def exampleImage_def
        exampleBufferGrown_def exampleBuffer_def releaseInFlightBuffers_def
        word_less_nat_alt split: prod.splits)

text \<open>
  The barriers of the flush. Appending a command keeps a list separated if no unfenced
  command writes what it writes.
\<close>

lemma unfenced_snoc:
  "unfenced img (cs @ [c])
     = (if isTransferDstBarrier img c then [] else unfenced img cs @ [c])"
  by (simp add: unfenced_def)

lemma unfenced_member:
  assumes "i < length cs" and "\<forall>k. i \<le> k \<and> k < length cs \<longrightarrow> \<not> isTransferDstBarrier img (cs ! k)"
  shows "cs ! i \<in> set (unfenced img cs)"
  using assms
proof (induction cs rule: rev_induct)
  case Nil
  then show ?case
    by simp
next
  case (snoc c cs)
  have nb: "\<not> isTransferDstBarrier img c"
    using snoc.prems(2) [rule_format, of "length cs"] snoc.prems(1) by simp
  show ?case
  proof (cases "i < length cs")
    case True
    have "\<forall>k. i \<le> k \<and> k < length cs \<longrightarrow> \<not> isTransferDstBarrier img (cs ! k)"
    proof (intro allI impI)
      fix k
      assume k: "i \<le> k \<and> k < length cs"
      then show "\<not> isTransferDstBarrier img (cs ! k)"
        using snoc.prems(2) [rule_format, of k] by (simp add: nth_append)
    qed
    from snoc.IH [OF True this] show ?thesis
      using True nb by (simp add: unfenced_snoc nth_append)
  next
    case False
    then have "i = length cs"
      using snoc.prems(1) by simp
    then show ?thesis
      using nb by (simp add: unfenced_snoc)
  qed
qed

lemma write_not_barrier:
  "writesSubresource img level layer c \<Longrightarrow> \<not> isTransferDstBarrier img c"
  by (cases c) simp_all

lemma separated_snoc:
  assumes sep: "separated img cs"
    and new: "\<forall>level layer. writesSubresource img level layer c
                \<longrightarrow> (\<forall>x \<in> set (unfenced img cs). \<not> writesSubresource img level layer x)"
  shows "separated img (cs @ [c])"
  unfolding separated_def
proof (intro allI impI)
  fix i j level layer
  assume a: "i < j \<and> j < length (cs @ [c])
        \<and> writesSubresource img level layer ((cs @ [c]) ! i)
        \<and> writesSubresource img level layer ((cs @ [c]) ! j)"
  show "\<exists>k. i < k \<and> k < j \<and> isTransferDstBarrier img ((cs @ [c]) ! k)"
  proof (cases "j < length cs")
    case True
    have il: "i < length cs"
      using True a by simp
    have "writesSubresource img level layer (cs ! i)"
      and "writesSubresource img level layer (cs ! j)"
      using a True il by (simp_all add: nth_append)
    then have "\<exists>k. i < k \<and> k < j \<and> isTransferDstBarrier img (cs ! k)"
      using a True sep [unfolded separated_def, rule_format, of i j level layer]
      by blast
    then obtain k where "i < k" "k < j" "isTransferDstBarrier img (cs ! k)"
      by blast
    then show ?thesis
      using True by (intro exI [of _ k]) (simp add: nth_append)
  next
    case False
    then have j: "j = length cs"
      using a by simp
    have wi: "writesSubresource img level layer (cs ! i)" and i: "i < length cs"
      and wc: "writesSubresource img level layer c"
      using a j by (auto simp add: nth_append)
    show ?thesis
    proof (rule ccontr)
      assume no: "\<not> (\<exists>k. i < k \<and> k < j \<and> isTransferDstBarrier img ((cs @ [c]) ! k))"
      have "\<forall>k. i \<le> k \<and> k < length cs \<longrightarrow> \<not> isTransferDstBarrier img (cs ! k)"
      proof (intro allI impI)
        fix k
        assume k: "i \<le> k \<and> k < length cs"
        show "\<not> isTransferDstBarrier img (cs ! k)"
        proof (cases "k = i")
          case True
          then show ?thesis
            using write_not_barrier [OF wi] by simp
        next
          case False
          then show ?thesis
            using no k j by (auto simp add: nth_append)
        qed
      qed
      from unfenced_member [OF i this] have "cs ! i \<in> set (unfenced img cs)" .
      then show False
        using new wc wi by blast
    qed
  qed
qed

lemma covered_fence:
  assumes "isTransferDstBarrier img c"
  shows "covered img layers (cs @ [c]) m"
  using assms by (simp add: covered_def unfenced_snoc)

lemma covered_snoc:
  assumes "covered img layers cs m"
    and "\<forall>level layer. writesSubresource img level layer c
           \<longrightarrow> bit m' ((level * layers + layer) mod 64)"
    and "\<forall>n. bit m n \<longrightarrow> bit m' n"
  shows "covered img layers (cs @ [c]) m'"
  using assms by (auto simp add: covered_def unfenced_snoc)



text \<open>
  The hash of an update: the bits \<open>(p + i) mod 64\<close> for \<open>i\<close> below the layer count, where
  \<open>p\<close> is \<open>(level * mLayerCount + baseLayer) mod 64\<close>; the 32-bit arithmetic of the source
  gives the same position, since 64 divides \<open>2\<^sup>3\<^sup>2\<close>.
\<close>

lemma hashOffset_nat:
  fixes l lc b :: uint32_t
  shows "unat ((l * lc + b) mod kMaxParallelSubresourceUpload)
           = (unat l * unat lc + unat b) mod 64"
proof -
  have "unat (l * lc + b) = (unat l * unat lc + unat b) mod 2 ^ 32"
    by (simp add: unat_word_ariths mod_add_left_eq)
  moreover have "(64::nat) dvd 2 ^ 32"
    by simp
  ultimately show ?thesis
    by (simp add: kMaxParallelSubresourceUpload_def unat_mod mod_mod_cancel)
qed

lemma rotated_range:
  fixes n p c :: nat
  assumes "n < 64" and "p < 64" and "c \<le> 64"
  shows "(n + (64 - p)) mod 64 < c \<longleftrightarrow> (\<exists>i<c. n = (p + i) mod 64)"
proof
  assume a: "(n + (64 - p)) mod 64 < c"
  have "n + (64 - p) = n + 64 - p"
    using assms(2) by simp
  have "n = (p + (n + (64 - p)) mod 64) mod 64"
  proof (cases "p \<le> n")
    case True
    then have "(n + (64 - p)) mod 64 = n - p"
      using assms(1,2) by (simp add: mod_if)
    then show ?thesis
      using True assms(1) by simp
  next
    case False
    then have "(n + (64 - p)) mod 64 = n + 64 - p"
      using assms(1,2) by (simp add: mod_if)
    then show ?thesis
      using False assms(1,2) by (simp add: mod_if)
  qed
  then show "\<exists>i<c. n = (p + i) mod 64"
    using a by blast
next
  assume "\<exists>i<c. n = (p + i) mod 64"
  then obtain i where i: "i < c" and n: "n = (p + i) mod 64"
    by blast
  have i64: "i < 64"
    using i assms(3) by simp
  have "((p + i) mod 64 + (64 - p)) mod 64 = i"
  proof (cases "p + i < 64")
    case True
    then show ?thesis
      using assms(2) i64 by (simp add: mod_if)
  next
    case False
    then have "(p + i) mod 64 = p + i - 64"
      using assms(2) i64 by (simp add: mod_if)
    then show ?thesis
      using False assms(2) i64 by (simp add: mod_if)
  qed
  then show "(n + (64 - p)) mod 64 < c"
    using i n by simp
qed


lemma hashRange_mask:
  fixes c :: uint32_t
  shows "Bit c - 1 = (mask (unat c) :: uint64_t)"
  by (simp add: Bit_def mask_eq_exp_minus_1)

lemma subresourceHash_rotl:
  fixes c p :: uint32_t
  assumes "unat p < 64"
  shows "bit (ANGLE_ROTL64 (Bit c - 1) p) n
      \<longleftrightarrow> n < 64 \<and> (n + (64 - unat p)) mod 64 < unat c"
  unfolding ANGLE_ROTL64_def hashRange_mask bit_word_rotl_iff bit_mask_iff
  using assms by simp


lemma subresourceHash_bits:
  fixes c p :: uint32_t
  assumes "unat c < 64" and "unat p < 64"
  shows "bit (ANGLE_ROTL64 (Bit c - 1) p) n
     \<longleftrightarrow> n < 64 \<and> (\<exists>i<unat c. n = (unat p + i) mod 64)"
proof (cases "n < 64")
  case True
  have "unat c \<le> 64"
    using assms(1) by simp
  from rotated_range [OF True assms(2) this] show ?thesis
    unfolding subresourceHash_rotl [OF assms(2)] using True by simp
next
  case False
  then show ?thesis
    unfolding subresourceHash_rotl [OF assms(2)] by simp
qed


lemma covered_mono:
  assumes "covered img layers cs m" and "\<forall>n. bit m n \<longrightarrow> bit m' n"
  shows "covered img layers cs m'"
  using assms by (auto simp add: covered_def)

lemma barrier_writes_nothing:
  "\<not> writesSubresource img level layer (ImageBarrier s d b)"
  by simp

lemma subresourceHash_covers:
  fixes l lc b c :: uint32_t
  assumes c: "unat c < 64" and lo: "unat b \<le> layer" and hi: "layer < unat b + unat c"
  shows "bit (ANGLE_ROTL64 (Bit c - 1) ((l * lc + b) mod kMaxParallelSubresourceUpload))
           ((unat l * unat lc + layer) mod 64)"
proof -
  let ?p = "(l * lc + b) mod kMaxParallelSubresourceUpload"
  have p: "unat ?p = (unat l * unat lc + unat b) mod 64"
    by (rule hashOffset_nat)
  then have p64: "unat ?p < 64"
    by simp
  have i: "layer - unat b < unat c"
    using lo hi by simp
  have "(unat ?p + (layer - unat b)) mod 64
          = (unat l * unat lc + unat b + (layer - unat b)) mod 64"
    unfolding p by (simp add: mod_add_left_eq)
  also have "\<dots> = (unat l * unat lc + layer) mod 64"
    using lo by simp
  finally have "(unat l * unat lc + layer) mod 64 = (unat ?p + (layer - unat b)) mod 64"
    by simp
  then show ?thesis
    unfolding subresourceHash_bits [OF c p64] using i by auto
qed


text \<open>
  The bookkeeping keeps the invariant, and leaves every subresource of the update fenced
  and with its bit set; so does the loop body, and the loop.
\<close>

lemma trackSubresourceUpload_fence:
  assumes lay: "mCurrentLayout (self st) = TransferDst"
    and cov: "covered (mImage (self st)) (unat (mLayerCount (self st))) cs
                (subresourceUploadsInProgress st)"
    and sep: "separated (mImage (self st)) cs"
    and cmds: "commands st = pre @ cs"
  shows "\<exists>st1 cs1. trackSubresourceUpload a (l, b, c) st = Inr st1
     \<and> self st1 = self st \<and> contextVk st1 = contextVk st
     \<and> readDependencies st1 = readDependencies st \<and> updatesToKeep st1 = updatesToKeep st
     \<and> commands st1 = pre @ cs1
     \<and> covered (mImage (self st)) (unat (mLayerCount (self st))) cs1
           (subresourceUploadsInProgress st1)
     \<and> separated (mImage (self st)) cs1
     \<and> (\<forall>layer. unat b \<le> layer \<and> layer < unat b + unat c
           \<longrightarrow> bit (subresourceUploadsInProgress st1)
                 ((unat l * unat (mLayerCount (self st)) + layer) mod 64)
               \<and> (\<forall>x \<in> set (unfenced (mImage (self st)) cs1).
                     \<not> writesSubresource (mImage (self st)) (unat l) layer x))"
proof -
  let ?img = "mImage (self st)"
  let ?LC = "unat (mLayerCount (self st))"
  let ?m = "subresourceUploadsInProgress st"
  let ?h = "ANGLE_ROTL64 (Bit c - 1)
              ((l * mLayerCount (self st) + b) mod kMaxParallelSubresourceUpload)"
  obtain s d bar where cl:
    "changeLayout a TransferDst (self st) (commands st)
       = Inr (self st, commands st @ [ImageBarrier s d bar])"
    and bi: "imb_image bar = ?img"
    and bl: "imb_newLayout bar = VK_IMAGE_LAYOUT_TRANSFER_DST_OPTIMAL"
    using changeLayout_TransferDst_again [OF lay] by blast
  let ?bc = "ImageBarrier s d bar"
  have isb: "isTransferDstBarrier ?img ?bc"
    using bi bl by simp
  have sepb: "separated ?img (cs @ [?bc])"
    by (rule separated_snoc [OF sep]) simp
  have unfb: "unfenced ?img (cs @ [?bc]) = []"
    using isb by (simp add: unfenced_snoc)
  show ?thesis
  proof (cases "kMaxParallelSubresourceUpload \<le> c")
    case True
    let ?st1 = "st\<lparr>self := self st, commands := commands st @ [?bc],
                     subresourceUploadsInProgress := - 1\<rparr>"
    have tr: "trackSubresourceUpload a (l, b, c) st = Inr ?st1"
      using True by (simp add: trackSubresourceUpload_def cl)
    have bits: "\<forall>n. bit (- 1 :: uint64_t) (n mod 64)"
      by (simp add: bit_minus_1_iff)
    show ?thesis
      using tr sepb covered_fence [OF isb] unfb bits cmds
      by (intro exI [of _ ?st1] exI [of _ "cs @ [?bc]"]) simp
  next
    case False
    then have c64: "unat c < 64"
      by (simp add: kMaxParallelSubresourceUpload_def word_le_nat_alt)
    have hb: "bit ?h ((unat l * ?LC + layer) mod 64)"
      if "unat b \<le> layer \<and> layer < unat b + unat c" for layer
      using subresourceHash_covers [OF c64, of b layer l "mLayerCount (self st)"] that
      by simp
    show ?thesis
    proof (cases "?m AND ?h \<noteq> 0")
      case True
      let ?st1 = "st\<lparr>self := self st, commands := commands st @ [?bc],
                       subresourceUploadsInProgress := 0 OR ?h\<rparr>"
      have tr: "trackSubresourceUpload a (l, b, c) st = Inr ?st1"
        using True \<open>\<not> kMaxParallelSubresourceUpload \<le> c\<close>
        by (simp add: trackSubresourceUpload_def cl Let_def)
      show ?thesis
        using tr sepb covered_fence [OF isb] unfb hb cmds
        by (intro exI [of _ ?st1] exI [of _ "cs @ [?bc]"]) simp
    next
      case False
      then have disj: "?m AND ?h = 0"
        by simp
      let ?st1 = "st\<lparr>subresourceUploadsInProgress := ?m OR ?h\<rparr>"
      have tr: "trackSubresourceUpload a (l, b, c) st = Inr ?st1"
        using disj \<open>\<not> kMaxParallelSubresourceUpload \<le> c\<close>
        by (simp add: trackSubresourceUpload_def Let_def)
      have cov1: "covered ?img ?LC cs (?m OR ?h)"
        by (rule covered_mono [OF cov]) (simp add: bit_or_iff)
      have free: "\<not> writesSubresource ?img (unat l) layer x"
        if r: "unat b \<le> layer \<and> layer < unat b + unat c"
          and x: "x \<in> set (unfenced ?img cs)" for layer x
      proof
        assume w: "writesSubresource ?img (unat l) layer x"
        have "bit ?m ((unat l * ?LC + layer) mod 64)"
          using cov x w by (auto simp add: covered_def)
        then have "bit (?m AND ?h) ((unat l * ?LC + layer) mod 64)"
          using hb [OF r] by (simp add: bit_and_iff)
        then show False
          unfolding disj by simp
      qed
      show ?thesis
        using tr sep cov1 hb free cmds
        by (intro exI [of _ ?st1] exI [of _ cs]) (simp add: bit_or_iff)
    qed
  qed
qed


lemma uploadCommand_writes:
  assumes "writesSubresource (mImage img) level layer (uploadCommand img u)"
    and "updateSubresource (mLayerCount img) u = Inr (l, b, c)"
  shows "level = unat l \<and> unat b \<le> layer \<and> layer < unat b + unat c"
  using assms
  by (cases u) (auto simp add: Let_def split: if_splits)

lemma unfenced_append_others:
  assumes "\<forall>c \<in> set bs. \<not> isTransferDstBarrier img c"
  shows "unfenced img (cs @ bs) = unfenced img cs @ bs"
proof -
  have "takeWhile (\<lambda>c. \<not> isTransferDstBarrier img c) (rev bs @ rev cs)
          = rev bs @ takeWhile (\<lambda>c. \<not> isTransferDstBarrier img c) (rev cs)"
    by (rule takeWhile_append2) (use assms in simp)
  then show ?thesis
    by (simp add: unfenced_def)
qed

lemma separated_append_others:
  assumes "separated img cs" and "\<forall>c \<in> set bs. \<forall>level layer. \<not> writesSubresource img level layer c"
  shows "separated img (cs @ bs)"
  using assms(2)
proof (induction bs rule: rev_induct)
  case Nil
  then show ?case
    using assms(1) by simp
next
  case (snoc c bs)
  then have "separated img (cs @ bs)"
    by simp
  then have "separated img ((cs @ bs) @ [c])"
    by (rule separated_snoc) (use snoc.prems in simp)
  then show ?case
    by simp
qed

lemma source_barriers:
  assumes "\<forall>c \<in> set bs. \<exists>s d b. c = ImageBarrier s d b
            \<and> imb_newLayout b = VK_IMAGE_LAYOUT_TRANSFER_SRC_OPTIMAL"
  shows "\<forall>c \<in> set bs. \<not> isTransferDstBarrier img c"
    and "\<forall>c \<in> set bs. \<forall>level layer. \<not> writesSubresource img level layer c"
  using assms by auto


lemma flushUpdate_fence:
  assumes lay: "mCurrentLayout (self st) = TransferDst" and val: "valid (self st)"
    and uv: "isUpdateValid u"
    and res: "\<not> isl (updateSubresource (mLayerCount (self st)) u)"
    and cov: "covered (mImage (self st)) (unat (mLayerCount (self st))) cs
                (subresourceUploadsInProgress st)"
    and sep: "separated (mImage (self st)) cs"
    and cmds: "commands st = pre @ cs"
  shows "\<exists>st' cs'. flushUpdate a ls le ys ye u st = Inr st'
     \<and> self st' = self st \<and> commands st' = pre @ cs'
     \<and> covered (mImage (self st)) (unat (mLayerCount (self st))) cs'
           (subresourceUploadsInProgress st')
     \<and> separated (mImage (self st)) cs'"
proof (cases "isUpdateOutsideRange (mLayerCount (self st)) ls le ys ye u")
  case True
  show ?thesis
    using flushUpdate_kept [OF uv True, of a] cov sep cmds
    by (intro exI [of _ "st\<lparr>updatesToKeep := updatesToKeep st @ [u]\<rparr>"] exI [of _ cs]) simp
next
  case False
  let ?img = "mImage (self st)"
  let ?LC = "unat (mLayerCount (self st))"
  obtain t where t: "updateSubresource (mLayerCount (self st)) u = Inr t"
    using res by (cases "updateSubresource (mLayerCount (self st)) u") auto
  obtain l b c where lbc: "t = (l, b, c)"
    by (cases t) auto
  have out: "\<not> isOutsideRange ls le ys ye t"
    using False by (simp add: isUpdateOutsideRange_def t)
  obtain st1 cs1 where tr: "trackSubresourceUpload a t st = Inr st1"
    and f1: "self st1 = self st" "contextVk st1 = contextVk st" "commands st1 = pre @ cs1"
    and cov1: "covered ?img ?LC cs1 (subresourceUploadsInProgress st1)"
    and sep1: "separated ?img cs1"
    and reg: "\<forall>layer. unat b \<le> layer \<and> layer < unat b + unat c
           \<longrightarrow> bit (subresourceUploadsInProgress st1) ((unat l * ?LC + layer) mod 64)
               \<and> (\<forall>x \<in> set (unfenced ?img cs1). \<not> writesSubresource ?img (unat l) layer x)"
    using trackSubresourceUpload_fence [OF lay cov sep cmds, of a l b c]
    unfolding lbc by blast
  have lay1: "mCurrentLayout (self st1) = TransferDst" and val1: "valid (self st1)"
    and t1: "updateSubresource (mLayerCount (self st1)) u = Inr t"
    using lay val t f1(1) by simp_all
  obtain u1 st2 bs where ap: "applyUpdate a t u st1 = Inr (u1, st2)"
    and f2: "self st2 = self st1"
      "subresourceUploadsInProgress st2 = subresourceUploadsInProgress st1"
      "commands st2 = commands st1 @ bs @ [uploadCommand (self st1) u]"
    and bs: "\<forall>c \<in> set bs. \<exists>s d b. c = ImageBarrier s d b
            \<and> imb_newLayout b = VK_IMAGE_LAYOUT_TRANSFER_SRC_OPTIMAL"
    using applyUpdate_frame [OF lay1 val1 uv t1, of a] by blast
  let ?x = "uploadCommand (self st) u"
  note nb = source_barriers [OF bs, of ?img]
  have unf: "unfenced ?img (cs1 @ bs) = unfenced ?img cs1 @ bs"
    by (rule unfenced_append_others [OF nb(1)])
  have sep2: "separated ?img (cs1 @ bs)"
    by (rule separated_append_others [OF sep1 nb(2)])
  have cov2: "covered ?img ?LC (cs1 @ bs) (subresourceUploadsInProgress st1)"
    using cov1 nb(2) by (auto simp add: covered_def unf)
  have wx: "level = unat l \<and> unat b \<le> layer \<and> layer < unat b + unat c"
    if "writesSubresource ?img level layer ?x" for level layer
    using uploadCommand_writes [OF that] t lbc by simp
  have sep3: "separated ?img ((cs1 @ bs) @ [?x])"
  proof (rule separated_snoc [OF sep2], intro allI impI ballI)
    fix level layer z
    assume w: "writesSubresource ?img level layer ?x"
      and z: "z \<in> set (unfenced ?img (cs1 @ bs))"
    from wx [OF w] have lv: "level = unat l"
      and r: "unat b \<le> layer \<and> layer < unat b + unat c"
      by simp_all
    show "\<not> writesSubresource ?img level layer z"
      using z reg [rule_format, OF r] nb(2) unfolding unf lv by auto
  qed
  have cov3: "covered ?img ?LC ((cs1 @ bs) @ [?x]) (subresourceUploadsInProgress st1)"
  proof (rule covered_snoc [OF cov2], intro allI impI)
    fix level layer
    assume w: "writesSubresource ?img level layer ?x"
    from wx [OF w] have lv: "level = unat l"
      and r: "unat b \<le> layer \<and> layer < unat b + unat c"
      by simp_all
    show "bit (subresourceUploadsInProgress st1) ((level * ?LC + layer) mod 64)"
      using reg [rule_format, OF r] unfolding lv by simp
  qed simp
  have "flushUpdate a ls le ys ye u st
          = Inr (st2\<lparr>contextVk := SubresourceUpdate_release (contextVk st2) u1\<rparr>)"
    by (simp add: flushUpdate_def uv t out tr ap)
  then show ?thesis
    using f1 f2 sep3 cov3
    by (intro exI [of _ "st2\<lparr>contextVk := SubresourceUpdate_release (contextVk st2) u1\<rparr>"]
          exI [of _ "(cs1 @ bs) @ [?x]"]) simp
qed

lemma flushStagedUpdates_loop_fence:
  assumes "mCurrentLayout (self st) = TransferDst" and "valid (self st)"
    and "\<forall>u \<in> set us. isUpdateValid u
           \<and> \<not> isl (updateSubresource (mLayerCount (self st)) u)"
    and "covered (mImage (self st)) (unat (mLayerCount (self st))) cs
                (subresourceUploadsInProgress st)"
    and "separated (mImage (self st)) cs"
    and "commands st = pre @ cs"
  shows "\<exists>st' cs'. flushStagedUpdates_loop a ls le ys ye us st = Inr st'
     \<and> commands st' = pre @ cs' \<and> separated (mImage (self st)) cs'"
  using assms
proof (induction us arbitrary: st cs)
  case Nil
  then show ?case
    by simp
next
  case (Cons u us)
  have uv: "isUpdateValid u"
    and res: "\<not> isl (updateSubresource (mLayerCount (self st)) u)"
    using Cons.prems(3) by simp_all
  obtain st1 cs1 where step: "flushUpdate a ls le ys ye u st = Inr st1"
    and f: "self st1 = self st" "commands st1 = pre @ cs1"
    and cov1: "covered (mImage (self st)) (unat (mLayerCount (self st))) cs1
           (subresourceUploadsInProgress st1)"
    and sep1: "separated (mImage (self st)) cs1"
    using flushUpdate_fence [OF Cons.prems(1,2) uv res Cons.prems(4,5,6), of a ls le ys ye]
    by blast
  have "mCurrentLayout (self st1) = TransferDst" and "valid (self st1)"
    and "\<forall>u \<in> set us. isUpdateValid u
           \<and> \<not> isl (updateSubresource (mLayerCount (self st1)) u)"
    and "covered (mImage (self st1)) (unat (mLayerCount (self st1))) cs1
                (subresourceUploadsInProgress st1)"
    and "separated (mImage (self st1)) cs1"
    using Cons.prems cov1 sep1 by (simp_all add: f(1))
  from Cons.IH [OF this f(2)] obtain st' cs' where
    "flushStagedUpdates_loop a ls le ys ye us st1 = Inr st'"
    "commands st' = pre @ cs'" "separated (mImage (self st1)) cs'"
    by blast
  then show ?case
    using step f(1) by (intro exI [of _ st'] exI [of _ cs']) simp
qed



text \<open>
  The three cases of the bookkeeping.
\<close>

lemma changeLayout_TransferDst_fence:
  "\<exists>s d b. changeLayout a TransferDst img cb
       = Inr (img\<lparr>mCurrentLayout := TransferDst\<rparr>, cb @ [ImageBarrier s d b])
     \<and> isTransferDstBarrier (mImage img) (ImageBarrier s d b)"
proof -
  obtain s d b where "changeLayout a TransferDst img cb
       = Inr (img\<lparr>mCurrentLayout := TransferDst\<rparr>, cb @ [ImageBarrier s d b])"
    and "imb_image b = mImage img" and "imb_newLayout b = VK_IMAGE_LAYOUT_TRANSFER_DST_OPTIMAL"
    using changeLayout_TransferDst [of a img cb] by blast
  then show ?thesis
    by (intro exI [of _ s] exI [of _ d] exI [of _ b]) simp
qed

lemma subresourceHash_position:
  fixes level lc base cnt :: uint32_t
  assumes c64: "unat cnt < 64"
  shows "\<forall>n. bit (ANGLE_ROTL64 (Bit cnt - 1)
                  ((level * lc + base) mod kMaxParallelSubresourceUpload)) n
           \<longleftrightarrow> n < 64
               \<and> (\<exists>i<unat cnt. n = ((unat level * unat lc + unat base) mod 64 + i) mod 64)"
proof
  fix n
  let ?p = "(level * lc + base) mod kMaxParallelSubresourceUpload"
  have p: "unat ?p = (unat level * unat lc + unat base) mod 64"
    by (rule hashOffset_nat)
  have p64: "unat ?p < 64"
    by (subst p) simp
  show "bit (ANGLE_ROTL64 (Bit cnt - 1) ?p) n
           \<longleftrightarrow> n < 64
               \<and> (\<exists>i<unat cnt. n = ((unat level * unat lc + unat base) mod 64 + i) mod 64)"
    by (subst subresourceHash_bits [OF c64 p64], subst p) (rule refl)
qed


lemma trackSubresourceUpload_large:
  assumes "64 \<le> unat cnt"
  shows "\<exists>st1. trackSubresourceUpload a (level, base, cnt) st = Inr st1
     \<and> (\<exists>s d b. commands st1 = commands st @ [ImageBarrier s d b]
            \<and> isTransferDstBarrier (mImage (self st)) (ImageBarrier s d b))
     \<and> subresourceUploadsInProgress st1 = - 1"
proof -
  obtain s d bar where cl:
    "changeLayout a TransferDst (self st) (commands st)
       = Inr ((self st)\<lparr>mCurrentLayout := TransferDst\<rparr>, commands st @ [ImageBarrier s d bar])"
    and isb: "isTransferDstBarrier (mImage (self st)) (ImageBarrier s d bar)"
    using changeLayout_TransferDst_fence [of a "self st" "commands st"] by blast
  have big: "kMaxParallelSubresourceUpload \<le> cnt"
    using assms by (simp add: kMaxParallelSubresourceUpload_def word_le_nat_alt)
  let ?st1 = "st\<lparr>self := (self st)\<lparr>mCurrentLayout := TransferDst\<rparr>,
                   commands := commands st @ [ImageBarrier s d bar],
                   subresourceUploadsInProgress := - 1\<rparr>"
  have tr: "trackSubresourceUpload a (level, base, cnt) st = Inr ?st1"
    unfolding trackSubresourceUpload_def by (simp add: big cl)
  show ?thesis
    apply (rule exI [of _ ?st1])
    apply (rule conjI [OF tr])
    apply (rule conjI)
     apply (rule exI [of _ s], rule exI [of _ d], rule exI [of _ bar])
     apply (insert isb, simp)
    apply simp
    done
qed


lemma trackSubresourceUpload_overlap:
  assumes "\<not> 64 \<le> unat cnt"
    and "subresourceUploadsInProgress st
           AND ANGLE_ROTL64 (Bit cnt - 1)
                 ((level * mLayerCount (self st) + base) mod kMaxParallelSubresourceUpload)
         \<noteq> 0"
  shows "\<exists>st1. trackSubresourceUpload a (level, base, cnt) st = Inr st1
     \<and> (\<exists>s d b. commands st1 = commands st @ [ImageBarrier s d b]
            \<and> isTransferDstBarrier (mImage (self st)) (ImageBarrier s d b))
     \<and> subresourceUploadsInProgress st1
         = ANGLE_ROTL64 (Bit cnt - 1)
             ((level * mLayerCount (self st) + base) mod kMaxParallelSubresourceUpload)"
proof -
  let ?h = "ANGLE_ROTL64 (Bit cnt - 1)
              ((level * mLayerCount (self st) + base) mod kMaxParallelSubresourceUpload)"
  obtain s d bar where cl:
    "changeLayout a TransferDst (self st) (commands st)
       = Inr ((self st)\<lparr>mCurrentLayout := TransferDst\<rparr>, commands st @ [ImageBarrier s d bar])"
    and isb: "isTransferDstBarrier (mImage (self st)) (ImageBarrier s d bar)"
    using changeLayout_TransferDst_fence [of a "self st" "commands st"] by blast
  have small: "\<not> kMaxParallelSubresourceUpload \<le> cnt"
    using assms(1) by (simp add: kMaxParallelSubresourceUpload_def word_le_nat_alt)
  let ?st1 = "st\<lparr>self := (self st)\<lparr>mCurrentLayout := TransferDst\<rparr>,
                   commands := commands st @ [ImageBarrier s d bar],
                   subresourceUploadsInProgress := 0 OR ?h\<rparr>"
  have tr: "trackSubresourceUpload a (level, base, cnt) st = Inr ?st1"
    unfolding trackSubresourceUpload_def using assms(2) by (simp add: small cl Let_def)
  show ?thesis
    apply (rule exI [of _ ?st1])
    apply (rule conjI [OF tr])
    apply (rule conjI)
     apply (rule exI [of _ s], rule exI [of _ d], rule exI [of _ bar])
     apply (insert isb, simp)
    apply simp
    done
qed

lemma trackSubresourceUpload_disjoint:
  assumes "\<not> 64 \<le> unat cnt"
    and "\<not> subresourceUploadsInProgress st
           AND ANGLE_ROTL64 (Bit cnt - 1)
                 ((level * mLayerCount (self st) + base) mod kMaxParallelSubresourceUpload)
         \<noteq> 0"
  shows "\<exists>st1. trackSubresourceUpload a (level, base, cnt) st = Inr st1
     \<and> commands st1 = commands st
     \<and> subresourceUploadsInProgress st1
         = subresourceUploadsInProgress st
             OR ANGLE_ROTL64 (Bit cnt - 1)
                  ((level * mLayerCount (self st) + base) mod kMaxParallelSubresourceUpload)"
proof -
  have small: "\<not> kMaxParallelSubresourceUpload \<le> cnt"
    using assms(1) by (simp add: kMaxParallelSubresourceUpload_def word_le_nat_alt)
  show ?thesis
    unfolding trackSubresourceUpload_def using assms(2) by (simp add: small Let_def)
qed


lemma trackSubresourceUpload_cases:
  "\<exists>st1. trackSubresourceUpload a (level, base, cnt) st = Inr st1
     \<and> (if 64 \<le> unat cnt
         then (\<exists>s d b. commands st1 = commands st @ [ImageBarrier s d b]
                 \<and> isTransferDstBarrier (mImage (self st)) (ImageBarrier s d b))
              \<and> subresourceUploadsInProgress st1 = - 1
         else (\<exists>h. (\<forall>n. bit h n \<longleftrightarrow>
                        n < 64
                        \<and> (\<exists>i<unat cnt.
                              n = ((unat level * unat (mLayerCount (self st)) + unat base) mod 64
                                     + i) mod 64))
                 \<and> (if subresourceUploadsInProgress st AND h \<noteq> 0
                    then (\<exists>s d b. commands st1 = commands st @ [ImageBarrier s d b]
                            \<and> isTransferDstBarrier (mImage (self st)) (ImageBarrier s d b))
                         \<and> subresourceUploadsInProgress st1 = h
                    else commands st1 = commands st
                         \<and> subresourceUploadsInProgress st1
                             = subresourceUploadsInProgress st OR h)))"
proof (cases "64 \<le> unat cnt")
  case True
  obtain st1 where tr: "trackSubresourceUpload a (level, base, cnt) st = Inr st1"
    and post: "(\<exists>s d b. commands st1 = commands st @ [ImageBarrier s d b]
            \<and> isTransferDstBarrier (mImage (self st)) (ImageBarrier s d b))
         \<and> subresourceUploadsInProgress st1 = - 1"
    using trackSubresourceUpload_large [OF True, of a level base st] by blast
  show ?thesis
    apply (rule exI [of _ st1])
    apply (rule conjI [OF tr])
    apply (subst if_P [OF True])
    apply (rule post)
    done
next
  case False
  then have c64: "unat cnt < 64"
    by simp
  let ?h = "ANGLE_ROTL64 (Bit cnt - 1)
              ((level * mLayerCount (self st) + base) mod kMaxParallelSubresourceUpload)"
  note hb = subresourceHash_position [OF c64, of level "mLayerCount (self st)" base]
  show ?thesis
  proof (cases "subresourceUploadsInProgress st AND ?h \<noteq> 0")
    case ov: True
    obtain st1 where tr: "trackSubresourceUpload a (level, base, cnt) st = Inr st1"
      and post: "(\<exists>s d b. commands st1 = commands st @ [ImageBarrier s d b]
            \<and> isTransferDstBarrier (mImage (self st)) (ImageBarrier s d b))
         \<and> subresourceUploadsInProgress st1 = ?h"
      using trackSubresourceUpload_overlap [OF False ov, of a] by blast
    show ?thesis
      apply (rule exI [of _ st1])
      apply (rule conjI [OF tr])
      apply (subst if_not_P [OF False])
      apply (rule exI [of _ ?h])
      apply (rule conjI [OF hb])
      apply (subst if_P [OF ov])
      apply (rule post)
      done
  next
    case nov: False
    obtain st1 where tr: "trackSubresourceUpload a (level, base, cnt) st = Inr st1"
      and post: "commands st1 = commands st
         \<and> subresourceUploadsInProgress st1 = subresourceUploadsInProgress st OR ?h"
      using trackSubresourceUpload_disjoint [OF False nov, of a] by blast
    show ?thesis
      apply (rule exI [of _ st1])
      apply (rule conjI [OF tr])
      apply (subst if_not_P [OF False])
      apply (rule exI [of _ ?h])
      apply (rule conjI [OF hb])
      apply (subst if_not_P [OF nov])
      apply (rule post)
      done
  qed
qed


lemma flushStagedUpdates_separated:
  assumes ne: "mSubresourceUpdates (self w) \<noteq> []"
    and fl: "DynamicBuffer_flush (contextVk w) (mStagingBuffer (self w)) = (Inr (), sb)"
    and val: "valid (self w)"
    and wf: "\<forall>u \<in> set (mSubresourceUpdates (self w)). isUpdateValid u
           \<and> \<not> isl (updateSubresource (mLayerCount (self w)) u)"
  shows "\<exists>w1 new. flushStagedUpdates ls le ys ye w = (Inr (), w1)
     \<and> commands w1 = commands w @ new
     \<and> separated (mImage (self w)) new"
proof -
  let ?img0 = "(self w)\<lparr>mStagingBuffer := sb\<rparr>"
  let ?a = "GetFormatAspectFlags (imageFormat (mFormat ?img0))"
  let ?img1 = "?img0\<lparr>mCurrentLayout := TransferDst\<rparr>"
  obtain s d b where cl:
    "changeLayout ?a TransferDst ?img0 (commands w)
       = Inr (?img1, commands w @ [ImageBarrier s d b])"
    and isb: "isTransferDstBarrier (mImage ?img0) (ImageBarrier s d b)"
    using changeLayout_TransferDst_fence [of ?a ?img0 "commands w"] by blast
  let ?st0 = "\<lparr>self = ?img1, contextVk = contextVk w,
               commands = commands w @ [ImageBarrier s d b],
               readDependencies = readDependencies w,
               subresourceUploadsInProgress = 0, updatesToKeep = []\<rparr>"
  have sep0: "separated (mImage (self w)) ([] @ [ImageBarrier s d b])"
    by (rule separated_snoc) (simp_all add: separated_def)
  have cov0: "covered (mImage (self w)) (unat (mLayerCount (self w)))
                ([] @ [ImageBarrier s d b]) 0"
    by (rule covered_fence) (use isb in simp)
  have "mCurrentLayout (self ?st0) = TransferDst" and "valid (self ?st0)"
    and "\<forall>u \<in> set (mSubresourceUpdates (self w)). isUpdateValid u
           \<and> \<not> isl (updateSubresource (mLayerCount (self ?st0)) u)"
    and "covered (mImage (self ?st0)) (unat (mLayerCount (self ?st0)))
           [ImageBarrier s d b] (subresourceUploadsInProgress ?st0)"
    and "separated (mImage (self ?st0)) [ImageBarrier s d b]"
    and "commands ?st0 = commands w @ [ImageBarrier s d b]"
    using val wf sep0 cov0 by (simp_all add: valid_def)
  from flushStagedUpdates_loop_fence [OF this, of ?a ls le ys ye]
  obtain st' new where lp:
      "flushStagedUpdates_loop ?a ls le ys ye (mSubresourceUpdates (self w)) ?st0 = Inr st'"
    and f: "commands st' = commands w @ new" "separated (mImage (self w)) new"
    by auto
  obtain sb2 ctx2 where rel:
    "releaseInFlightBuffers (contextVk st') (mStagingBuffer (self st')) = (sb2, ctx2)"
    by (cases "releaseInFlightBuffers (contextVk st') (mStagingBuffer (self st'))")
  have "\<exists>w1. flushStagedUpdates ls le ys ye w = (Inr (), w1) \<and> commands w1 = commands st'"
    using ne by (simp add: flushStagedUpdates_def fl cl [simplified] lp [simplified] Let_def rel)
  then show ?thesis
    using f by auto
qed


lemma uploadCommand_touches:
  assumes "\<not> isl (updateSubresource (mLayerCount img) u)"
  shows "writesSubresource (mImage img) level layer (uploadCommand img u)
     \<longleftrightarrow> touches (mLayerCount img) u level layer"
  using assms
  by (cases u) (auto simp add: touches_def Let_def split: if_splits)

text \<open>
  Claim C4. The bookkeeping of the uploads in progress, in any state and for any level,
  base layer and layer count: with 64 layers or more it records one barrier of the
  transfer destination layout on the image and sets every bit of the mask; otherwise the
  hash has exactly the bits \<open>(p + i) mod 64\<close> for \<open>i\<close> below the layer count, where \<open>p\<close> is
  \<open>(level * mLayerCount + baseLayer) mod 64\<close>, and if the mask and the hash have a bit in
  common it records one such barrier and the mask becomes the hash, else it records
  nothing and the hash is added to the mask. Consequently, in a flush of a non-empty queue
  on a valid image whose staging buffer can be flushed and whose updates pass the
  assertions of the loop, the commands that write the image are those of the updates in
  the window, in order, each writing the subresources its update touches, and between any
  two recorded commands that write the same subresource there is a barrier of the transfer
  destination layout on the image.
\<close>

theorem C4_upload_tracking:
  assumes ne: "mSubresourceUpdates (self w) \<noteq> []"
    and fl: "fst (DynamicBuffer_flush (contextVk w) (mStagingBuffer (self w))) = Inr ()"
    and val: "valid (self w)"
    and asserts: "\<forall>u \<in> set (mSubresourceUpdates (self w)). isUpdateValid u
           \<and> \<not> isl (updateSubresource (mLayerCount (self w)) u)"
  shows "(\<forall>st level base cnt.
      \<exists>st1. trackSubresourceUpload aspectFlags (level, base, cnt) st = Inr st1
     \<and> (if 64 \<le> unat cnt
         then (\<exists>s d b. commands st1 = commands st @ [ImageBarrier s d b]
                 \<and> isTransferDstBarrier (mImage (self st)) (ImageBarrier s d b))
              \<and> subresourceUploadsInProgress st1 = - 1
         else (\<exists>h. (\<forall>n. bit h n \<longleftrightarrow>
                        n < 64
                        \<and> (\<exists>i<unat cnt.
                              n = ((unat level * unat (mLayerCount (self st)) + unat base) mod 64
                                     + i) mod 64))
                 \<and> (if subresourceUploadsInProgress st AND h \<noteq> 0
                    then (\<exists>s d b. commands st1 = commands st @ [ImageBarrier s d b]
                            \<and> isTransferDstBarrier (mImage (self st)) (ImageBarrier s d b))
                         \<and> subresourceUploadsInProgress st1 = h
                    else commands st1 = commands st
                         \<and> subresourceUploadsInProgress st1
                             = subresourceUploadsInProgress st OR h))))
    \<and> (\<exists>w1 new.
          flushStagedUpdates levelStart levelEnd layerStart layerEnd w = (Inr (), w1)
        \<and> commands w1 = commands w @ new
        \<and> filter isUpload new
            = map (uploadCommand (self w))
                (filter (\<lambda>u. \<not> isUpdateOutsideRange (mLayerCount (self w)) levelStart
                            levelEnd layerStart layerEnd u)
                   (mSubresourceUpdates (self w)))
        \<and> (\<forall>u \<in> set (mSubresourceUpdates (self w)). \<forall>level layer.
              writesSubresource (mImage (self w)) level layer (uploadCommand (self w) u)
                \<longleftrightarrow> touches (mLayerCount (self w)) u level layer)
        \<and> (\<forall>i j level layer.
              i < j \<and> j < length new
              \<and> writesSubresource (mImage (self w)) level layer (new ! i)
              \<and> writesSubresource (mImage (self w)) level layer (new ! j)
              \<longrightarrow> (\<exists>k. i < k \<and> k < j
                      \<and> isTransferDstBarrier (mImage (self w)) (new ! k))))"
proof (rule conjI)
  show "\<forall>st level base cnt.
      \<exists>st1. trackSubresourceUpload aspectFlags (level, base, cnt) st = Inr st1
     \<and> (if 64 \<le> unat cnt
         then (\<exists>s d b. commands st1 = commands st @ [ImageBarrier s d b]
                 \<and> isTransferDstBarrier (mImage (self st)) (ImageBarrier s d b))
              \<and> subresourceUploadsInProgress st1 = - 1
         else (\<exists>h. (\<forall>n. bit h n \<longleftrightarrow>
                        n < 64
                        \<and> (\<exists>i<unat cnt.
                              n = ((unat level * unat (mLayerCount (self st)) + unat base) mod 64
                                     + i) mod 64))
                 \<and> (if subresourceUploadsInProgress st AND h \<noteq> 0
                    then (\<exists>s d b. commands st1 = commands st @ [ImageBarrier s d b]
                            \<and> isTransferDstBarrier (mImage (self st)) (ImageBarrier s d b))
                         \<and> subresourceUploadsInProgress st1 = h
                    else commands st1 = commands st
                         \<and> subresourceUploadsInProgress st1
                             = subresourceUploadsInProgress st OR h)))"
    by (intro allI) (rule trackSubresourceUpload_cases)
next
  obtain sb where sb: "DynamicBuffer_flush (contextVk w) (mStagingBuffer (self w)) = (Inr (), sb)"
    using fl by (cases "DynamicBuffer_flush (contextVk w) (mStagingBuffer (self w))") simp
  from flushStagedUpdates_result [OF ne sb val asserts refl refl refl,
      of levelStart levelEnd layerStart layerEnd]
  obtain w1 new where r:
    "flushStagedUpdates levelStart levelEnd layerStart layerEnd w = (Inr (), w1)"
    "commands w1 = commands w @ new"
    "filter isUpload new
       = map (uploadCommand (self w))
           (filter (\<lambda>u. \<not> isUpdateOutsideRange (mLayerCount (self w)) levelStart
                       levelEnd layerStart layerEnd u)
              (mSubresourceUpdates (self w)))"
    by blast
  from flushStagedUpdates_separated [OF ne sb val asserts,
      of levelStart levelEnd layerStart layerEnd]
  obtain w1' new' where r':
    "flushStagedUpdates levelStart levelEnd layerStart layerEnd w = (Inr (), w1')"
    "commands w1' = commands w @ new'" "separated (mImage (self w)) new'"
    by blast
  have "new' = new"
    using r(1,2) r'(1,2) by simp
  then have sep: "separated (mImage (self w)) new"
    using r'(3) by simp
  have tch: "\<forall>u \<in> set (mSubresourceUpdates (self w)). \<forall>level layer.
              writesSubresource (mImage (self w)) level layer (uploadCommand (self w) u)
                \<longleftrightarrow> touches (mLayerCount (self w)) u level layer"
    using asserts uploadCommand_touches by blast
  show "\<exists>w1 new.
          flushStagedUpdates levelStart levelEnd layerStart layerEnd w = (Inr (), w1)
        \<and> commands w1 = commands w @ new
        \<and> filter isUpload new
            = map (uploadCommand (self w))
                (filter (\<lambda>u. \<not> isUpdateOutsideRange (mLayerCount (self w)) levelStart
                            levelEnd layerStart layerEnd u)
                   (mSubresourceUpdates (self w)))
        \<and> (\<forall>u \<in> set (mSubresourceUpdates (self w)). \<forall>level layer.
              writesSubresource (mImage (self w)) level layer (uploadCommand (self w) u)
                \<longleftrightarrow> touches (mLayerCount (self w)) u level layer)
        \<and> (\<forall>i j level layer.
              i < j \<and> j < length new
              \<and> writesSubresource (mImage (self w)) level layer (new ! i)
              \<and> writesSubresource (mImage (self w)) level layer (new ! j)
              \<longrightarrow> (\<exists>k. i < k \<and> k < j
                      \<and> isTransferDstBarrier (mImage (self w)) (new ! k)))"
    apply (rule exI [of _ w1], rule exI [of _ new])
    apply (intro conjI)
        apply (rule r(1))
       apply (rule r(2))
      apply (rule r(3))
     apply (rule tch)
    apply (rule sep [unfolded separated_def])
    done
qed



text \<open>
  The first flush of the example image records a barrier, the clear of level 0, a barrier,
  the copy to layer 0, the barrier of the source image and the copy to layer 1.
\<close>

lemma rotl_0: "word_rotl 0 (w :: uint64_t) = w"
  by (rule bit_word_eqI) (simp add: bit_word_rotl_iff)

lemma rotl_1_1: "word_rotl (Suc 0) (1 :: uint64_t) = 2"
proof (rule bit_word_eqI)
  fix n :: nat
  assume n: "n < LENGTH(64)"
  have "(n + 63) mod 64 = 0 \<longleftrightarrow> n = 1"
    using n by (auto simp add: mod_if)
  then show "bit (word_rotl (Suc 0) (1 :: uint64_t)) n = bit (2 :: uint64_t) n"
    using n by (auto simp add: bit_word_rotl_iff bit_1_iff bit_numeral_Bit0_iff bit_double_iff)
qed


lemmas flush_eval =
  flushStagedUpdates_def flushUpdate_def isOutsideRange_def trackSubresourceUpload_def
  kMaxParallelSubresourceUpload_def kEntireLevel_def Bit_def ANGLE_ROTL64_def
  clear_def clearColor_def clearDepthStencil_def valid_def getCurrentLayout_def
  GetFormatAspectFlags_def GetDepthStencilAspectFlags_def
  changeLayout_def isLayoutChangeNecessary_def forceChangeLayoutAndQueue_def
  DynamicBuffer_flush_def BufferHelper_flush_def releaseInFlightBuffers_def
  DynamicBuffer_release_def DynamicBuffer_reset_def releaseBufferListToContext_def
  releaseObject_def BufferHelper_release_def updateQueueSerial_def BufferHelper_unmap_def
  exampleRecording_def exampleImage_def exampleUpdates_def exampleSource_def
  exampleBuffer100_def exampleBuffer_def exampleContext100_def exampleContext_def
  DynamicBuffer_new_def VK_IMAGE_ASPECT_COLOR_BIT_def
  Let_def word_less_nat_alt word_le_nat_alt rotl_0 rotl_1_1

lemma example_flush_level0:
  "fst (flushStagedUpdates 0 1 0 2 exampleRecording) = Inr ()"
  "length (commands (snd (flushStagedUpdates 0 1 0 2 exampleRecording))) = 6"
  "writesSubresource 7 0 0 (commands (snd (flushStagedUpdates 0 1 0 2 exampleRecording)) ! 1)"
  "writesSubresource 7 0 0 (commands (snd (flushStagedUpdates 0 1 0 2 exampleRecording)) ! 3)"
  "isTransferDstBarrier 7 (commands (snd (flushStagedUpdates 0 1 0 2 exampleRecording)) ! 2)"
  "\<not> isTransferDstBarrier 7 (commands (snd (flushStagedUpdates 0 1 0 2 exampleRecording)) ! 4)"
  by (simp_all add: flush_eval)


text \<open>
  In that flush the clear and the buffer copy both write layer 0 of level 0, and the
  barrier between them is the command at index 2.
\<close>

theorem C4_upload_tracking_witness:
  "\<exists>w1 new k.
      flushStagedUpdates 0 1 0 2 exampleRecording = (Inr (), w1)
    \<and> commands w1 = commands exampleRecording @ new
    \<and> writesSubresource 7 0 0 (new ! 1)
    \<and> writesSubresource 7 0 0 (new ! 3)
    \<and> 1 < k \<and> k < 3 \<and> isTransferDstBarrier 7 (new ! k)"
proof -
  have ne: "mSubresourceUpdates (self exampleRecording) \<noteq> []"
    by (simp add: example_queue exampleUpdates_def)
  have val: "valid (self exampleRecording)"
    by (simp add: exampleRecording_def exampleImage_def valid_def)
  have asserts: "\<forall>u \<in> set (mSubresourceUpdates (self exampleRecording)). isUpdateValid u
           \<and> \<not> isl (updateSubresource (mLayerCount (self exampleRecording)) u)"
    using example_asserts by (simp add: example_queue example_layers)
  have img: "mImage (self exampleRecording) = 7"
    by (simp add: exampleRecording_def exampleImage_def)
  have nil: "commands exampleRecording = []"
    by (simp add: exampleRecording_def)
  from C4_upload_tracking [OF ne example_staging_flush val asserts, THEN conjunct2,
      of 0 1 0 2, unfolded img]
  obtain w1 new where r: "flushStagedUpdates 0 1 0 2 exampleRecording = (Inr (), w1)"
    "commands w1 = commands exampleRecording @ new"
    and sep: "\<forall>i j level layer.
              i < j \<and> j < length new
              \<and> writesSubresource 7 level layer (new ! i)
              \<and> writesSubresource 7 level layer (new ! j)
              \<longrightarrow> (\<exists>k. i < k \<and> k < j \<and> isTransferDstBarrier 7 (new ! k))"
    by blast
  have new: "new = commands (snd (flushStagedUpdates 0 1 0 2 exampleRecording))"
    using r nil by simp
  have len: "(1::nat) < 3 \<and> 3 < length new"
    and w1: "writesSubresource 7 0 0 (new ! 1)"
    and w3: "writesSubresource 7 0 0 (new ! 3)"
    unfolding new using example_flush_level0(2,3,4) by simp_all
  from sep [rule_format, of 1 3 0 0] len w1 w3
  obtain k where k: "1 < k" "k < 3" "isTransferDstBarrier 7 (new ! k)"
    by blast
  show ?thesis
    by (intro exI [of _ w1] exI [of _ new] exI [of _ k] conjI)
       (rule r(1) r(2) w1 w3 k)+
qed

text \<open>
  Claim C3 as stated fails in three ways, each for a queue of one buffer copy to level 0 of
  an image of four layers. Flushed with the empty layer window \<open>[1, 1)\<close>, a copy to layers 0
  and 1 has no layer in the window and is applied and removed. Flushed with the layer
  window \<open>[0, 4)\<close>, a copy of no layers at base layer 1 has no layer in the window and is
  applied and removed. Flushed with the layer window \<open>[1, 4)\<close>, a copy of \<open>2\<^sup>3\<^sup>2 - 2\<close> layers
  from base layer 3 has layer 3 in the window and is kept, and only the barrier is
  recorded: the 32-bit sum of the base layer and the layer count is 1.
\<close>

theorem C3_counterexample:
  "mSubresourceUpdates (self (exampleRecordingOne 0 2)) \<noteq> []
   \<and> outsideWindow 4 0 1 1 1 (hd (mSubresourceUpdates (self (exampleRecordingOne 0 2))))
   \<and> fst (flushStagedUpdates 0 1 1 1 (exampleRecordingOne 0 2)) = Inr ()
   \<and> mSubresourceUpdates (self (snd (flushStagedUpdates 0 1 1 1 (exampleRecordingOne 0 2)))) = []
   \<and> map isUpload (commands (snd (flushStagedUpdates 0 1 1 1 (exampleRecordingOne 0 2))))
       = [False, True]
   \<and> outsideWindow 4 0 1 0 4 (hd (mSubresourceUpdates (self (exampleRecordingOne 1 0))))
   \<and> fst (flushStagedUpdates 0 1 0 4 (exampleRecordingOne 1 0)) = Inr ()
   \<and> mSubresourceUpdates (self (snd (flushStagedUpdates 0 1 0 4 (exampleRecordingOne 1 0)))) = []
   \<and> map isUpload (commands (snd (flushStagedUpdates 0 1 0 4 (exampleRecordingOne 1 0))))
       = [False, True]
   \<and> \<not> outsideWindow 4 0 1 1 4
         (hd (mSubresourceUpdates (self (exampleRecordingOne 3 0xFFFFFFFE))))
   \<and> fst (flushStagedUpdates 0 1 1 4 (exampleRecordingOne 3 0xFFFFFFFE)) = Inr ()
   \<and> mSubresourceUpdates
        (self (snd (flushStagedUpdates 0 1 1 4 (exampleRecordingOne 3 0xFFFFFFFE))))
       = mSubresourceUpdates (self (exampleRecordingOne 3 0xFFFFFFFE))
   \<and> map isUpload
        (commands (snd (flushStagedUpdates 0 1 1 4 (exampleRecordingOne 3 0xFFFFFFFE))))
       = [False]"
  by (simp add: exampleRecordingOne_def outsideWindow_def flush_eval)

end
